(* ===== verification/Prelude.thy ===== *)
theory Prelude
  imports Main "HOL-Library.Word"
begin

unbundle bit_operations_syntax

text \<open>
  Shared vocabulary of the VLite development.

  \<^item> the byte and integer types of the Go sources;
  \<^item> \<open>sync.Map\<close> as a partial function with \<open>Load\<close>, \<open>Store\<close>, \<open>LoadOrStore\<close> and \<open>Delete\<close>;
  \<^item> buffered Go channels with the blocking send, the \<open>select\<close>/\<open>default\<close> send and the receive;
  \<^item> \<open>copy\<close>, slices, the big-endian codec and the bytewise exclusive or;
  \<^item> the two kinds of outcome a Go call has besides a value: a returned error and a panic.

  The lemma collections \<open>go_map\<close>, \<open>go_chan\<close> and \<open>go_bytes\<close> carry the facts the component
  proofs share.
\<close>

named_theorems go_map \<open>facts on the sync.Map operations\<close>
named_theorems go_chan \<open>facts on buffered channels\<close>
named_theorems go_bytes \<open>facts on byte strings\<close>

section \<open>Types\<close>

type_synonym byte = "8 word"
type_synonym bytes = "byte list"
type_synonym u16 = "16 word"
type_synonym u32 = "32 word"
type_synonym u64 = "64 word"

text \<open>
  A call of a Go function that can fail: it returns a value, it returns an error, it panics,
  or it never returns because it waits for a lock nobody releases.
\<close>

datatype ('e, 'a) outcome = Ok 'a | Err 'e | Panic | Blocked

primrec bind_outcome :: "('e, 'a) outcome \<Rightarrow> ('a \<Rightarrow> ('e, 'b) outcome) \<Rightarrow> ('e, 'b) outcome" where
  "bind_outcome (Ok a) f = f a"
| "bind_outcome (Err e) f = Err e"
| "bind_outcome Panic f = Panic"
| "bind_outcome Blocked f = Blocked"

lemma bind_outcome_Ok_iff [simp]:
  "bind_outcome r f = Ok b \<longleftrightarrow> (\<exists>a. r = Ok a \<and> f a = Ok b)"
  by (cases r) auto

lemma bind_outcome_cong [fundef_cong]:
  "r = r' \<Longrightarrow> (\<And>a. r' = Ok a \<Longrightarrow> f a = g a) \<Longrightarrow> bind_outcome r f = bind_outcome r' g"
  by (cases r') auto

lemma bind_outcome_assoc: "bind_outcome (bind_outcome r f) g = bind_outcome r (\<lambda>a. bind_outcome (f a) g)"
  by (cases r) auto

lemma bind_outcome_right [simp]: "bind_outcome r Ok = r"
  by (cases r) auto

section \<open>sync.Map\<close>

definition Load :: "('k \<rightharpoonup> 'v) \<Rightarrow> 'k \<Rightarrow> 'v option" where
  "Load m k = m k"

definition Store :: "('k \<rightharpoonup> 'v) \<Rightarrow> 'k \<Rightarrow> 'v \<Rightarrow> ('k \<rightharpoonup> 'v)" where
  "Store m k v = m(k \<mapsto> v)"

definition LoadOrStore :: "('k \<rightharpoonup> 'v) \<Rightarrow> 'k \<Rightarrow> 'v \<Rightarrow> ('k \<rightharpoonup> 'v) \<times> 'v \<times> bool" where
  "LoadOrStore m k v =
     (case m k of Some a \<Rightarrow> (m, a, True) | None \<Rightarrow> (m(k \<mapsto> v), v, False))"

definition Delete :: "('k \<rightharpoonup> 'v) \<Rightarrow> 'k \<Rightarrow> ('k \<rightharpoonup> 'v)" where
  "Delete m k = m(k := None)"

lemma Load_Store [simp, go_map]: "Load (Store m k v) k' = (if k = k' then Some v else Load m k')"
  by (simp add: Load_def Store_def)

lemma Load_Delete [simp, go_map]: "Load (Delete m k) k' = (if k = k' then None else Load m k')"
  by (simp add: Load_def Delete_def)

lemma Load_empty [simp, go_map]: "Load Map.empty k = None"
  by (simp add: Load_def)

lemma LoadOrStore_eq [go_map]:
  "LoadOrStore m k v =
     (case Load m k of Some a \<Rightarrow> (m, a, True) | None \<Rightarrow> (Store m k v, v, False))"
  by (simp add: LoadOrStore_def Load_def Store_def split: option.split)

lemma Load_LoadOrStore [simp, go_map]:
  "Load (fst (LoadOrStore m k v)) k' =
     (if k = k' \<and> Load m k = None then Some v else Load m k')"
  by (auto simp: LoadOrStore_eq split: option.splits)

lemma dom_Store [simp, go_map]: "dom (Store m k v) = insert k (dom m)"
  by (simp add: Store_def)

lemma dom_Delete [simp, go_map]: "dom (Delete m k) = dom m - {k}"
  by (auto simp: Delete_def)

section \<open>Buffered channels\<close>

text \<open>
  A channel holds its capacity and the values sent and not yet received. A blocking send
  \<open>c <- v\<close> returns once the value is in the channel; \<open>chan_send\<close> is the state at that moment
  (a full channel makes the sender wait for a receiver first, and then the value goes to the
  end of the queue all the same). A send under \<open>select\<close> with a \<open>default\<close> branch succeeds only
  when there is room.
\<close>

record 'a chan =
  ch_cap :: nat
  ch_buf :: "'a list"

definition make_chan :: "nat \<Rightarrow> 'a chan" where
  "make_chan n = \<lparr>ch_cap = n, ch_buf = []\<rparr>"

definition chan_send :: "'a chan \<Rightarrow> 'a \<Rightarrow> 'a chan" where
  "chan_send c v = c\<lparr>ch_buf := ch_buf c @ [v]\<rparr>"

definition chan_try_send :: "'a chan \<Rightarrow> 'a \<Rightarrow> 'a chan \<times> bool" where
  "chan_try_send c v = (if length (ch_buf c) < ch_cap c then (chan_send c v, True) else (c, False))"

definition chan_recv :: "'a chan \<Rightarrow> ('a \<times> 'a chan) option" where
  "chan_recv c = (case ch_buf c of [] \<Rightarrow> None | v # vs \<Rightarrow> Some (v, c\<lparr>ch_buf := vs\<rparr>))"

lemma chan_send_simps [simp, go_chan]:
  "ch_buf (chan_send c v) = ch_buf c @ [v]"
  "ch_cap (chan_send c v) = ch_cap c"
  by (simp_all add: chan_send_def)

lemma make_chan_simps [simp, go_chan]:
  "ch_buf (make_chan n) = []" "ch_cap (make_chan n) = n"
  by (simp_all add: make_chan_def)

lemma chan_try_send_buf [go_chan]:
  "ch_buf (fst (chan_try_send c v)) = (if length (ch_buf c) < ch_cap c then ch_buf c @ [v] else ch_buf c)"
  by (simp add: chan_try_send_def)

lemma chan_try_send_bound [go_chan]:
  "length (ch_buf c) \<le> ch_cap c \<Longrightarrow> length (ch_buf (fst (chan_try_send c v))) \<le> ch_cap (fst (chan_try_send c v))"
  by (simp add: chan_try_send_def)

section \<open>Byte strings\<close>

text \<open>\<open>copy(dst, src)\<close> overwrites a prefix of the destination and returns the number of bytes.\<close>

definition go_copy :: "'a list \<Rightarrow> 'a list \<Rightarrow> 'a list" where
  "go_copy dst src = take (length dst) src @ drop (length src) dst"

lemma length_go_copy [simp, go_bytes]: "length (go_copy dst src) = length dst"
  by (simp add: go_copy_def)

lemma go_copy_same_length [simp, go_bytes]: "length src = length dst \<Longrightarrow> go_copy dst src = src"
  by (simp add: go_copy_def)

definition xor_bytes :: "bytes \<Rightarrow> bytes \<Rightarrow> bytes" where
  "xor_bytes xs ys = map2 (XOR) xs ys"

lemma length_xor_bytes [simp, go_bytes]: "length (xor_bytes xs ys) = min (length xs) (length ys)"
  by (simp add: xor_bytes_def)

lemma nth_xor_bytes [simp, go_bytes]:
  "i < length xs \<Longrightarrow> i < length ys \<Longrightarrow> xor_bytes xs ys ! i = (xs ! i) XOR (ys ! i)"
  by (simp add: xor_bytes_def)

lemma word_xor_cancel [simp, go_bytes]: "(x XOR y) XOR y = (x :: 'a::len word)"
  by (simp add: xor.assoc)

lemma xor_bytes_cancel [simp, go_bytes]:
  assumes "length xs \<le> length ys"
  shows "xor_bytes (xor_bytes xs ys) ys = xs"
  using assms by (intro nth_equalityI) auto

lemma count_list_replicate [simp]: "count_list (replicate n x) y = (if x = y then n else 0)"
  by (induction n) auto

text \<open>Unsigned integers of a given number of bytes, most significant byte first.\<close>

primrec be_encode :: "nat \<Rightarrow> nat \<Rightarrow> bytes" where
  "be_encode 0 v = []"
| "be_encode (Suc n) v = be_encode n (v div 256) @ [of_nat (v mod 256)]"

definition be_decode :: "bytes \<Rightarrow> nat" where
  "be_decode bs = foldl (\<lambda>acc b. acc * 256 + unat b) 0 bs"

lemma length_be_encode [simp, go_bytes]: "length (be_encode n v) = n"
  by (induction n arbitrary: v) auto

lemma be_decode_snoc [simp]: "be_decode (bs @ [b]) = be_decode bs * 256 + unat b"
  by (simp add: be_decode_def)

lemma be_decode_encode [simp, go_bytes]: "v < 256 ^ n \<Longrightarrow> be_decode (be_encode n v) = v"
proof (induction n arbitrary: v)
  case 0
  then show ?case by (simp add: be_decode_def)
next
  case (Suc n)
  have "v div 256 < 256 ^ n"
    using Suc.prems by (simp add: less_mult_imp_div_less mult.commute)
  then have "be_decode (be_encode n (v div 256)) = v div 256"
    by (rule Suc.IH)
  moreover have "unat (of_nat (v mod 256) :: byte) = v mod 256"
    by (simp add: unat_of_nat)
  ultimately show ?case by simp
qed

lemma be_encode_numeral: "be_encode (numeral k) v = be_encode (pred_numeral k) (v div 256) @ [of_nat (v mod 256)]"
  by (subst numeral_eq_Suc) (rule be_encode.simps)

lemma be_decode_bound [go_bytes]: "be_decode bs < 256 ^ length bs"
proof (induction bs rule: rev_induct)
  case Nil
  then show ?case by (simp add: be_decode_def)
next
  case (snoc b bs)
  have "unat b < 256"
    using unsigned_less [of b] by simp
  with snoc show ?case by simp
qed

end
