(* ===== verification/Struc.thy ===== *)
theory Struc
  imports Prelude
begin

text \<open>
  The interface to the binary packing library \<open>github.com/lunixbochs/struc\<close>, which every wire
  format of the program goes through. The library is not part of the repository, so the model
  takes it as an argument: a value of type \<open>struc_lib\<close> with the two entry points \<open>Pack\<close> and
  \<open>Unpack\<close>. A Go struct is described by its layout, the list of the \<open>struc:"..."\<close> tags of its
  fields, and by the list of its field values.

  What the program relies on is the predicate \<open>struc_laws\<close>: a packed value has the size its
  tags announce, unpacking returns the packed value and leaves the rest of the reader alone,
  whatever \<open>Unpack\<close> stores is a value of the tagged types, and an input that is too short for
  the fixed part is an error. The codec \<open>struc_be\<close> (big-endian, the library's default byte
  order) satisfies them and is the concrete library of the examples.
\<close>

section \<open>Layouts and values\<close>

text \<open>
  Tags: \<open>uint8\<close> to \<open>uint64\<close>, \<open>int16\<close> to \<open>int64\<close> (by their number of bytes), \<open>[n]byte\<close>, and a
  \<open>uint16,sizeof=X\<close> field directly followed by the \<open>[]byte\<close> field \<open>X\<close> it sizes.
\<close>

datatype ftype = F_uint nat | F_int nat | F_array nat | F_sized

datatype fval = V_int int | V_bytes bytes

type_synonym layout = "ftype list"

fun fval_ok :: "ftype \<Rightarrow> fval \<Rightarrow> bool" where
  "fval_ok (F_uint n) (V_int i) = (0 \<le> i \<and> i < 256 ^ n)"
| "fval_ok (F_int n) (V_int i) = (- (256 ^ n) \<le> 2 * i \<and> 2 * i < 256 ^ n)"
| "fval_ok (F_array n) (V_bytes b) = (length b = n)"
| "fval_ok F_sized (V_bytes b) = (length b < 65536)"
| "fval_ok _ _ = False"

definition vals_ok :: "layout \<Rightarrow> fval list \<Rightarrow> bool" where
  "vals_ok ly vs = list_all2 fval_ok ly vs"

fun field_size :: "ftype \<Rightarrow> fval \<Rightarrow> nat" where
  "field_size (F_uint n) _ = n"
| "field_size (F_int n) _ = n"
| "field_size (F_array n) _ = n"
| "field_size F_sized (V_bytes b) = 2 + length b"
| "field_size F_sized (V_int _) = 2"

definition packed_size :: "layout \<Rightarrow> fval list \<Rightarrow> nat" where
  "packed_size ly vs = sum_list (map2 field_size ly vs)"

fun fixed_size :: "ftype \<Rightarrow> nat" where
  "fixed_size (F_uint n) = n"
| "fixed_size (F_int n) = n"
| "fixed_size (F_array n) = n"
| "fixed_size F_sized = 2"

lemma vals_ok_simps [simp]:
  "vals_ok [] vs = (vs = [])"
  "vals_ok (t # ly) vs = (\<exists>v vs'. vs = v # vs' \<and> fval_ok t v \<and> vals_ok ly vs')"
  by (auto simp: vals_ok_def list_all2_Cons1)

lemma packed_size_simps [simp]:
  "packed_size [] vs = 0"
  "packed_size (t # ly) (v # vs) = field_size t v + packed_size ly vs"
  by (simp_all add: packed_size_def)

section \<open>The library\<close>

text \<open>
  \<open>Pack\<close> returns the bytes it appends to the writer, or \<open>None\<close> for an error. \<open>Unpack\<close> returns
  whether it succeeded, the field values stored in the struct (also on an error, where the
  program often only logs and goes on) and what is left in the reader.
\<close>

record struc_lib =
  struc_Pack :: "layout \<Rightarrow> fval list \<Rightarrow> bytes option"
  struc_Unpack :: "layout \<Rightarrow> bytes \<Rightarrow> bool \<times> fval list \<times> bytes"

definition struc_laws :: "struc_lib \<Rightarrow> bool" where
  "struc_laws S \<longleftrightarrow>
     (\<forall>ly vs. vals_ok ly vs \<longrightarrow>
        (\<exists>bs. struc_Pack S ly vs = Some bs \<and> length bs = packed_size ly vs \<and>
              (\<forall>rest. struc_Unpack S ly (bs @ rest) = (True, vs, rest)))) \<and>
     (\<forall>ly bs. vals_ok ly (fst (snd (struc_Unpack S ly bs)))) \<and>
     (\<forall>ly bs. length bs < sum_list (map fixed_size ly) \<longrightarrow> \<not> fst (struc_Unpack S ly bs))"

lemma struc_pack_ok:
  assumes "struc_laws S" "vals_ok ly vs"
  obtains bs where "struc_Pack S ly vs = Some bs" "length bs = packed_size ly vs"
    "\<And>rest. struc_Unpack S ly (bs @ rest) = (True, vs, rest)"
  using assms unfolding struc_laws_def by blast

lemma struc_unpack_typed:
  "struc_laws S \<Longrightarrow> struc_Unpack S ly bs = (ok, vs, rest) \<Longrightarrow> vals_ok ly vs"
  unfolding struc_laws_def by (metis fst_conv snd_conv)

lemma struc_unpack_short:
  "struc_laws S \<Longrightarrow> struc_Unpack S ly bs = (ok, vs, rest) \<Longrightarrow>
   length bs < sum_list (map fixed_size ly) \<Longrightarrow> \<not> ok"
  unfolding struc_laws_def by (metis fst_conv)

text \<open>\<open>packed\<close> is what a \<open>Pack\<close> into a \<open>bytes.Buffer\<close> leaves there: nothing on an error.\<close>

definition packed :: "struc_lib \<Rightarrow> layout \<Rightarrow> fval list \<Rightarrow> bytes" where
  "packed S ly vs = (case struc_Pack S ly vs of None \<Rightarrow> [] | Some bs \<Rightarrow> bs)"

lemma unpack_packed [simp]:
  "struc_laws S \<Longrightarrow> vals_ok ly vs \<Longrightarrow> struc_Unpack S ly (packed S ly vs @ rest) = (True, vs, rest)"
  by (erule (1) struc_pack_ok) (simp add: packed_def)

lemma unpack_packed_all [simp]:
  "struc_laws S \<Longrightarrow> vals_ok ly vs \<Longrightarrow> struc_Unpack S ly (packed S ly vs) = (True, vs, [])"
  using unpack_packed [where rest = "[]"] by simp

lemma length_packed [simp]:
  "struc_laws S \<Longrightarrow> vals_ok ly vs \<Longrightarrow> length (packed S ly vs) = packed_size ly vs"
  by (erule (1) struc_pack_ok) (simp add: packed_def)

lemma Pack_packed:
  "struc_laws S \<Longrightarrow> vals_ok ly vs \<Longrightarrow> struc_Pack S ly vs = Some (packed S ly vs)"
  by (erule (1) struc_pack_ok) (simp add: packed_def)

section \<open>The big-endian codec\<close>

fun be_pack_field :: "ftype \<Rightarrow> fval \<Rightarrow> bytes" where
  "be_pack_field (F_uint n) (V_int i) = be_encode n (nat (i mod 256 ^ n))"
| "be_pack_field (F_int n) (V_int i) = be_encode n (nat (i mod 256 ^ n))"
| "be_pack_field (F_array n) (V_bytes b) = go_copy (replicate n 0) b"
| "be_pack_field F_sized (V_bytes b) = be_encode 2 (length b mod 65536) @ b"
| "be_pack_field _ _ = []"

definition signed_of :: "nat \<Rightarrow> nat \<Rightarrow> int" where
  "signed_of n v = (if 2 * int v < 256 ^ n then int v else int v - 256 ^ n)"

fun be_zero :: "ftype \<Rightarrow> fval" where
  "be_zero (F_uint n) = V_int 0"
| "be_zero (F_int n) = V_int 0"
| "be_zero (F_array n) = V_bytes (replicate n 0)"
| "be_zero F_sized = V_bytes []"

fun be_unpack_field :: "ftype \<Rightarrow> bytes \<Rightarrow> (fval \<times> bytes) option" where
  "be_unpack_field (F_uint n) bs =
     (if length bs < n then None else Some (V_int (int (be_decode (take n bs))), drop n bs))"
| "be_unpack_field (F_int n) bs =
     (if length bs < n then None else Some (V_int (signed_of n (be_decode (take n bs))), drop n bs))"
| "be_unpack_field (F_array n) bs =
     (if length bs < n then None else Some (V_bytes (take n bs), drop n bs))"
| "be_unpack_field F_sized bs =
     (if length bs < 2 then None
      else let k = be_decode (take 2 bs); r = drop 2 bs
           in if length r < k then None else Some (V_bytes (take k r), drop k r))"

fun be_unpack :: "layout \<Rightarrow> bytes \<Rightarrow> bool \<times> fval list \<times> bytes" where
  "be_unpack [] bs = (True, [], bs)"
| "be_unpack (t # ly) bs =
     (case be_unpack_field t bs of
        None \<Rightarrow> (False, map be_zero (t # ly), [])
      | Some (v, r) \<Rightarrow> (case be_unpack ly r of (ok, vs, r') \<Rightarrow> (ok, v # vs, r')))"

definition struc_be :: struc_lib where
  "struc_be =
     \<lparr>struc_Pack = (\<lambda>ly vs. if vals_ok ly vs then Some (concat (map2 be_pack_field ly vs)) else None),
      struc_Unpack = be_unpack\<rparr>"

lemma struc_be_simps [simp]:
  "struc_Pack struc_be ly vs = (if vals_ok ly vs then Some (concat (map2 be_pack_field ly vs)) else None)"
  "struc_Unpack struc_be = be_unpack"
  by (simp_all add: struc_be_def)

lemma mod_pow256_bound: "nat (i mod 256 ^ n) < 256 ^ n"
  by (simp add: nat_less_iff)

lemma signed_of_encode:
  assumes "- (256 ^ n) \<le> 2 * i" "2 * i < 256 ^ n"
  shows "signed_of n (nat (i mod 256 ^ n)) = i"
proof (cases "0 \<le> i")
  case True
  then have "i mod 256 ^ n = i"
    using assms by (intro mod_pos_pos_trivial) auto
  then show ?thesis
    using True assms by (simp add: signed_of_def)
next
  case False
  have "i mod 256 ^ n = (i + 256 ^ n) mod 256 ^ n" by simp
  also have "\<dots> = i + 256 ^ n"
    using False assms by (intro mod_pos_pos_trivial) auto
  finally show ?thesis
    using False assms by (simp add: signed_of_def)
qed

lemma be_field_roundtrip:
  "fval_ok t v \<Longrightarrow> be_unpack_field t (be_pack_field t v @ rest) = Some (v, rest)"
proof (induction t v rule: fval_ok.induct)
  case (1 n i)
  then show ?case using be_decode_encode [OF mod_pow256_bound [of i n]] by simp
next
  case (2 n i)
  then show ?case
    using be_decode_encode [OF mod_pow256_bound [of i n]] signed_of_encode [of n i] by simp
next
  case (4 b)
  then show ?case using be_decode_encode [of "length b" 2] by simp
qed simp_all

lemma length_be_pack_field: "fval_ok t v \<Longrightarrow> length (be_pack_field t v) = field_size t v"
  by (induction t v rule: fval_ok.induct) simp_all

lemma be_decode_take_bound: "n \<le> length bs \<Longrightarrow> int (be_decode (take n bs)) < 256 ^ n"
  using be_decode_bound [of "take n bs"] by simp

lemma signed_of_range:
  assumes "int v < 256 ^ n"
  shows "- (256 ^ n) \<le> 2 * signed_of n v \<and> 2 * signed_of n v < 256 ^ n"
proof (cases "2 * int v < 256 ^ n")
  case True
  then have "signed_of n v = int v" by (simp add: signed_of_def)
  with True show ?thesis by linarith
next
  case False
  then have "signed_of n v = int v - 256 ^ n" by (simp add: signed_of_def)
  with False assms show ?thesis by linarith
qed

lemma be_unpack_field_typed: "be_unpack_field t bs = Some (v, r) \<Longrightarrow> fval_ok t v"
proof (induction t bs rule: be_unpack_field.induct)
  case (1 n bs)
  then show ?case using be_decode_take_bound [of n bs] by (auto split: if_splits)
next
  case (2 n bs)
  then show ?case
    using signed_of_range [OF be_decode_take_bound, of n bs] by (auto split: if_splits)
next
  case (4 bs)
  then show ?case using be_decode_bound [of "take 2 bs"] by (auto split: if_splits simp: Let_def)
qed (auto split: if_splits)

lemma be_zero_typed: "fval_ok t (be_zero t)"
  by (cases t) auto

lemma be_zeros_typed: "vals_ok ly (map be_zero ly)"
  by (induction ly) (auto intro: be_zero_typed)

lemma be_unpack_pack:
  "vals_ok ly vs \<Longrightarrow> be_unpack ly (concat (map2 be_pack_field ly vs) @ rest) = (True, vs, rest)"
  by (induction ly arbitrary: vs) (auto simp: be_field_roundtrip)

lemma be_pack_length:
  "vals_ok ly vs \<Longrightarrow> length (concat (map2 be_pack_field ly vs)) = packed_size ly vs"
  by (induction ly arbitrary: vs) (auto simp: length_be_pack_field)

lemma be_unpack_typed: "vals_ok ly (fst (snd (be_unpack ly bs)))"
proof (induction ly arbitrary: bs)
  case (Cons t ly)
  then show ?case
    using be_zeros_typed [of "t # ly"]
    by (auto intro: be_unpack_field_typed split: option.splits prod.splits) (metis fst_conv snd_conv)
qed simp

lemma be_unpack_field_short: "length bs < fixed_size t \<Longrightarrow> be_unpack_field t bs = None"
  by (cases t) auto

lemma be_unpack_field_consumes:
  "be_unpack_field t bs = Some (v, r) \<Longrightarrow> length r \<le> length bs - fixed_size t"
  by (cases t) (auto split: if_splits simp: Let_def)

lemma be_unpack_short:
  "length bs < sum_list (map fixed_size ly) \<Longrightarrow> \<not> fst (be_unpack ly bs)"
proof (induction ly arbitrary: bs)
  case (Cons t ly)
  show ?case
  proof (cases "be_unpack_field t bs")
    case None
    then show ?thesis by simp
  next
    case (Some p)
    obtain v r where p: "p = (v, r)" by (cases p)
    have "fixed_size t \<le> length bs"
      using be_unpack_field_short [of bs t] Some by (cases "length bs < fixed_size t") auto
    with be_unpack_field_consumes [of t bs v r] Some p Cons.prems
    have "length r < sum_list (map fixed_size ly)" by simp
    then have "\<not> fst (be_unpack ly r)" by (rule Cons.IH)
    then show ?thesis using Some p by (cases "be_unpack ly r") simp
  qed
qed simp

theorem struc_be_laws: "struc_laws struc_be"
  unfolding struc_laws_def
  using be_unpack_pack be_pack_length be_unpack_typed be_unpack_short
  by auto

end
