(* ===== verification/Address.thy ===== *)
theory Address
  imports Prelude
begin

text \<open>
  Network addresses: \<open>net.IP\<close> and \<open>net.UDPAddr\<close> of the Go standard library as far as the program
  uses them (the 4-byte and 16-byte forms, \<open>To4\<close>, \<open>To16\<close>, \<open>String\<close>), and the conversions of
  \<open>proto/address.go\<close>. Connection tables are keyed by the \<open>String\<close> of an address, so the rendering
  is modelled exactly.
\<close>

section \<open>net.IP\<close>

type_synonym ip = bytes

definition v4InV6Prefix :: bytes where
  "v4InV6Prefix = replicate 10 0 @ [0xff, 0xff]"

definition To4 :: "ip \<Rightarrow> ip option" where
  "To4 p = (if length p = 4 then Some p
            else if length p = 16 \<and> take 12 p = v4InV6Prefix then Some (drop 12 p)
            else None)"

definition To16 :: "ip \<Rightarrow> ip option" where
  "To16 p = (if length p = 4 then Some (v4InV6Prefix @ p)
             else if length p = 16 then Some p
             else None)"

section \<open>proto/address.go\<close>

definition IPv4ByteToAddr :: "bytes \<Rightarrow> ip" where
  "IPv4ByteToAddr b = b"

definition IPv6ByteToAddr :: "bytes \<Rightarrow> ip" where
  "IPv6ByteToAddr b = b"

definition IPv4AddrToByte :: "ip \<Rightarrow> bytes" where
  "IPv4AddrToByte p = go_copy (replicate 4 0) (case To4 p of None \<Rightarrow> [] | Some q \<Rightarrow> q)"

definition IPv6AddrToByte :: "ip \<Rightarrow> bytes" where
  "IPv6AddrToByte p = go_copy (replicate 16 0) (case To16 p of None \<Rightarrow> [] | Some q \<Rightarrow> q)"

lemma length_v4InV6Prefix [simp]: "length v4InV6Prefix = 12"
  by (simp add: v4InV6Prefix_def)

lemma To4_length: "To4 p = Some q \<Longrightarrow> length q = 4"
  by (auto simp: To4_def split: if_splits)

lemma To16_length: "To16 p = Some q \<Longrightarrow> length q = 16"
  by (auto simp: To16_def split: if_splits)

lemma To4_4 [simp]: "length p = 4 \<Longrightarrow> To4 p = Some p"
  by (simp add: To4_def)

lemma To16_16 [simp]: "length p = 16 \<Longrightarrow> To16 p = Some p"
  by (simp add: To16_def)

lemma To4_To16: "length p = 4 \<Longrightarrow> To16 p = Some q \<Longrightarrow> To4 q = Some p"
  by (auto simp: To4_def To16_def)

lemma length_IPv4AddrToByte [simp]: "length (IPv4AddrToByte p) = 4"
  by (simp add: IPv4AddrToByte_def)

lemma length_IPv6AddrToByte [simp]: "length (IPv6AddrToByte p) = 16"
  by (simp add: IPv6AddrToByte_def)

lemma IPv4AddrToByte_To4: "To4 p = Some q \<Longrightarrow> IPv4AddrToByte p = q"
  using To4_length by (simp add: IPv4AddrToByte_def)

lemma IPv6AddrToByte_To16: "To16 p = Some q \<Longrightarrow> IPv6AddrToByte p = q"
  using To16_length by (simp add: IPv6AddrToByte_def)

section \<open>Rendering\<close>

definition digit :: "nat \<Rightarrow> char" where
  "digit d = char_of (if d < 10 then 48 + d else 87 + d)"

fun show_base :: "nat \<Rightarrow> nat \<Rightarrow> string" where
  "show_base b n = (if n < b \<or> b < 2 then [digit n] else show_base b (n div b) @ [digit (n mod b)])"

declare show_base.simps [simp del]

definition itoa :: "int \<Rightarrow> string" where
  "itoa i = (if i < 0 then CHR ''-'' # show_base 10 (nat (- i)) else show_base 10 (nat i))"

fun join :: "string \<Rightarrow> string list \<Rightarrow> string" where
  "join sep [] = []"
| "join sep [x] = x"
| "join sep (x # y # ys) = x @ sep @ join sep (y # ys)"

fun groups16 :: "bytes \<Rightarrow> nat list" where
  "groups16 (a # b # r) = (unat a * 256 + unat b) # groups16 r"
| "groups16 _ = []"

text \<open>The first of the longest runs of zero groups: its start and its end.\<close>

fun zero_run :: "nat \<Rightarrow> nat list \<Rightarrow> nat \<times> nat \<Rightarrow> nat \<times> nat" where
  "zero_run i [] best = best"
| "zero_run i (g # gs) best =
     (let n = length (takeWhile (\<lambda>x. x = 0) (g # gs))
      in zero_run (Suc i) gs (if snd best - fst best < n then (i, i + n) else best))"

definition ip6_string :: "bytes \<Rightarrow> string" where
  "ip6_string p =
     (let gs = groups16 p; (e0, e1) = zero_run 0 gs (0, 0); s = map (show_base 16) gs
      in if e1 - e0 \<le> 1 then join '':'' s
         else join '':'' (take e0 s) @ ''::'' @ join '':'' (drop e1 s))"

definition ip_string :: "ip \<Rightarrow> string" where
  "ip_string p =
     (if p = [] then ''<nil>''
      else case To4 p of
        Some q \<Rightarrow> join ''.'' (map (\<lambda>b. show_base 10 (unat b)) q)
      | None \<Rightarrow> if length p = 16 then ip6_string p
                else CHR ''?'' # concat (map (\<lambda>b. [digit (unat b div 16), digit (unat b mod 16)]) p))"

section \<open>net.UDPAddr\<close>

record udp_addr =
  ua_IP :: ip
  ua_Port :: int
  ua_Zone :: string

definition mk_addr :: "ip \<Rightarrow> int \<Rightarrow> udp_addr" where
  "mk_addr p n = \<lparr>ua_IP = p, ua_Port = n, ua_Zone = []\<rparr>"

lemma mk_addr_simps [simp]:
  "ua_IP (mk_addr p n) = p" "ua_Port (mk_addr p n) = n" "ua_Zone (mk_addr p n) = []"
  by (simp_all add: mk_addr_def)

definition JoinHostPort :: "string \<Rightarrow> string \<Rightarrow> string" where
  "JoinHostPort host port =
     (if CHR '':'' \<in> set host then ''['' @ host @ '']:'' @ port else host @ '':'' @ port)"

definition udp_string :: "udp_addr \<Rightarrow> string" where
  "udp_string a =
     (let h = (if ua_IP a = [] then [] else ip_string (ua_IP a))
      in JoinHostPort (if ua_Zone a = [] then h else h @ ''%'' @ ua_Zone a) (itoa (ua_Port a)))"

text \<open>
  The 4-byte form and the 16-byte form of an IPv4 address have the same text, so a table keyed
  by \<open>String\<close> does not distinguish them.
\<close>

lemma ip_string_To4:
  assumes "To4 p = Some q"
  shows "ip_string p = ip_string q"
proof -
  have "length q = 4" using assms by (rule To4_length)
  moreover have "p \<noteq> []" using assms by (auto simp: To4_def)
  moreover have "q \<noteq> []" using \<open>length q = 4\<close> by auto
  ultimately show ?thesis using assms by (simp add: ip_string_def)
qed

lemma udp_string_To4:
  assumes "To4 p = Some q"
  shows "udp_string \<lparr>ua_IP = p, ua_Port = n, ua_Zone = z\<rparr> = udp_string \<lparr>ua_IP = q, ua_Port = n, ua_Zone = z\<rparr>"
proof -
  have "p \<noteq> []" using assms by (auto simp: To4_def)
  moreover have "q \<noteq> []" using To4_length [OF assms] by auto
  ultimately show ?thesis by (simp add: udp_string_def Let_def ip_string_To4 [OF assms])
qed

end
