(* ===== verification/Wire.thy ===== *)
theory Wire
  imports Struc Address
begin

text \<open>
  The wire formats of \<open>proto/wire.go\<close>. Every header is a record; its layout lists the \<open>struc\<close>
  tags in the order of the fields, \<open>X_vals\<close> gives the field values \<open>Pack\<close> sees and \<open>X_of\<close> the
  struct \<open>Unpack\<close> fills. The IPv6 variants have the fields of the IPv4 ones with 16-byte
  addresses, so they share the record and differ in the layout. A length field with
  \<open>sizeof=X\<close> is written and read by the library from the slice it sizes; the program never reads
  it, so the records leave it out.
\<close>

section \<open>Command bytes\<close>

abbreviation CommandByte_Send :: byte where "CommandByte_Send \<equiv> 1"
abbreviation CommandByte_SendV6 :: byte where "CommandByte_SendV6 \<equiv> 2"
abbreviation CommandByte_Associate :: byte where "CommandByte_Associate \<equiv> 3"
abbreviation CommandByte_AssociateV6 :: byte where "CommandByte_AssociateV6 \<equiv> 4"
abbreviation CommandByte_AssociateDone :: byte where "CommandByte_AssociateDone \<equiv> 5"
abbreviation CommandByte_AssociateDoneV6 :: byte where "CommandByte_AssociateDoneV6 \<equiv> 6"
abbreviation CommandByte_ChannelDestroy :: byte where "CommandByte_ChannelDestroy \<equiv> 7"
abbreviation CommandByte_Ping :: byte where "CommandByte_Ping \<equiv> 8"
abbreviation CommandByte_Pong :: byte where "CommandByte_Pong \<equiv> 9"

abbreviation CommandByte_Stream_ConnectDomain :: byte where "CommandByte_Stream_ConnectDomain \<equiv> 3"

section \<open>Headers\<close>

text \<open>Reading a field back as a machine word or as bytes.\<close>

fun get_word :: "fval \<Rightarrow> 'a::len word" where
  "get_word (V_int i) = word_of_int i"
| "get_word (V_bytes _) = 0"

fun get_bytes :: "fval \<Rightarrow> bytes" where
  "get_bytes (V_bytes b) = b"
| "get_bytes (V_int _) = []"

definition uval :: "'a::len word \<Rightarrow> fval" where
  "uval w = V_int (uint w)"

definition sval :: "'a::len word \<Rightarrow> fval" where
  "sval w = V_int (sint w)"

lemma get_word_uval [simp]: "get_word (uval w) = w"
  by (simp add: uval_def)

lemma get_word_sval [simp]: "get_word (sval w) = w"
  by (simp add: sval_def)

lemma uval_ok [simp]:
  "fval_ok (F_uint (Suc 0)) (uval (a :: 8 word))"
  "fval_ok (F_uint 2) (uval (b :: 16 word))"
  "fval_ok (F_uint 4) (uval (c :: 32 word))"
  "fval_ok (F_uint 8) (uval (d :: 64 word))"
  using uint_lt2p [of a] uint_lt2p [of b] uint_lt2p [of c] uint_lt2p [of d]
  by (simp_all add: uval_def)

lemma sval_ok [simp]:
  "fval_ok (F_int 2) (sval (b :: 16 word))"
  "fval_ok (F_int 4) (sval (c :: 32 word))"
  "fval_ok (F_int 8) (sval (d :: 64 word))"
  using sint_greater_eq [of b] sint_less [of b] sint_greater_eq [of c] sint_less [of c]
    sint_greater_eq [of d] sint_less [of d]
  by (simp_all add: sval_def)

lemma field_size_uval [simp]: "field_size (F_uint n) v = n" "field_size (F_int n) v = n"
  by simp_all

subsection \<open>CommandHeader, DataHeader, AssociateChannelDestroy, StreamConnectDomainHeaderLen\<close>

definition CommandHeader_layout :: layout where
  "CommandHeader_layout = [F_uint 1]"

definition CommandHeader_vals :: "byte \<Rightarrow> fval list" where
  "CommandHeader_vals c = [uval c]"

definition CommandHeader_of :: "fval list \<Rightarrow> byte" where
  "CommandHeader_of vs = get_word (vs ! 0)"

text \<open>The one-word headers with a \<open>uint16\<close>: the channel, or the length of a dial header.\<close>

definition DataHeader_layout :: layout where
  "DataHeader_layout = [F_uint 2]"

definition DataHeader_vals :: "u16 \<Rightarrow> fval list" where
  "DataHeader_vals c = [uval c]"

definition DataHeader_of :: "fval list \<Rightarrow> u16" where
  "DataHeader_of vs = get_word (vs ! 0)"

definition AssociateChannelDestroy_layout :: layout where
  "AssociateChannelDestroy_layout = [F_uint 2]"

definition StreamConnectDomainHeaderLen_layout :: layout where
  "StreamConnectDomainHeaderLen_layout = [F_uint 2]"

subsection \<open>SendHeader, SendV6Header\<close>

record SendHeader =
  sh_SourceIP :: bytes
  sh_DestIP :: bytes
  sh_SourcePort :: u16
  sh_DestPort :: u16
  sh_Payload :: bytes

definition SendHeader_layout :: layout where
  "SendHeader_layout = [F_array 4, F_array 4, F_uint 2, F_uint 2, F_sized]"

definition SendV6Header_layout :: layout where
  "SendV6Header_layout = [F_array 16, F_array 16, F_uint 2, F_uint 2, F_sized]"

definition SendHeader_vals :: "SendHeader \<Rightarrow> fval list" where
  "SendHeader_vals h = [V_bytes (sh_SourceIP h), V_bytes (sh_DestIP h),
     uval (sh_SourcePort h), uval (sh_DestPort h), V_bytes (sh_Payload h)]"

definition SendHeader_of :: "fval list \<Rightarrow> SendHeader" where
  "SendHeader_of vs = \<lparr>sh_SourceIP = get_bytes (vs ! 0), sh_DestIP = get_bytes (vs ! 1),
     sh_SourcePort = get_word (vs ! 2), sh_DestPort = get_word (vs ! 3),
     sh_Payload = get_bytes (vs ! 4)\<rparr>"

subsection \<open>AssociateHeader, AssociateDoneHeader and their V6 variants\<close>

record AssociateHeader =
  ah_SourceIP :: bytes
  ah_DestIP :: bytes
  ah_SourcePort :: u16
  ah_DestPort :: u16
  ah_Channel :: u16

definition AssociateHeader_layout :: layout where
  "AssociateHeader_layout = [F_array 4, F_array 4, F_uint 2, F_uint 2, F_uint 2]"

definition AssociateV6Header_layout :: layout where
  "AssociateV6Header_layout = [F_array 16, F_array 16, F_uint 2, F_uint 2, F_uint 2]"

definition AssociateHeader_vals :: "AssociateHeader \<Rightarrow> fval list" where
  "AssociateHeader_vals h = [V_bytes (ah_SourceIP h), V_bytes (ah_DestIP h),
     uval (ah_SourcePort h), uval (ah_DestPort h), uval (ah_Channel h)]"

definition AssociateHeader_of :: "fval list \<Rightarrow> AssociateHeader" where
  "AssociateHeader_of vs = \<lparr>ah_SourceIP = get_bytes (vs ! 0), ah_DestIP = get_bytes (vs ! 1),
     ah_SourcePort = get_word (vs ! 2), ah_DestPort = get_word (vs ! 3),
     ah_Channel = get_word (vs ! 4)\<rparr>"

subsection \<open>StreamConnectDomainHeader\<close>

record StreamConnectDomainHeader =
  sc_DestDomain :: bytes
  sc_DestPort :: u16

definition StreamConnectDomainHeader_layout :: layout where
  "StreamConnectDomainHeader_layout = [F_sized, F_uint 2]"

definition StreamConnectDomainHeader_vals :: "StreamConnectDomainHeader \<Rightarrow> fval list" where
  "StreamConnectDomainHeader_vals h = [V_bytes (sc_DestDomain h), uval (sc_DestPort h)]"

definition StreamConnectDomainHeader_of :: "fval list \<Rightarrow> StreamConnectDomainHeader" where
  "StreamConnectDomainHeader_of vs =
     \<lparr>sc_DestDomain = get_bytes (vs ! 0), sc_DestPort = get_word (vs ! 1)\<rparr>"

subsection \<open>PingHeader, PongHeader\<close>

record PingHeader =
  pg_Seq :: u64
  pg_Seq2 :: u64
  pg_SentPacket :: u64
  pg_RecvPacket :: u64

definition PingHeader_layout :: layout where
  "PingHeader_layout = [F_uint 8, F_uint 8, F_uint 8, F_uint 8]"

definition PingHeader_vals :: "PingHeader \<Rightarrow> fval list" where
  "PingHeader_vals h = [uval (pg_Seq h), uval (pg_Seq2 h), uval (pg_SentPacket h), uval (pg_RecvPacket h)]"

definition PingHeader_of :: "fval list \<Rightarrow> PingHeader" where
  "PingHeader_of vs = \<lparr>pg_Seq = get_word (vs ! 0), pg_Seq2 = get_word (vs ! 1),
     pg_SentPacket = get_word (vs ! 2), pg_RecvPacket = get_word (vs ! 3)\<rparr>"

subsection \<open>HTTPLenHeader, HttpHeaderHolder\<close>

definition HTTPLenHeader_layout :: layout where
  "HTTPLenHeader_layout = [F_int 8]"

definition HTTPLenHeader_vals :: "u64 \<Rightarrow> fval list" where
  "HTTPLenHeader_vals l = [sval l]"

definition HTTPLenHeader_of :: "fval list \<Rightarrow> u64" where
  "HTTPLenHeader_of vs = get_word (vs ! 0)"

record HttpHeaderHolder =
  hh_Masker :: u64
  hh_ConnID :: bytes
  hh_Rand :: bytes
  hh_Time :: u64
  hh_Flags :: u64
  hh_ConnIter :: u32

definition HttpHeaderHolder_layout :: layout where
  "HttpHeaderHolder_layout = [F_int 8, F_array 24, F_array 24, F_int 8, F_int 8, F_int 4]"

definition HttpHeaderHolder_vals :: "HttpHeaderHolder \<Rightarrow> fval list" where
  "HttpHeaderHolder_vals h = [sval (hh_Masker h), V_bytes (hh_ConnID h), V_bytes (hh_Rand h),
     sval (hh_Time h), sval (hh_Flags h), sval (hh_ConnIter h)]"

definition HttpHeaderHolder_of :: "fval list \<Rightarrow> HttpHeaderHolder" where
  "HttpHeaderHolder_of vs = \<lparr>hh_Masker = get_word (vs ! 0), hh_ConnID = get_bytes (vs ! 1),
     hh_Rand = get_bytes (vs ! 2), hh_Time = get_word (vs ! 3), hh_Flags = get_word (vs ! 4),
     hh_ConnIter = get_word (vs ! 5)\<rparr>"

abbreviation HttpHeaderFlag_BoostConnection :: u64 where
  "HttpHeaderFlag_BoostConnection \<equiv> 1"
abbreviation HttpHeaderFlag_WebsocketConnection :: u64 where
  "HttpHeaderFlag_WebsocketConnection \<equiv> 2"
abbreviation HttpHeaderFlag_AlternativeChannelConnection :: u64 where
  "HttpHeaderFlag_AlternativeChannelConnection \<equiv> 4"

section \<open>Layout facts\<close>

lemmas layout_defs =
  CommandHeader_layout_def DataHeader_layout_def AssociateChannelDestroy_layout_def
  StreamConnectDomainHeaderLen_layout_def SendHeader_layout_def SendV6Header_layout_def
  AssociateHeader_layout_def AssociateV6Header_layout_def StreamConnectDomainHeader_layout_def
  PingHeader_layout_def HTTPLenHeader_layout_def HttpHeaderHolder_layout_def

lemmas vals_defs =
  CommandHeader_vals_def DataHeader_vals_def SendHeader_vals_def AssociateHeader_vals_def
  StreamConnectDomainHeader_vals_def PingHeader_vals_def HTTPLenHeader_vals_def
  HttpHeaderHolder_vals_def

lemmas of_defs =
  CommandHeader_of_def DataHeader_of_def SendHeader_of_def AssociateHeader_of_def
  StreamConnectDomainHeader_of_def PingHeader_of_def HTTPLenHeader_of_def HttpHeaderHolder_of_def

text \<open>The struct read back from the values of a struct is that struct.\<close>

lemma header_of_vals [simp]:
  "CommandHeader_of (CommandHeader_vals c) = c"
  "DataHeader_of (DataHeader_vals d) = d"
  "SendHeader_of (SendHeader_vals s) = s"
  "AssociateHeader_of (AssociateHeader_vals a) = a"
  "StreamConnectDomainHeader_of (StreamConnectDomainHeader_vals t) = t"
  "PingHeader_of (PingHeader_vals p) = p"
  "HTTPLenHeader_of (HTTPLenHeader_vals l) = l"
  "HttpHeaderHolder_of (HttpHeaderHolder_vals h) = h"
  by (simp_all add: vals_defs of_defs)

text \<open>When the values of a struct have the tagged types.\<close>

lemma header_vals_ok [simp]:
  "vals_ok CommandHeader_layout (CommandHeader_vals c)"
  "vals_ok DataHeader_layout (DataHeader_vals d)"
  "vals_ok AssociateChannelDestroy_layout (DataHeader_vals d)"
  "vals_ok StreamConnectDomainHeaderLen_layout (DataHeader_vals d)"
  "vals_ok PingHeader_layout (PingHeader_vals p)"
  "vals_ok HTTPLenHeader_layout (HTTPLenHeader_vals l)"
  "vals_ok SendHeader_layout (SendHeader_vals s) \<longleftrightarrow>
     length (sh_SourceIP s) = 4 \<and> length (sh_DestIP s) = 4 \<and> length (sh_Payload s) < 65536"
  "vals_ok SendV6Header_layout (SendHeader_vals s) \<longleftrightarrow>
     length (sh_SourceIP s) = 16 \<and> length (sh_DestIP s) = 16 \<and> length (sh_Payload s) < 65536"
  "vals_ok AssociateHeader_layout (AssociateHeader_vals a) \<longleftrightarrow>
     length (ah_SourceIP a) = 4 \<and> length (ah_DestIP a) = 4"
  "vals_ok AssociateV6Header_layout (AssociateHeader_vals a) \<longleftrightarrow>
     length (ah_SourceIP a) = 16 \<and> length (ah_DestIP a) = 16"
  "vals_ok StreamConnectDomainHeader_layout (StreamConnectDomainHeader_vals t) \<longleftrightarrow>
     length (sc_DestDomain t) < 65536"
  "vals_ok HttpHeaderHolder_layout (HttpHeaderHolder_vals h) \<longleftrightarrow>
     length (hh_ConnID h) = 24 \<and> length (hh_Rand h) = 24"
  by (simp_all add: layout_defs vals_defs del: fval_ok.simps(1,2))

text \<open>The number of bytes each header takes.\<close>

lemma header_sizes [simp]:
  "packed_size CommandHeader_layout (CommandHeader_vals c) = 1"
  "packed_size DataHeader_layout (DataHeader_vals d) = 2"
  "packed_size StreamConnectDomainHeaderLen_layout (DataHeader_vals d) = 2"
  "packed_size SendHeader_layout (SendHeader_vals s) = 14 + length (sh_Payload s)"
  "packed_size StreamConnectDomainHeader_layout (StreamConnectDomainHeader_vals t) =
     4 + length (sc_DestDomain t)"
  "packed_size HTTPLenHeader_layout (HTTPLenHeader_vals l) = 8"
  "packed_size HttpHeaderHolder_layout (HttpHeaderHolder_vals h) = 76"
  by (simp_all add: layout_defs vals_defs)

end
