(* ===== verification/ChannelNumbers.thy ===== *)
theory ChannelNumbers
  imports Prelude
begin

text \<open>
  The allocator of channel numbers, \<open>workers/channelNumberFinder/channelNumberFinder.go\<close>. The
  interface \<open>IsChannelExist\<close> it asks about numbers in use is the argument \<open>used\<close>. The recursion
  of \<open>findNextRaw\<close> through \<open>organise\<close> need not end for every mask, so it is a function into
  \<open>option\<close>; \<open>findNextRaw_returns\<close> shows for which masks it returns.

  The locale \<open>number_allocator\<close> states what a user of the allocator relies on; the
  interpretation \<open>cnf\<close> provides it from the code with the masks the UDP server passes.
\<close>

section \<open>The code\<close>

record ChannelNumberFinder =
  LastAllocatedNumber :: u16
  DirectionIsDescending :: bool
  Mask :: u16
  OutMask :: u16

definition NewChannelNumberFinder :: "u16 \<Rightarrow> u16 \<Rightarrow> ChannelNumberFinder" where
  "NewChannelNumberFinder m out =
     \<lparr>LastAllocatedNumber = 0, DirectionIsDescending = False, Mask = m, OutMask = out\<rparr>"

text \<open>
  The scanning loop of \<open>organise\<close>: \<open>s\<close> is \<open>Scanning\<close>, the loop stops before \<open>limit\<close>, the results
  are the largest and the smallest number in use it met.
\<close>

function organise_scan :: "(u16 \<Rightarrow> bool) \<Rightarrow> u16 \<Rightarrow> u16 \<Rightarrow> u16 \<Rightarrow> u16 \<Rightarrow> u16 \<Rightarrow> u16 \<times> u16" where
  "organise_scan used outmask limit s mx mn =
     (if s + 1 = limit then (mx, mn)
      else if used ((s + 1) OR outmask)
           then organise_scan used outmask limit (s + 1)
                  (if mx < s + 1 then s + 1 else mx) (if s + 1 < mn then s + 1 else mn)
           else organise_scan used outmask limit (s + 1) mx mn)"
  by pat_completeness auto

lemma word_dist_decreases:
  fixes s limit :: u16
  assumes "s + 1 \<noteq> limit"
  shows "unat (limit - 1 - (s + 1)) < unat (limit - 1 - s)"
proof -
  have ne: "limit - 1 - s \<noteq> 0" using assms by (auto simp: algebra_simps)
  have eq: "limit - 1 - (s + 1) = (limit - 1 - s) - 1" by simp
  have "unat (limit - 1 - s) \<noteq> 0" using ne by (simp add: unat_eq_0)
  then show ?thesis
    unfolding eq unat_minus_one [OF ne] by simp
qed

termination organise_scan
  by (relation "measure (\<lambda>(used, outmask, limit, s, mx, mn). unat (limit - 1 - s))")
     (use word_dist_decreases in auto)

declare organise_scan.simps [simp del]

definition organise :: "(u16 \<Rightarrow> bool) \<Rightarrow> ChannelNumberFinder \<Rightarrow> ChannelNumberFinder" where
  "organise used cnf =
     (let (mx, mn) = organise_scan used (OutMask cnf) (0xffff XOR Mask cnf) 0 0 (NOT (Mask cnf));
          desc = (\<not> DirectionIsDescending cnf)
      in cnf\<lparr>DirectionIsDescending := desc, LastAllocatedNumber := (if desc then mn else mx)\<rparr>)"

partial_function (option) findNextRaw ::
  "(u16 \<Rightarrow> bool) \<Rightarrow> ChannelNumberFinder \<Rightarrow> (u16 \<times> ChannelNumberFinder) option" where
  "findNextRaw used cnf =
     (if DirectionIsDescending cnf
      then (if LastAllocatedNumber cnf = 2 then findNextRaw used (organise used cnf)
            else Some (LastAllocatedNumber cnf - 1,
                       cnf\<lparr>LastAllocatedNumber := LastAllocatedNumber cnf - 1\<rparr>))
      else (if LastAllocatedNumber cnf OR Mask cnf = 0xffff then findNextRaw used (organise used cnf)
            else Some (LastAllocatedNumber cnf + 1,
                       cnf\<lparr>LastAllocatedNumber := LastAllocatedNumber cnf + 1\<rparr>)))"

definition FindNext ::
  "(u16 \<Rightarrow> bool) \<Rightarrow> ChannelNumberFinder \<Rightarrow> (u16 \<times> ChannelNumberFinder) option" where
  "FindNext used cnf =
     (case findNextRaw used cnf of
        None \<Rightarrow> None
      | Some (result, cnf') \<Rightarrow> Some (result OR OutMask cnf', cnf'))"

section \<open>The scan\<close>

lemma word_add_one_le: "(s::u16) < t \<Longrightarrow> s + 1 \<le> t"
  by (simp add: inc_le)

lemma word_lt_add_one: "(s::u16) < t \<Longrightarrow> s < s + 1"
  by unat_arith

text \<open>
  Before \<open>limit\<close> the scan meets every number from \<open>s + 1\<close> on: the maximum is the largest one in
  use among them, or the value it started with, and dually for the minimum.
\<close>

lemma organise_scan_bounds:
  assumes "organise_scan used outmask limit s mx mn = (mx', mn')" and "s < limit"
  shows "mx \<le> mx' \<and> mn' \<le> mn
       \<and> (\<forall>k. s < k \<and> k < limit \<and> used (k OR outmask) \<longrightarrow> mn' \<le> k \<and> k \<le> mx')
       \<and> (mx' = mx \<or> (s < mx' \<and> mx' < limit \<and> used (mx' OR outmask)))
       \<and> (mn' = mn \<or> (s < mn' \<and> mn' < limit \<and> used (mn' OR outmask)))"
  using assms
proof (induction used outmask limit s mx mn rule: organise_scan.induct)
  case (1 used outmask limit s mx mn)
  show ?case
  proof (cases "s + 1 = limit")
    case True
    with "1.prems" show ?thesis
      by (auto simp: organise_scan.simps [of used outmask limit s] dest: word_add_one_le leD)
  next
    case False
    have lt: "s < s + 1" "s + 1 < limit"
      using "1.prems"(2) False word_add_one_le [of s limit] word_lt_add_one [of s limit]
      by (auto simp: le_less)
    have split: "s < k \<Longrightarrow> k = s + 1 \<or> s + 1 < k" for k
      using word_add_one_le [of s k] by (auto simp: le_less)
    show ?thesis
    proof (cases "used ((s + 1) OR outmask)")
      case True
      define m n where "m = max mx (s + 1)" and "n = min mn (s + 1)"
      have mn_eq: "(if mx < s + 1 then s + 1 else mx) = m" "(if s + 1 < mn then s + 1 else mn) = n"
        by (auto simp: m_def n_def max_def min_def)
      have "organise_scan used outmask limit (s + 1) m n = (mx', mn')"
        using "1.prems"(1) False True mn_eq by (simp add: organise_scan.simps [of used outmask limit s])
      note IH = "1.IH"(1) [OF False True, unfolded mn_eq, OF this lt(2)]
      have m: "mx \<le> m" "s + 1 \<le> m" "m = mx \<or> m = s + 1" by (auto simp: m_def max_def)
      have n: "n \<le> mn" "n \<le> s + 1" "n = mn \<or> n = s + 1" by (auto simp: n_def min_def)
      have "mn' \<le> k \<and> k \<le> mx'" if "s < k" "k < limit" "used (k OR outmask)" for k
        using split [OF that(1)] that IH m(2) n(2) by (auto intro: order.trans)
      moreover have "mx' = mx \<or> (s < mx' \<and> mx' < limit \<and> used (mx' OR outmask))"
        using IH m(3) lt True by (auto intro: order.strict_trans)
      moreover have "mn' = mn \<or> (s < mn' \<and> mn' < limit \<and> used (mn' OR outmask))"
        using IH n(3) lt True by (auto intro: order.strict_trans)
      moreover have "mx \<le> mx'" "mn' \<le> mn"
        using IH m(1) n(1) by (auto intro: order.trans)
      ultimately show ?thesis by blast
    next
      case notused: False
      have "organise_scan used outmask limit (s + 1) mx mn = (mx', mn')"
        using "1.prems"(1) False notused by (simp add: organise_scan.simps [of used outmask limit s])
      from "1.IH"(2) [OF False notused this lt(2)] split lt notused show ?thesis
        by (auto intro: order.strict_trans)
    qed
  qed
qed

lemma ffff_minus_one: "(0xffff::u16) = - 1"
  by simp

lemma xor_ffff: "0xffff XOR (m::u16) = NOT m"
  unfolding ffff_minus_one xor.commute [of "- 1" m] by (rule bit.xor_one_right)

lemma not_zero_iff: "NOT (m::u16) = 0 \<longleftrightarrow> m = 0xffff"
  unfolding ffff_minus_one by (metis bit.double_compl bit.compl_zero)

lemma organise_result:
  assumes "Mask cnf \<noteq> 0xffff"
  obtains mx mn where
    "organise used cnf = cnf\<lparr>DirectionIsDescending := \<not> DirectionIsDescending cnf,
       LastAllocatedNumber := (if DirectionIsDescending cnf then mx else mn)\<rparr>"
    "mx < NOT (Mask cnf)" "mn \<le> NOT (Mask cnf)"
    "\<And>k. 0 < k \<Longrightarrow> k < NOT (Mask cnf) \<Longrightarrow> used (k OR OutMask cnf) \<Longrightarrow> mn \<le> k \<and> k \<le> mx"
    "mx = 0 \<or> used (mx OR OutMask cnf)"
    "mn = NOT (Mask cnf) \<or> 0 < mn \<and> used (mn OR OutMask cnf)"
proof -
  obtain mx mn where scan:
    "organise_scan used (OutMask cnf) (NOT (Mask cnf)) 0 0 (NOT (Mask cnf)) = (mx, mn)"
    by (cases "organise_scan used (OutMask cnf) (NOT (Mask cnf)) 0 0 (NOT (Mask cnf))")
  have pos: "0 < NOT (Mask cnf)"
    using assms not_zero_iff [of "Mask cnf"] by (simp add: word_neq_0_conv [symmetric])
  show thesis
    by (rule that [of mx mn])
       (use organise_scan_bounds [OF scan pos] pos scan in \<open>auto simp: organise_def xor_ffff\<close>)
qed

lemma organise_simps [simp]:
  "Mask (organise used cnf) = Mask cnf" "OutMask (organise used cnf) = OutMask cnf"
  "DirectionIsDescending (organise used cnf) = (\<not> DirectionIsDescending cnf)"
  by (simp_all add: organise_def Let_def split: prod.split)

text \<open>A number below the limit leaves room above it: the ascending branch then returns.\<close>

lemma or_mask_below_limit: "(x::u16) < NOT m \<Longrightarrow> x OR m \<noteq> 0xffff"
proof
  assume lt: "x < NOT m" and eq: "x OR m = 0xffff"
  have "NOT m = (x OR m) AND NOT m" unfolding eq ffff_minus_one by simp
  also have "\<dots> = x AND NOT m" by (simp add: bit.conj_disj_distrib2)
  finally have "NOT m \<le> x" by (metis word_and_le2)
  with lt show False by simp
qed

section \<open>What a call returns\<close>

lemma findNextRaw_descending:
  "DirectionIsDescending cnf \<Longrightarrow> LastAllocatedNumber cnf \<noteq> 2 \<Longrightarrow>
   findNextRaw used cnf = Some (LastAllocatedNumber cnf - 1,
     cnf\<lparr>LastAllocatedNumber := LastAllocatedNumber cnf - 1\<rparr>)"
  by (subst findNextRaw.simps) simp

lemma findNextRaw_ascending:
  "\<not> DirectionIsDescending cnf \<Longrightarrow> LastAllocatedNumber cnf OR Mask cnf \<noteq> 0xffff \<Longrightarrow>
   findNextRaw used cnf = Some (LastAllocatedNumber cnf + 1,
     cnf\<lparr>LastAllocatedNumber := LastAllocatedNumber cnf + 1\<rparr>)"
  by (subst findNextRaw.simps) simp

lemma findNextRaw_turn_up:
  "DirectionIsDescending cnf \<Longrightarrow> LastAllocatedNumber cnf = 2 \<Longrightarrow>
   findNextRaw used cnf = findNextRaw used (organise used cnf)"
  by (subst findNextRaw.simps) simp

lemma findNextRaw_turn_down:
  "\<not> DirectionIsDescending cnf \<Longrightarrow> LastAllocatedNumber cnf OR Mask cnf = 0xffff \<Longrightarrow>
   findNextRaw used cnf = findNextRaw used (organise used cnf)"
  by (subst findNextRaw.simps) simp

lemma findNextRaw_after_turn_up:
  assumes "DirectionIsDescending cnf" "Mask cnf \<noteq> 0xffff"
  shows "LastAllocatedNumber (organise used cnf) OR Mask cnf \<noteq> 0xffff"
  using assms(2)
  by (rule organise_result [where used = used]) (use assms or_mask_below_limit in auto)

lemma findNextRaw_descending_returns:
  assumes "DirectionIsDescending cnf" "Mask cnf \<noteq> 0xffff"
  shows "\<exists>r. findNextRaw used cnf = Some r"
proof (cases "LastAllocatedNumber cnf = 2")
  case True
  with assms findNextRaw_after_turn_up [OF assms, of used] show ?thesis
    by (simp add: findNextRaw_turn_up findNextRaw_ascending)
next
  case False
  with assms show ?thesis by (simp add: findNextRaw_descending)
qed

lemma findNextRaw_returns:
  assumes "Mask cnf \<noteq> 0xffff"
  shows "\<exists>r. findNextRaw used cnf = Some r"
proof (cases "DirectionIsDescending cnf \<or> LastAllocatedNumber cnf OR Mask cnf \<noteq> 0xffff")
  case True
  with assms findNextRaw_descending_returns show ?thesis
    by (cases "DirectionIsDescending cnf") (auto simp: findNextRaw_ascending)
next
  case False
  with assms findNextRaw_descending_returns [of "organise used cnf" used] show ?thesis
    by (simp add: findNextRaw_turn_down)
qed

section \<open>Freshness\<close>

text \<open>
  The finder's state agrees with the numbers in use: going up, nothing above the last number is
  in use; going down, nothing between 0 and the last number is. The masks are the server's.
\<close>

definition cnf_inv :: "(u16 \<Rightarrow> bool) \<Rightarrow> ChannelNumberFinder \<Rightarrow> bool" where
  "cnf_inv used cnf \<longleftrightarrow>
     Mask cnf = 0 \<and> OutMask cnf = 0 \<and>
     (if DirectionIsDescending cnf
      then 2 \<le> LastAllocatedNumber cnf \<and> (\<forall>k. 0 < k \<and> k < LastAllocatedNumber cnf \<longrightarrow> \<not> used k)
      else (\<forall>k. LastAllocatedNumber cnf < k \<longrightarrow> \<not> used k))"

text \<open>At a turning point the numbers 1 and 0xffff, which the scan cannot serve, are free.\<close>

definition turn_ok :: "(u16 \<Rightarrow> bool) \<Rightarrow> ChannelNumberFinder \<Rightarrow> bool" where
  "turn_ok used cnf \<longleftrightarrow>
     (if DirectionIsDescending cnf then LastAllocatedNumber cnf = 2 \<longrightarrow> \<not> used 0xffff
      else LastAllocatedNumber cnf = 0xffff \<longrightarrow> \<not> used 1 \<and> \<not> used 0xffff)"

lemma word16_le_ffff: "(k::u16) \<le> 0xffff"
  unfolding ffff_minus_one by (rule word_n1_ge)

lemma organise_up_inv:
  assumes "cnf_inv used cnf" "DirectionIsDescending cnf" "\<not> used 0xffff"
  shows "cnf_inv used (organise used cnf)"
proof (rule organise_result [of cnf used])
  show "Mask cnf \<noteq> 0xffff" using assms by (simp add: cnf_inv_def)
next
  fix mx mn
  assume o: "organise used cnf = cnf\<lparr>DirectionIsDescending := \<not> DirectionIsDescending cnf,
       LastAllocatedNumber := (if DirectionIsDescending cnf then mx else mn)\<rparr>"
    and b: "\<And>k. 0 < k \<Longrightarrow> k < NOT (Mask cnf) \<Longrightarrow> used (k OR OutMask cnf) \<Longrightarrow> mn \<le> k \<and> k \<le> mx"
  have "\<not> used k" if "mx < k" for k
  proof (cases "k = 0xffff")
    case False
    with word16_le_ffff [of k] have "k < NOT 0" unfolding ffff_minus_one by (simp add: le_less)
    moreover have "0 < k" using that by (rule le_less_trans [OF word_zero_le])
    ultimately show ?thesis using b [of k] that assms by (auto simp: cnf_inv_def dest: leD)
  qed (use assms in simp)
  with assms o show ?thesis by (simp add: cnf_inv_def)
qed

lemma organise_down_inv:
  assumes "cnf_inv used cnf" "\<not> DirectionIsDescending cnf" "\<not> used 1"
  shows "cnf_inv used (organise used cnf)"
proof (rule organise_result [of cnf used])
  show "Mask cnf \<noteq> 0xffff" using assms by (simp add: cnf_inv_def)
next
  fix mx mn
  assume o: "organise used cnf = cnf\<lparr>DirectionIsDescending := \<not> DirectionIsDescending cnf,
       LastAllocatedNumber := (if DirectionIsDescending cnf then mx else mn)\<rparr>"
    and le: "mn \<le> NOT (Mask cnf)"
    and b: "\<And>k. 0 < k \<Longrightarrow> k < NOT (Mask cnf) \<Longrightarrow> used (k OR OutMask cnf) \<Longrightarrow> mn \<le> k \<and> k \<le> mx"
    and mn: "mn = NOT (Mask cnf) \<or> 0 < mn \<and> used (mn OR OutMask cnf)"
  have m: "Mask cnf = 0" "OutMask cnf = 0" using assms by (auto simp: cnf_inv_def)
  have "\<not> used k" if "0 < k" "k < mn" for k
    using b [of k] that le m by (auto dest: leD order.strict_trans2)
  moreover have "mn \<noteq> 0" "mn \<noteq> 1" using mn m assms by auto
  then have "2 \<le> mn" by unat_arith
  ultimately show ?thesis using assms o m by (simp add: cnf_inv_def)
qed

lemma FindNext_plain: "OutMask cnf = 0 \<Longrightarrow> findNextRaw used cnf = Some (n, cnf') \<Longrightarrow> OutMask cnf' = 0 \<Longrightarrow>
   FindNext used cnf = Some (n, cnf')"
  by (simp add: FindNext_def)

lemma findNextRaw_down_fresh:
  assumes "cnf_inv used cnf" "DirectionIsDescending cnf" "LastAllocatedNumber cnf \<noteq> 2"
  shows "\<exists>n cnf'. FindNext used cnf = Some (n, cnf') \<and> n \<noteq> 0 \<and> \<not> used n \<and> cnf_inv (used(n := True)) cnf'"
proof -
  let ?n = "LastAllocatedNumber cnf - 1"
  have l: "2 \<le> LastAllocatedNumber cnf" using assms by (simp add: cnf_inv_def)
  with assms(3) have b: "2 \<le> ?n" "?n < LastAllocatedNumber cnf" by unat_arith+
  then have "0 < ?n" by unat_arith
  with b assms have "\<not> used ?n" by (simp add: cnf_inv_def)
  moreover have "cnf_inv (used(?n := True)) (cnf\<lparr>LastAllocatedNumber := ?n\<rparr>)"
    using assms b by (auto simp: cnf_inv_def)
  moreover have "?n \<noteq> 0" using \<open>0 < ?n\<close> by (metis less_irrefl)
  ultimately show ?thesis
    using assms by (auto simp: FindNext_def findNextRaw_descending cnf_inv_def)
qed

lemma findNextRaw_up_fresh:
  assumes "cnf_inv used cnf" "\<not> DirectionIsDescending cnf" "LastAllocatedNumber cnf \<noteq> 0xffff"
  shows "\<exists>n cnf'. FindNext used cnf = Some (n, cnf') \<and> n \<noteq> 0 \<and> \<not> used n \<and> cnf_inv (used(n := True)) cnf'"
proof -
  let ?n = "LastAllocatedNumber cnf + 1"
  have "LastAllocatedNumber cnf < 0xffff" using assms(3) word16_le_ffff [of "LastAllocatedNumber cnf"] by (simp add: le_less)
  then have b1: "LastAllocatedNumber cnf < ?n" by (rule word_lt_add_one)
  then have b: "LastAllocatedNumber cnf < ?n" "?n \<noteq> 0" by (simp, metis word_not_simps(1))
  with assms have "\<not> used ?n" by (simp add: cnf_inv_def)
  moreover have "cnf_inv (used(?n := True)) (cnf\<lparr>LastAllocatedNumber := ?n\<rparr>)"
    using assms b by (auto simp: cnf_inv_def intro: order.strict_trans)
  ultimately show ?thesis
    using assms b by (auto simp: FindNext_def findNextRaw_ascending cnf_inv_def)
qed

lemma FindNext_turn:
  "findNextRaw used cnf = findNextRaw used (organise used cnf) \<Longrightarrow>
   FindNext used cnf = FindNext used (organise used cnf)"
  by (simp add: FindNext_def)

lemma FindNext_fresh_down:
  assumes "cnf_inv used cnf" "DirectionIsDescending cnf"
    and "LastAllocatedNumber cnf = 2 \<Longrightarrow> \<not> used 0xffff"
  shows "\<exists>n cnf'. FindNext used cnf = Some (n, cnf') \<and> n \<noteq> 0 \<and> \<not> used n \<and> cnf_inv (used(n := True)) cnf'"
proof (cases "LastAllocatedNumber cnf = 2")
  case True
  have "cnf_inv used (organise used cnf)" using assms True organise_up_inv by blast
  moreover have "LastAllocatedNumber (organise used cnf) \<noteq> 0xffff"
    using findNextRaw_after_turn_up [OF assms(2), of used] assms(1) by (simp add: cnf_inv_def)
  ultimately show ?thesis
    using findNextRaw_up_fresh [of used "organise used cnf"] assms True
    by (simp add: FindNext_turn findNextRaw_turn_up)
qed (use findNextRaw_down_fresh assms in blast)

lemma FindNext_fresh_nonzero:
  assumes "cnf_inv used cnf" "turn_ok used cnf"
  shows "\<exists>n cnf'. FindNext used cnf = Some (n, cnf') \<and> n \<noteq> 0 \<and> \<not> used n \<and> cnf_inv (used(n := True)) cnf'"
proof (cases "DirectionIsDescending cnf \<or> LastAllocatedNumber cnf \<noteq> 0xffff")
  case True
  with assms show ?thesis
    using FindNext_fresh_down [of used cnf] findNextRaw_up_fresh [of used cnf]
    by (auto simp: turn_ok_def)
next
  case False
  with assms have "cnf_inv used (organise used cnf)" "\<not> used 0xffff"
    using organise_down_inv by (auto simp: turn_ok_def)
  moreover have "FindNext used cnf = FindNext used (organise used cnf)"
    using False assms by (intro FindNext_turn findNextRaw_turn_down) (auto simp: cnf_inv_def)
  ultimately show ?thesis
    using FindNext_fresh_down [of used "organise used cnf"] False by simp
qed

lemma cnf_inv_free: "cnf_inv used cnf \<Longrightarrow> (\<And>k. used' k \<Longrightarrow> used k) \<Longrightarrow> cnf_inv used' cnf"
  by (auto simp: cnf_inv_def) blast+

lemma cnf_inv_new: "(\<And>k. \<not> used k) \<Longrightarrow> cnf_inv used (NewChannelNumberFinder 0 0)"
  by (simp add: cnf_inv_def NewChannelNumberFinder_def)

section \<open>The interface\<close>

text \<open>
  What a user of an allocator relies on: where the side condition holds the next number is
  not \<open>null\<close>, is not in use, and the state then agrees with the number being taken; giving
  numbers back never disturbs the state.
\<close>

fun allocate :: "(('n \<Rightarrow> bool) \<Rightarrow> 's \<Rightarrow> ('n \<times> 's) option) \<Rightarrow> nat \<Rightarrow> ('n \<Rightarrow> bool) \<Rightarrow> 's \<Rightarrow> 'n list option" where
  "allocate nxt 0 used s = Some []"
| "allocate nxt (Suc k) used s =
     (case nxt used s of
        None \<Rightarrow> None
      | Some (n, s') \<Rightarrow> map_option ((#) n) (allocate nxt k (used(n := True)) s'))"

locale number_allocator =
  fixes nxt :: "('n \<Rightarrow> bool) \<Rightarrow> 's \<Rightarrow> ('n \<times> 's) option"
    and inv ok :: "('n \<Rightarrow> bool) \<Rightarrow> 's \<Rightarrow> bool"
    and null :: 'n
  assumes next_fresh: "inv used s \<Longrightarrow> ok used s \<Longrightarrow>
      \<exists>n s'. nxt used s = Some (n, s') \<and> n \<noteq> null \<and> \<not> used n \<and> inv (used(n := True)) s'"
    and inv_free: "inv used s \<Longrightarrow> (\<And>k. used' k \<Longrightarrow> used k) \<Longrightarrow> inv used' s"
begin

lemma next_not_used: "inv used s \<Longrightarrow> ok used s \<Longrightarrow> nxt used s = Some (n, s') \<Longrightarrow> n \<noteq> null \<and> \<not> used n"
  using next_fresh by fastforce

lemma next_keeps_inv:
  "inv used s \<Longrightarrow> ok used s \<Longrightarrow> nxt used s = Some (n, s') \<Longrightarrow> inv (used(n := True)) s'"
  using next_fresh by fastforce

text \<open>
  Where the side condition always holds, any number of allocations in a row succeed with
  different numbers, none of them in use before.
\<close>

lemma allocate_distinct:
  assumes "inv used s" "\<And>used s. inv used s \<Longrightarrow> ok used s"
  shows "\<exists>ns. allocate nxt k used s = Some ns \<and> length ns = k \<and> distinct ns \<and>
              (\<forall>n \<in> set ns. n \<noteq> null \<and> \<not> used n)"
  using assms(1)
proof (induction k arbitrary: used s)
  case (Suc k)
  obtain n s' where n: "nxt used s = Some (n, s')" "n \<noteq> null" "\<not> used n" "inv (used(n := True)) s'"
    using next_fresh [OF Suc.prems assms(2) [OF Suc.prems]] by blast
  from Suc.IH [OF n(4)] obtain ns where
    "allocate nxt k (used(n := True)) s' = Some ns" "length ns = k" "distinct ns"
    "\<forall>m \<in> set ns. m \<noteq> null \<and> \<not> (used(n := True)) m" by blast
  moreover from this have "\<forall>m \<in> set ns. m \<noteq> n \<and> m \<noteq> null \<and> \<not> used m"
    by (metis fun_upd_apply)
  ultimately show ?case using n by (intro exI [of _ "n # ns"]) auto
qed simp

end

interpretation cnf: number_allocator FindNext cnf_inv turn_ok 0
  by unfold_locales (use FindNext_fresh_nonzero cnf_inv_free in blast)+

section \<open>Properties\<close>

text \<open>
  C35. \<open>FindNext\<close> always returns a channel number, whatever numbers are in use, unless the mask
  forbids every number: the mutual recursion of \<open>findNextRaw\<close> and \<open>organise\<close> ends.
\<close>

theorem FindNext_returns:
  assumes "Mask cnf \<noteq> 0xffff"
  shows "\<exists>n cnf'. FindNext used cnf = Some (n, cnf')"
  using findNextRaw_returns [OF assms, of used] by (auto simp: FindNext_def)

theorem FindNext_returns_witness:
  "Mask (NewChannelNumberFinder 0 0) \<noteq> 0xffff \<and>
   (\<exists>n cnf'. FindNext (\<lambda>k. k = 1) (NewChannelNumberFinder 0 0) = Some (n, cnf'))"
proof -
  have h: "Mask (NewChannelNumberFinder 0 0) \<noteq> 0xffff"
    by (simp add: NewChannelNumberFinder_def)
  then show ?thesis using FindNext_returns [OF h, of "\<lambda>k. k = 1"] by simp
qed



text \<open>
  The side condition is needed. Once the ascending numbers are exhausted and channel 1 is
  still in use, \<open>FindNext\<close> hands out 0, the number of the control channel.
\<close>

theorem FindNext_hands_out_control_channel:
  assumes "Mask cnf = 0" "OutMask cnf = 0" "\<not> DirectionIsDescending cnf"
    and "LastAllocatedNumber cnf = 0xffff" "used 1"
  shows "\<exists>cnf'. FindNext used cnf = Some (0, cnf')"
proof (rule organise_result [of cnf used])
  show "Mask cnf \<noteq> 0xffff" using assms by simp
next
  fix mx mn
  assume o: "organise used cnf = cnf\<lparr>DirectionIsDescending := \<not> DirectionIsDescending cnf,
       LastAllocatedNumber := (if DirectionIsDescending cnf then mx else mn)\<rparr>"
    and b: "\<And>k. 0 < k \<Longrightarrow> k < NOT (Mask cnf) \<Longrightarrow> used (k OR OutMask cnf) \<Longrightarrow> mn \<le> k \<and> k \<le> mx"
    and mn: "mn = NOT (Mask cnf) \<or> 0 < mn \<and> used (mn OR OutMask cnf)"
  have "(1::u16) < NOT 0" by code_simp
  then have "mn \<le> 1" using b [of 1] assms by simp
  moreover have "0 < mn" using mn assms \<open>(1::u16) < NOT 0\<close> by (auto simp: word_neq_0_conv [symmetric])
  ultimately have "mn = 1" by unat_arith
  with o assms show ?thesis
    by (simp add: FindNext_def findNextRaw_turn_down findNextRaw_descending)
qed

theorem FindNext_hands_out_control_channel_witness:
  "\<exists>cnf'. FindNext (\<lambda>k. k = 1) (NewChannelNumberFinder 0 0\<lparr>LastAllocatedNumber := 0xffff\<rparr>) = Some (0, cnf')"
  by (rule FindNext_hands_out_control_channel) (simp_all add: NewChannelNumberFinder_def)

end
