(* ===== verification/ServerWorker.thy ===== *)
theory ServerWorker
  imports Wire ChannelNumbers
begin

text \<open>
  The UDP relay of the server, \<open>workers/server/serverWorker.go\<close>.

  The context \<open>UDPServerContext\<close> holds the table of channels, the table of client sockets with
  the tracked remotes of each, the two channels towards the client and the channel allocator.
  Pointers stored in a \<open>sync.Map\<close> are never removed from \<open>ClientLogicConnection\<close> or
  \<open>TrackedConnection\<close>, so updating the entry of the map is what the code's update through the
  pointer does. What leaves the model: datagrams written to sockets are logged in
  \<open>SocketWrites\<close>, started listener goroutines in \<open>Listeners\<close>.

  The argument \<open>env\<close> carries what is outside the component: the packing library, the dialer's
  answer (\<open>None\<close> for an error) and the statistics of the transport layer. A handler returns the
  new context, or \<open>Blocked\<close> when it waits for a mutex that is never released.
\<close>

section \<open>State\<close>

record TrafficWithChannelTag =
  tr_Channel :: u16
  tr_Payload :: bytes

definition mk_traffic :: "u16 \<Rightarrow> bytes \<Rightarrow> TrafficWithChannelTag" where
  "mk_traffic c p = \<lparr>tr_Channel = c, tr_Payload = p\<rparr>"

lemma mk_traffic_simps [simp]: "tr_Channel (mk_traffic c p) = c" "tr_Payload (mk_traffic c p) = p"
  by (simp_all add: mk_traffic_def)

record UDPServerTrackedRemoteAddrContext =
  ra_RemoteAddr :: udp_addr
  ra_LocalAddr :: udp_addr

record UDPTrackedConnectionContext =
  tc_Tracking :: bool
  tc_TrackPending :: bool
  tc_Tracked :: bool
  tc_Channel :: u16

definition new_tracked :: UDPTrackedConnectionContext where
  "new_tracked = \<lparr>tc_Tracking = False, tc_TrackPending = False, tc_Tracked = False, tc_Channel = 0\<rparr>"

record UDPServerClientLogicConnectionContext =
  lc_LocalAddr :: udp_addr
  lc_TrackedConnection :: "string \<rightharpoonup> UDPTrackedConnectionContext"
  lc_lock :: bool
  lc_Conn :: "nat option"
  lc_LastSeen :: int
  lc_NoWait :: bool

definition new_logic_conn :: "udp_addr \<Rightarrow> UDPServerClientLogicConnectionContext" where
  "new_logic_conn a = \<lparr>lc_LocalAddr = a, lc_TrackedConnection = Map.empty, lc_lock = False,
     lc_Conn = None, lc_LastSeen = 0, lc_NoWait = False\<rparr>"

record UDPServerContext =
  TrackedRemoteAddr :: "u16 \<rightharpoonup> UDPServerTrackedRemoteAddrContext"
  ClientLogicConnection :: "string \<rightharpoonup> UDPServerClientLogicConnectionContext"
  TxToClient :: "TrafficWithChannelTag chan"
  TxToClientData :: "TrafficWithChannelTag chan"
  ChannelNumberGenerator :: ChannelNumberFinder
  UDPTimeoutTime :: int
  SocketWrites :: "(nat \<times> bytes \<times> udp_addr) list"
  Listeners :: "string list"

record server_env =
  se_struc :: struc_lib
  se_dial :: "string \<Rightarrow> u16 \<Rightarrow> u16 \<Rightarrow> nat option"
  se_stats :: "(u64 \<times> u64) option"

type_synonym 'a res = "(unit, 'a) outcome"

text \<open>\<open>UDPServer\<close>: the context a new server starts with; the options carry the idle timeout.\<close>

definition UDPServer :: "nat \<Rightarrow> nat \<Rightarrow> int option \<Rightarrow> UDPServerContext" where
  "UDPServer cap capData timeout =
     \<lparr>TrackedRemoteAddr = Map.empty, ClientLogicConnection = Map.empty,
      TxToClient = make_chan cap, TxToClientData = make_chan capData,
      ChannelNumberGenerator = NewChannelNumberFinder 0 0,
      UDPTimeoutTime = (case timeout of None \<Rightarrow> 1200 | Some t \<Rightarrow> t),
      SocketWrites = [], Listeners = []\<rparr>"

definition IsChannelUsed :: "UDPServerContext \<Rightarrow> u16 \<Rightarrow> bool" where
  "IsChannelUsed s u = (Load (TrackedRemoteAddr s) u \<noteq> None)"

text \<open>Updates through the pointers held by the tables.\<close>

definition upd_logic ::
  "string \<Rightarrow> (UDPServerClientLogicConnectionContext \<Rightarrow> UDPServerClientLogicConnectionContext) \<Rightarrow>
   UDPServerContext \<Rightarrow> UDPServerContext" where
  "upd_logic k f s =
     (case ClientLogicConnection s k of
        None \<Rightarrow> s
      | Some t \<Rightarrow> s\<lparr>ClientLogicConnection := (ClientLogicConnection s)(k \<mapsto> f t)\<rparr>)"

definition set_tracked ::
  "string \<Rightarrow> string \<Rightarrow> UDPTrackedConnectionContext \<Rightarrow> UDPServerContext \<Rightarrow> UDPServerContext" where
  "set_tracked k d r s = upd_logic k (\<lambda>t. t\<lparr>lc_TrackedConnection := (lc_TrackedConnection t)(d \<mapsto> r)\<rparr>) s"

text \<open>\<open>LoadOrStore\<close> of a fresh \<open>UDPTrackedConnectionContext\<close>: the entry used from then on.\<close>

definition tracked_or_new :: "UDPServerClientLogicConnectionContext \<Rightarrow> string \<Rightarrow> UDPTrackedConnectionContext" where
  "tracked_or_new t d = fst (snd (LoadOrStore (lc_TrackedConnection t) d new_tracked))"

section \<open>Announcing, tracking and untracking\<close>

definition trackConnectionAnnounceIfPossible ::
  "server_env \<Rightarrow> UDPServerContext \<Rightarrow> udp_addr \<Rightarrow> udp_addr \<Rightarrow> u16 \<Rightarrow> UDPServerContext \<times> bool" where
  "trackConnectionAnnounceIfPossible env s source dest channel =
     (let S = se_struc env;
          v4 = (To4 (ua_IP source) \<noteq> None \<and> To4 (ua_IP dest) \<noteq> None);
          h = \<lparr>ah_SourceIP = (if v4 then IPv4AddrToByte (ua_IP source) else IPv6AddrToByte (ua_IP source)),
               ah_DestIP = (if v4 then IPv4AddrToByte (ua_IP dest) else IPv6AddrToByte (ua_IP dest)),
               ah_SourcePort = word_of_int (ua_Port source), ah_DestPort = word_of_int (ua_Port dest),
               ah_Channel = channel\<rparr>;
          command = (if v4 then CommandByte_Associate else CommandByte_AssociateV6);
          layout = (if v4 then AssociateHeader_layout else AssociateV6Header_layout)
      in case struc_Pack S CommandHeader_layout (CommandHeader_vals command) of
           None \<Rightarrow> (s, False)
         | Some b1 \<Rightarrow>
             (case struc_Pack S layout (AssociateHeader_vals h) of
                None \<Rightarrow> (s, False)
              | Some b2 \<Rightarrow>
                  (let (c, sent) = chan_try_send (TxToClient s) (mk_traffic 0 (b1 @ b2))
                   in (s\<lparr>TxToClient := c\<rparr>, sent))))"

definition isConnectionTracked ::
  "server_env \<Rightarrow> UDPServerContext \<Rightarrow> udp_addr \<Rightarrow> udp_addr \<Rightarrow> bool \<Rightarrow> (UDPServerContext \<times> bool \<times> u16) res" where
  "isConnectionTracked env s source dest TrackIfNotCurrentlyTrackingOrTracked =
     (case Load (ClientLogicConnection s) (udp_string source) of
        None \<Rightarrow> Ok (s, False, 0)
      | Some tracker \<Rightarrow>
          (let k = udp_string source; d = udp_string dest;
               trackerR = tracked_or_new tracker d;
               s1 = set_tracked k d trackerR s
           in if tc_Tracked trackerR then Ok (s1, True, tc_Channel trackerR)
              else if TrackIfNotCurrentlyTrackingOrTracked
              then (if tc_Tracking trackerR then Ok (s1, False, tc_Channel trackerR)
                    else case FindNext (IsChannelUsed s1) (ChannelNumberGenerator s1) of
                      None \<Rightarrow> Blocked
                    | Some (trackingNumber, gen) \<Rightarrow>
                        (let r1 = trackerR\<lparr>tc_Tracking := True, tc_Channel := trackingNumber\<rparr>;
                             s2 = set_tracked k d r1 (s1\<lparr>ChannelNumberGenerator := gen\<rparr>)
                         in if tc_TrackPending r1 then Ok (s2, False, trackingNumber)
                            else let tc = \<lparr>ra_RemoteAddr = dest, ra_LocalAddr = source\<rparr>;
                                     s3 = s2\<lparr>TrackedRemoteAddr :=
                                            fst (LoadOrStore (TrackedRemoteAddr s2) trackingNumber tc)\<rparr>;
                                     (s4, sent) = trackConnectionAnnounceIfPossible env s3 source dest trackingNumber
                                 in Ok (set_tracked k d (r1\<lparr>tc_TrackPending := sent\<rparr>) s4, False, trackingNumber)))
              else Ok (s1, False, 0)))"

definition trackConnection ::
  "server_env \<Rightarrow> UDPServerContext \<Rightarrow> udp_addr \<Rightarrow> udp_addr \<Rightarrow> UDPServerContext res" where
  "trackConnection env s source dest =
     bind_outcome (isConnectionTracked env s source dest True) (\<lambda>(s', _). Ok s')"

definition untrackConnection :: "server_env \<Rightarrow> UDPServerContext \<Rightarrow> u16 \<Rightarrow> UDPServerContext \<times> bool" where
  "untrackConnection env s channel =
     (let S = se_struc env;
          payload = packed S CommandHeader_layout (CommandHeader_vals CommandByte_ChannelDestroy)
                    @ packed S AssociateChannelDestroy_layout (DataHeader_vals channel);
          (c, sent) = chan_try_send (TxToClient s) (mk_traffic 0 payload);
          s1 = s\<lparr>TxToClient := c\<rparr>
      in if \<not> sent then (s1, False)
         else case Load (TrackedRemoteAddr s1) channel of
           None \<Rightarrow> (s1, False)
         | Some interT \<Rightarrow>
             (let k = udp_string (ra_LocalAddr interT); d = udp_string (ra_RemoteAddr interT)
              in case Load (ClientLogicConnection s1) k of
                   None \<Rightarrow> (s1, False)
                 | Some tracker \<Rightarrow>
                     (let s2 = set_tracked k d
                            ((tracked_or_new tracker d)\<lparr>tc_Tracked := False, tc_Channel := 0,
                               tc_TrackPending := False, tc_Tracking := False\<rparr>) s1
                      in (s2\<lparr>TrackedRemoteAddr := Delete (TrackedRemoteAddr s2) channel\<rparr>, True))))"

text \<open>
  \<open>untrackAll\<close>: for every tracked remote of the tracker, in the order \<open>Range\<close> visits them, at
  most eleven attempts to untrack its channel. The three seconds between attempts are not
  modelled.
\<close>

fun untrack_attempts :: "server_env \<Rightarrow> string \<Rightarrow> string \<Rightarrow> nat \<Rightarrow> UDPServerContext \<Rightarrow> UDPServerContext" where
  "untrack_attempts env k d 0 s = s"
| "untrack_attempts env k d (Suc i) s =
     (case Load (ClientLogicConnection s) k of
        None \<Rightarrow> s
      | Some tracker \<Rightarrow>
          (case Load (lc_TrackedConnection tracker) d of
             None \<Rightarrow> s
           | Some r \<Rightarrow>
               (if \<not> tc_Tracked r then s
                else case untrackConnection env s (tc_Channel r) of
                       (s', untracked) \<Rightarrow> if untracked then untrack_attempts env k d i s' else s')))"

fun untrackAll :: "server_env \<Rightarrow> string \<Rightarrow> string list \<Rightarrow> UDPServerContext \<Rightarrow> UDPServerContext" where
  "untrackAll env k [] s = s"
| "untrackAll env k (d # ds) s =
     (case Load (ClientLogicConnection s) k of
        None \<Rightarrow> s
      | Some tracker \<Rightarrow>
          (case Load (lc_TrackedConnection tracker) d of
             None \<Rightarrow> untrackAll env k ds s
           | Some r \<Rightarrow>
               untrackAll env k ds (if tc_Tracking r then untrack_attempts env k d 11 s else s)))"

section \<open>Traffic from the client\<close>

definition sendPong :: "server_env \<Rightarrow> UDPServerContext \<Rightarrow> bytes \<Rightarrow> UDPServerContext" where
  "sendPong env s reader =
     (case struc_Unpack (se_struc env) PingHeader_layout reader of
        (ok, vs, _) \<Rightarrow>
          if \<not> ok then s
          else let ping = PingHeader_of vs;
                   pong = \<lparr>pg_Seq = pg_Seq ping, pg_Seq2 = pg_Seq2 ping,
                           pg_SentPacket = (case se_stats env of None \<Rightarrow> 0 | Some (sent, _) \<Rightarrow> sent),
                           pg_RecvPacket = (case se_stats env of None \<Rightarrow> 0 | Some (_, recv) \<Rightarrow> recv)\<rparr>
               in case struc_Pack (se_struc env) CommandHeader_layout (CommandHeader_vals CommandByte_Pong) of
                    None \<Rightarrow> s
                  | Some b1 \<Rightarrow>
                      (case struc_Pack (se_struc env) PingHeader_layout (PingHeader_vals pong) of
                         None \<Rightarrow> s
                       | Some b2 \<Rightarrow> s\<lparr>TxToClient := chan_send (TxToClient s) (mk_traffic 0 (b1 @ b2))\<rparr>))"

text \<open>
  The two handlers of a \<open>Send\<close> command have the same body over different headers. A packet that
  does not parse is only logged; the handler goes on with what \<open>Unpack\<close> left in the struct.
\<close>

definition on_control_send ::
  "layout \<Rightarrow> server_env \<Rightarrow> UDPServerContext \<Rightarrow> bytes \<Rightarrow> UDPServerContext res" where
  "on_control_send layout env s reader =
     (let h = SendHeader_of (fst (snd (struc_Unpack (se_struc env) layout reader)));
          sourceAddr = mk_addr (sh_SourceIP h) (uint (sh_SourcePort h));
          destaddr = mk_addr (sh_DestIP h) (uint (sh_DestPort h));
          k = udp_string sourceAddr;
          (m, Tracker, _) = LoadOrStore (ClientLogicConnection s) k (new_logic_conn sourceAddr);
          s1 = s\<lparr>ClientLogicConnection := m\<rparr>
      in if lc_lock Tracker then Blocked
         else bind_outcome (trackConnection env (upd_logic k (lc_lock_update (\<lambda>_. True)) s1) sourceAddr destaddr)
           (\<lambda>s2. case (case ClientLogicConnection s2 k of None \<Rightarrow> None | Some t \<Rightarrow> lc_Conn t) of
               None \<Rightarrow>
                 (case se_dial env (ip_string (sh_DestIP h)) (sh_DestPort h) (sh_SourcePort h) of
                    None \<Rightarrow> Ok s2
                  | Some conn \<Rightarrow>
                      Ok (upd_logic k (\<lambda>t. t\<lparr>lc_Conn := Some conn,
                                            lc_NoWait := (if ua_Port destaddr = 53 then True else lc_NoWait t),
                                            lc_lock := False\<rparr>)
                           (s2\<lparr>Listeners := Listeners s2 @ [k],
                               SocketWrites := SocketWrites s2 @ [(conn, sh_Payload h, destaddr)]\<rparr>)))
             | Some conn \<Rightarrow>
                 Ok (upd_logic k (lc_lock_update (\<lambda>_. False))
                      (s2\<lparr>SocketWrites := SocketWrites s2 @ [(conn, sh_Payload h, destaddr)]\<rparr>))))"

definition rxFromClientWorker_OnControlSend :: "server_env \<Rightarrow> UDPServerContext \<Rightarrow> bytes \<Rightarrow> UDPServerContext res" where
  "rxFromClientWorker_OnControlSend = on_control_send SendHeader_layout"

definition rxFromClientWorker_OnControlSendV6 :: "server_env \<Rightarrow> UDPServerContext \<Rightarrow> bytes \<Rightarrow> UDPServerContext res" where
  "rxFromClientWorker_OnControlSendV6 = on_control_send SendV6Header_layout"

definition on_control_associate_done ::
  "layout \<Rightarrow> server_env \<Rightarrow> UDPServerContext \<Rightarrow> bytes \<Rightarrow> UDPServerContext" where
  "on_control_associate_done layout env s reader =
     (case struc_Unpack (se_struc env) layout reader of
        (ok, vs, _) \<Rightarrow>
          if \<not> ok then s
          else let h = AssociateHeader_of vs;
                   k = udp_string (mk_addr (ah_SourceIP h) (uint (ah_SourcePort h)));
                   d = udp_string (mk_addr (ah_DestIP h) (uint (ah_DestPort h)))
               in case Load (ClientLogicConnection s) k of
                    None \<Rightarrow> s
                  | Some tracker \<Rightarrow>
                      (let r = tracked_or_new tracker d
                       in set_tracked k d (if tc_Channel r = ah_Channel h then r\<lparr>tc_Tracked := True\<rparr> else r) s))"

definition rxFromClientWorker_OnControlAssociateDone :: "server_env \<Rightarrow> UDPServerContext \<Rightarrow> bytes \<Rightarrow> UDPServerContext" where
  "rxFromClientWorker_OnControlAssociateDone = on_control_associate_done AssociateHeader_layout"

definition rxFromClientWorker_OnControlAssociateV6Done :: "server_env \<Rightarrow> UDPServerContext \<Rightarrow> bytes \<Rightarrow> UDPServerContext" where
  "rxFromClientWorker_OnControlAssociateV6Done = on_control_associate_done AssociateV6Header_layout"

definition rxFromClientWorker_OnData :: "server_env \<Rightarrow> UDPServerContext \<Rightarrow> u16 \<Rightarrow> bytes \<Rightarrow> UDPServerContext" where
  "rxFromClientWorker_OnData env s channel p =
     (case Load (TrackedRemoteAddr s) channel of
        None \<Rightarrow> s
      | Some interT \<Rightarrow>
          (case Load (ClientLogicConnection s) (udp_string (ra_LocalAddr interT)) of
             None \<Rightarrow> s
           | Some tracker \<Rightarrow>
               (case lc_Conn tracker of
                  None \<Rightarrow> fst (untrackConnection env s channel)
                | Some conn \<Rightarrow>
                    s\<lparr>SocketWrites := SocketWrites s @ [(conn, p, ra_RemoteAddr interT)]\<rparr>)))"

text \<open>One iteration of \<open>RxFromClientWorker\<close> on a received message.\<close>

definition RxFromClientWorker_step ::
  "server_env \<Rightarrow> UDPServerContext \<Rightarrow> TrafficWithChannelTag \<Rightarrow> UDPServerContext res" where
  "RxFromClientWorker_step env s traffic =
     (if tr_Channel traffic = 0
      then case struc_Unpack (se_struc env) CommandHeader_layout (tr_Payload traffic) of
             (ok, vs, payloadData) \<Rightarrow>
               if \<not> ok then Ok s
               else let c = CommandHeader_of vs
                    in if c = CommandByte_Send then rxFromClientWorker_OnControlSend env s payloadData
                       else if c = CommandByte_SendV6 then rxFromClientWorker_OnControlSendV6 env s payloadData
                       else if c = CommandByte_AssociateDone
                         then Ok (rxFromClientWorker_OnControlAssociateDone env s payloadData)
                       else if c = CommandByte_AssociateDoneV6
                         then Ok (rxFromClientWorker_OnControlAssociateV6Done env s payloadData)
                       else if c = CommandByte_Ping then Ok (sendPong env s payloadData)
                       else Ok s
      else Ok (rxFromClientWorker_OnData env s (tr_Channel traffic) (tr_Payload traffic)))"

section \<open>Traffic from the remotes\<close>

definition txToClient ::
  "server_env \<Rightarrow> UDPServerContext \<Rightarrow> bytes \<Rightarrow> udp_addr \<Rightarrow> udp_addr \<Rightarrow> UDPServerContext res" where
  "txToClient env s payload localAddr from =
     bind_outcome (isConnectionTracked env s localAddr from True) (\<lambda>(s1, tracked, chann).
       if tracked
       then Ok (s1\<lparr>TxToClientData := chan_send (TxToClientData s1) (mk_traffic chann payload)\<rparr>)
       else let S = se_struc env; v4 = (To4 (ua_IP from) \<noteq> None);
                send = \<lparr>sh_SourceIP = (if v4 then IPv4AddrToByte (ua_IP from) else IPv6AddrToByte (ua_IP from)),
                        sh_DestIP = (if v4 then IPv4AddrToByte (ua_IP localAddr) else IPv6AddrToByte (ua_IP localAddr)),
                        sh_SourcePort = word_of_int (ua_Port from),
                        sh_DestPort = word_of_int (ua_Port localAddr),
                        sh_Payload = payload\<rparr>;
                command = (if v4 then CommandByte_Send else CommandByte_SendV6);
                layout = (if v4 then SendHeader_layout else SendV6Header_layout)
            in Ok (s1\<lparr>TxToClient := chan_send (TxToClient s1)
                     (mk_traffic 0 (packed S CommandHeader_layout (CommandHeader_vals command)
                                    @ packed S layout (SendHeader_vals send)))\<rparr>))"

text \<open>
  The loop of \<open>rxFromRemoteListener\<close>, one iteration per event. \<open>ReadErr retry\<close> is a failed read,
  with \<open>retry\<close> for a timeout or a temporary error. The result says whether the loop goes on. The
  goroutine that \<open>shutDown\<close> starts is run to its end, over the remotes in the order \<open>ds\<close>.
\<close>

datatype listen_event = DeadlineErr | ReadErr bool | ReadFrom bytes udp_addr

definition shutDown :: "server_env \<Rightarrow> string \<Rightarrow> string list \<Rightarrow> UDPServerContext \<Rightarrow> UDPServerContext res" where
  "shutDown env k ds s =
     (case ClientLogicConnection s k of
        None \<Rightarrow> Ok s
      | Some t \<Rightarrow> if lc_lock t then Blocked
                  else Ok (untrackAll env k ds (upd_logic k (lc_Conn_update (\<lambda>_. None)) s)))"

definition rxFromRemoteListener_start :: "string \<Rightarrow> int \<Rightarrow> UDPServerContext \<Rightarrow> UDPServerContext" where
  "rxFromRemoteListener_start k now s = upd_logic k (lc_LastSeen_update (\<lambda>_. now)) s"

definition rxFromRemoteListener_step ::
  "server_env \<Rightarrow> string \<Rightarrow> string list \<Rightarrow> int \<Rightarrow> bool \<Rightarrow> listen_event \<Rightarrow> UDPServerContext \<Rightarrow>
   (UDPServerContext \<times> bool) res" where
  "rxFromRemoteListener_step env k ds now cancelled ev s =
     (case ClientLogicConnection s k of
        None \<Rightarrow> Ok (s, False)
      | Some tracker \<Rightarrow>
          (let overallTrackTime = (if lc_NoWait tracker then 30 else UDPTimeoutTime s);
               stop = bind_outcome (shutDown env k ds s) (\<lambda>s'. Ok (s', False))
           in case ev of
                DeadlineErr \<Rightarrow> stop
              | ReadErr retry \<Rightarrow>
                  if retry \<and> \<not> (lc_LastSeen tracker + overallTrackTime * 1000000000 - now < 0) \<and> \<not> cancelled
                  then Ok (s, True) else stop
              | ReadFrom p addr \<Rightarrow>
                  bind_outcome (txToClient env (upd_logic k (lc_LastSeen_update (\<lambda>_. now)) s)
                                  (take 1600 p) (lc_LocalAddr tracker) addr)
                    (\<lambda>s'. Ok (s', True))))"

end
