(* ===== verification/ServerInvariant.thy ===== *)
theory ServerInvariant
  imports ServerWorker
begin

text \<open>
  The invariant of the server's tables and its preservation by every handler: the table of
  channels and the tracked remotes of the client sockets describe the same associations, each
  under its own channel number, and the allocator's state agrees with the numbers in use.
\<close>

section \<open>Views of the tables\<close>

definition tracked_at :: "UDPServerContext \<Rightarrow> string \<Rightarrow> string \<Rightarrow> UDPTrackedConnectionContext option" where
  "tracked_at s k d =
     (case ClientLogicConnection s k of None \<Rightarrow> None | Some t \<Rightarrow> lc_TrackedConnection t d)"

definition known :: "UDPServerContext \<Rightarrow> string \<Rightarrow> udp_addr option" where
  "known s k = map_option lc_LocalAddr (ClientLogicConnection s k)"

definition server_inv :: "UDPServerContext \<Rightarrow> bool" where
  "server_inv s \<longleftrightarrow>
     (\<forall>k a. known s k = Some a \<longrightarrow> udp_string a = k) \<and>
     (\<forall>ch ra. TrackedRemoteAddr s ch = Some ra \<longrightarrow>
        ch \<noteq> 0 \<and> (\<exists>r. tracked_at s (udp_string (ra_LocalAddr ra)) (udp_string (ra_RemoteAddr ra)) = Some r \<and>
                    tc_Tracking r \<and> tc_Channel r = ch)) \<and>
     (\<forall>k d r. tracked_at s k d = Some r \<longrightarrow>
        (if tc_Tracking r
         then \<exists>ra. TrackedRemoteAddr s (tc_Channel r) = Some ra \<and>
                   udp_string (ra_LocalAddr ra) = k \<and> udp_string (ra_RemoteAddr ra) = d
         else tc_Channel r = 0 \<and> \<not> tc_TrackPending r)) \<and>
     cnf_inv (IsChannelUsed s) (ChannelNumberGenerator s)"

text \<open>States with the same tables: what the invariant does not look at may change.\<close>

definition same_tables :: "UDPServerContext \<Rightarrow> UDPServerContext \<Rightarrow> bool" where
  "same_tables s s' \<longleftrightarrow> TrackedRemoteAddr s' = TrackedRemoteAddr s \<and>
     ChannelNumberGenerator s' = ChannelNumberGenerator s \<and>
     tracked_at s' = tracked_at s \<and> known s' = known s"

lemma IsChannelUsed_eq: "IsChannelUsed s = (\<lambda>c. TrackedRemoteAddr s c \<noteq> None)"
  by (simp add: IsChannelUsed_def Load_def fun_eq_iff)

lemma server_inv_same_tables: "same_tables s s' \<Longrightarrow> server_inv s' = server_inv s"
  by (simp add: same_tables_def server_inv_def IsChannelUsed_eq)

lemma same_tables_refl [simp]: "same_tables s s"
  by (simp add: same_tables_def)

lemma same_tables_trans: "same_tables s t \<Longrightarrow> same_tables t u \<Longrightarrow> same_tables s u"
  by (simp add: same_tables_def)

lemma same_tables_fields [simp]:
  "same_tables s (s\<lparr>TxToClient := c\<rparr>)" "same_tables s (s\<lparr>TxToClientData := c\<rparr>)"
  "same_tables s (s\<lparr>SocketWrites := w\<rparr>)" "same_tables s (s\<lparr>Listeners := l\<rparr>)"
  "same_tables s (s\<lparr>Listeners := l, SocketWrites := w\<rparr>)"
  by (simp_all add: same_tables_def tracked_at_def known_def fun_eq_iff)

lemma same_tables_upd_logic:
  assumes "\<And>t. lc_LocalAddr (f t) = lc_LocalAddr t"
    and "\<And>t. lc_TrackedConnection (f t) = lc_TrackedConnection t"
  shows "same_tables s (upd_logic k f s)"
  using assms by (auto simp: same_tables_def upd_logic_def tracked_at_def known_def fun_eq_iff
      split: option.splits)

section \<open>Effect of the pointer updates\<close>

lemma tracked_at_set_tracked [simp]:
  "tracked_at (set_tracked k d r s) k' d' =
     (if k = k' \<and> d = d' \<and> ClientLogicConnection s k \<noteq> None then Some r else tracked_at s k' d')"
  by (auto simp: set_tracked_def upd_logic_def tracked_at_def split: option.splits)

lemma set_tracked_simps [simp]:
  "TrackedRemoteAddr (set_tracked k d r s) = TrackedRemoteAddr s"
  "ChannelNumberGenerator (set_tracked k d r s) = ChannelNumberGenerator s"
  "TxToClient (set_tracked k d r s) = TxToClient s"
  "TxToClientData (set_tracked k d r s) = TxToClientData s"
  "SocketWrites (set_tracked k d r s) = SocketWrites s"
  "known (set_tracked k d r s) = known s"
  by (auto simp: set_tracked_def upd_logic_def known_def fun_eq_iff split: option.splits)

lemma set_tracked_None_iff [simp]:
  "ClientLogicConnection (set_tracked k d r s) k' = None \<longleftrightarrow> ClientLogicConnection s k' = None"
  by (auto simp: set_tracked_def upd_logic_def split: option.splits)

lemma tracked_at_fields [simp]:
  "tracked_at (s\<lparr>TrackedRemoteAddr := x\<rparr>) = tracked_at s"
  "tracked_at (s\<lparr>ChannelNumberGenerator := g\<rparr>) = tracked_at s"
  "tracked_at (s\<lparr>TxToClient := c\<rparr>) = tracked_at s"
  "known (s\<lparr>TrackedRemoteAddr := x\<rparr>) = known s"
  "known (s\<lparr>ChannelNumberGenerator := g\<rparr>) = known s"
  "known (s\<lparr>TxToClient := c\<rparr>) = known s"
  by (simp_all add: tracked_at_def known_def fun_eq_iff)

lemma tracked_or_new_eq:
  "tracked_or_new t d = (case lc_TrackedConnection t d of None \<Rightarrow> new_tracked | Some r \<Rightarrow> r)"
  by (simp add: tracked_or_new_def LoadOrStore_def split: option.split)

lemma tracked_or_new_at:
  "ClientLogicConnection s k = Some t \<Longrightarrow>
   tracked_or_new t d = (case tracked_at s k d of None \<Rightarrow> new_tracked | Some r \<Rightarrow> r)"
  by (simp add: tracked_or_new_eq tracked_at_def)

lemma new_tracked_simps [simp]:
  "\<not> tc_Tracking new_tracked" "\<not> tc_TrackPending new_tracked" "\<not> tc_Tracked new_tracked"
  "tc_Channel new_tracked = 0"
  by (simp_all add: new_tracked_def)

section \<open>The elementary table updates keep the invariant\<close>

lemma server_invI:
  assumes "\<And>k a. known s k = Some a \<Longrightarrow> udp_string a = k"
    and "\<And>ch ra. TrackedRemoteAddr s ch = Some ra \<Longrightarrow>
        ch \<noteq> 0 \<and> (\<exists>r. tracked_at s (udp_string (ra_LocalAddr ra)) (udp_string (ra_RemoteAddr ra)) = Some r \<and>
                    tc_Tracking r \<and> tc_Channel r = ch)"
    and "\<And>k d r. tracked_at s k d = Some r \<Longrightarrow> tc_Tracking r \<Longrightarrow>
         \<exists>ra. TrackedRemoteAddr s (tc_Channel r) = Some ra \<and>
                   udp_string (ra_LocalAddr ra) = k \<and> udp_string (ra_RemoteAddr ra) = d"
    and "\<And>k d r. tracked_at s k d = Some r \<Longrightarrow> \<not> tc_Tracking r \<Longrightarrow> tc_Channel r = 0 \<and> \<not> tc_TrackPending r"
    and "cnf_inv (\<lambda>c. TrackedRemoteAddr s c \<noteq> None) (ChannelNumberGenerator s)"
  shows "server_inv s"
  using assms unfolding server_inv_def IsChannelUsed_eq by auto

lemma server_invD:
  assumes "server_inv s"
  shows "known s k = Some a \<Longrightarrow> udp_string a = k"
    and "TrackedRemoteAddr s ch = Some ra \<Longrightarrow>
        ch \<noteq> 0 \<and> (\<exists>r. tracked_at s (udp_string (ra_LocalAddr ra)) (udp_string (ra_RemoteAddr ra)) = Some r \<and>
                    tc_Tracking r \<and> tc_Channel r = ch)"
    and "tracked_at s k d = Some r \<Longrightarrow> tc_Tracking r \<Longrightarrow>
         \<exists>ra. TrackedRemoteAddr s (tc_Channel r) = Some ra \<and>
                   udp_string (ra_LocalAddr ra) = k \<and> udp_string (ra_RemoteAddr ra) = d"
    and "tracked_at s k d = Some r \<Longrightarrow> \<not> tc_Tracking r \<Longrightarrow> tc_Channel r = 0 \<and> \<not> tc_TrackPending r"
    and "cnf_inv (\<lambda>c. TrackedRemoteAddr s c \<noteq> None) (ChannelNumberGenerator s)"
  using assms unfolding server_inv_def IsChannelUsed_eq by (auto split: if_splits)

text \<open>A server with empty tables.\<close>

lemma server_inv_new: "server_inv (UDPServer n m t)"
  by (rule server_invI) (auto simp: UDPServer_def tracked_at_def known_def intro: cnf_inv_new)

text \<open>A new client socket.\<close>

lemma server_inv_new_logic:
  assumes "server_inv s"
  shows "server_inv (s\<lparr>ClientLogicConnection :=
           fst (LoadOrStore (ClientLogicConnection s) (udp_string a) (new_logic_conn a))\<rparr>)"
proof (cases "ClientLogicConnection s (udp_string a)")
  case (Some t)
  then show ?thesis using assms by (simp add: LoadOrStore_def)
next
  case None
  let ?s = "s\<lparr>ClientLogicConnection := (ClientLogicConnection s)(udp_string a \<mapsto> new_logic_conn a)\<rparr>"
  have t: "tracked_at ?s = tracked_at s"
    using None by (auto simp: tracked_at_def fun_eq_iff new_logic_conn_def)
  have k: "known ?s k = Some b \<Longrightarrow> udp_string b = k" for k b
    using server_invD(1) [OF assms] by (auto simp: known_def new_logic_conn_def split: if_splits)
  have "server_inv ?s"
    using server_invD(2-) [OF assms] k by (intro server_invI) (simp_all add: t)
  with None show ?thesis by (simp add: LoadOrStore_def)
qed

text \<open>Changing only the flags of an entry, or storing a fresh entry.\<close>

lemma server_inv_flags:
  assumes "server_inv s"
    and "case tracked_at s k d of
           None \<Rightarrow> \<not> tc_Tracking r \<and> tc_Channel r = 0
         | Some r0 \<Rightarrow> tc_Tracking r = tc_Tracking r0 \<and> tc_Channel r = tc_Channel r0"
    and "tc_TrackPending r \<Longrightarrow> tc_Tracking r"
  shows "server_inv (set_tracked k d r s)"
proof (rule server_invI)
  fix ch ra
  assume "TrackedRemoteAddr (set_tracked k d r s) ch = Some ra"
  with server_invD(2) [OF assms(1), of ch ra] assms(2)
  show "ch \<noteq> 0 \<and> (\<exists>r'. tracked_at (set_tracked k d r s) (udp_string (ra_LocalAddr ra))
          (udp_string (ra_RemoteAddr ra)) = Some r' \<and> tc_Tracking r' \<and> tc_Channel r' = ch)"
    by (auto split: option.splits)
next
  fix k' d' r'
  assume a: "tracked_at (set_tracked k d r s) k' d' = Some r'" "tc_Tracking r'"
  show "\<exists>ra. TrackedRemoteAddr (set_tracked k d r s) (tc_Channel r') = Some ra \<and>
          udp_string (ra_LocalAddr ra) = k' \<and> udp_string (ra_RemoteAddr ra) = d'"
  proof (cases "k = k' \<and> d = d' \<and> ClientLogicConnection s k \<noteq> None")
    case True
    with a assms(2) obtain r0 where "tracked_at s k d = Some r0" "tc_Tracking r0" "tc_Channel r0 = tc_Channel r'"
      by (auto split: option.splits)
    with server_invD(3) [OF assms(1)] True show ?thesis by fastforce
  qed (use a server_invD(3) [OF assms(1)] in \<open>auto split: if_splits\<close>)
next
  fix k' d' r'
  assume a: "tracked_at (set_tracked k d r s) k' d' = Some r'" "\<not> tc_Tracking r'"
  then show "tc_Channel r' = 0 \<and> \<not> tc_TrackPending r'"
    using assms(2,3) server_invD(4) [OF assms(1)] by (auto split: if_splits option.splits)
qed (use server_invD [OF assms(1)] in auto)

text \<open>Entering a new association under a fresh channel.\<close>

lemma server_inv_associate:
  assumes inv: "server_inv s" and k: "ClientLogicConnection s (udp_string a) \<noteq> None"
    and nt: "\<And>r0. tracked_at s (udp_string a) (udp_string b) = Some r0 \<Longrightarrow> \<not> tc_Tracking r0"
    and n: "n \<noteq> 0" "TrackedRemoteAddr s n = None"
    and gen: "cnf_inv ((\<lambda>c. TrackedRemoteAddr s c \<noteq> None)(n := True)) gen"
    and r: "tc_Tracking r" "tc_Channel r = n"
  shows "server_inv ((set_tracked (udp_string a) (udp_string b) r s)
           \<lparr>TrackedRemoteAddr := (TrackedRemoteAddr s)(n \<mapsto> \<lparr>ra_RemoteAddr = b, ra_LocalAddr = a\<rparr>),
            ChannelNumberGenerator := gen\<rparr>)"
    (is "server_inv ?s")
proof (rule server_invI)
  fix ch ra
  assume ra: "TrackedRemoteAddr ?s ch = Some ra"
  show "ch \<noteq> 0 \<and> (\<exists>r. tracked_at ?s (udp_string (ra_LocalAddr ra)) (udp_string (ra_RemoteAddr ra)) = Some r \<and>
                    tc_Tracking r \<and> tc_Channel r = ch)"
  proof (cases "ch = n")
    case True
    with ra n r k show ?thesis by auto
  next
    case False
    with ra server_invD(2) [OF inv, of ch ra] nt show ?thesis by auto
  qed
next
  fix k' d' r'
  assume a: "tracked_at ?s k' d' = Some r'" "tc_Tracking r'"
  show "\<exists>ra. TrackedRemoteAddr ?s (tc_Channel r') = Some ra \<and>
          udp_string (ra_LocalAddr ra) = k' \<and> udp_string (ra_RemoteAddr ra) = d'"
  proof (cases "udp_string a = k' \<and> udp_string b = d'")
    case True
    with a k r show ?thesis by auto
  next
    case False
    with a have "tracked_at s k' d' = Some r'" by (auto split: if_splits)
    with server_invD(3) [OF inv this a(2)] n show ?thesis by auto
  qed
next
  fix k' d' r'
  assume "tracked_at ?s k' d' = Some r'" "\<not> tc_Tracking r'"
  then show "tc_Channel r' = 0 \<and> \<not> tc_TrackPending r'"
    using r server_invD(4) [OF inv] by (auto split: if_splits)
next
  have "(\<lambda>c. TrackedRemoteAddr ?s c \<noteq> None) = (\<lambda>c. TrackedRemoteAddr s c \<noteq> None)(n := True)"
    by (auto simp: fun_eq_iff)
  with gen show "cnf_inv (\<lambda>c. TrackedRemoteAddr ?s c \<noteq> None) (ChannelNumberGenerator ?s)" by simp
qed (use server_invD(1) [OF inv] in auto)

text \<open>Removing an association.\<close>

lemma server_inv_untrack:
  assumes inv: "server_inv s" and ra: "TrackedRemoteAddr s ch = Some ra"
    and r: "\<not> tc_Tracking r" "tc_Channel r = 0" "\<not> tc_TrackPending r"
  shows "server_inv ((set_tracked (udp_string (ra_LocalAddr ra)) (udp_string (ra_RemoteAddr ra)) r s)
           \<lparr>TrackedRemoteAddr := (TrackedRemoteAddr s)(ch := None)\<rparr>)"
    (is "server_inv ?s")
proof -
  let ?k = "udp_string (ra_LocalAddr ra)" and ?d = "udp_string (ra_RemoteAddr ra)"
  obtain r0 where r0: "tracked_at s ?k ?d = Some r0" "tc_Tracking r0" "tc_Channel r0 = ch"
    using server_invD(2) [OF inv ra] by blast
  then have k: "ClientLogicConnection s ?k \<noteq> None" by (auto simp: tracked_at_def split: option.splits)
  show ?thesis
  proof (rule server_invI)
    fix ch' ra'
    assume a: "TrackedRemoteAddr ?s ch' = Some ra'"
    then have ne: "ch' \<noteq> ch" "TrackedRemoteAddr s ch' = Some ra'" by (auto split: if_splits)
    then show "ch' \<noteq> 0 \<and> (\<exists>r. tracked_at ?s (udp_string (ra_LocalAddr ra')) (udp_string (ra_RemoteAddr ra')) = Some r \<and>
                    tc_Tracking r \<and> tc_Channel r = ch')"
      using server_invD(2) [OF inv, of ch' ra'] r0 by auto
  next
    fix k' d' r'
    assume a: "tracked_at ?s k' d' = Some r'" "tc_Tracking r'"
    with r k have ne: "\<not> (?k = k' \<and> ?d = d')" and at: "tracked_at s k' d' = Some r'"
      by (auto split: if_splits)
    obtain ra' where ra': "TrackedRemoteAddr s (tc_Channel r') = Some ra'"
        "udp_string (ra_LocalAddr ra') = k'" "udp_string (ra_RemoteAddr ra') = d'"
      using server_invD(3) [OF inv at a(2)] by blast
    with ne ra have "tc_Channel r' \<noteq> ch" by auto
    with ra' show "\<exists>ra. TrackedRemoteAddr ?s (tc_Channel r') = Some ra \<and>
          udp_string (ra_LocalAddr ra) = k' \<and> udp_string (ra_RemoteAddr ra) = d'" by auto
  next
    fix k' d' r'
    assume "tracked_at ?s k' d' = Some r'" "\<not> tc_Tracking r'"
    then show "tc_Channel r' = 0 \<and> \<not> tc_TrackPending r'"
      using r server_invD(4) [OF inv] by (auto split: if_splits)
  next
    show "cnf_inv (\<lambda>c. TrackedRemoteAddr ?s c \<noteq> None) (ChannelNumberGenerator ?s)"
      using server_invD(5) [OF inv] by (auto intro: cnf_inv_free split: if_splits)
  qed (use server_invD(1) [OF inv] in auto)
qed


section \<open>Every handler keeps the invariant\<close>

text \<open>What the announcement changes: only the queue of control messages.\<close>

lemma announce_eq:
  "\<exists>c. fst (trackConnectionAnnounceIfPossible env s a b n) = s\<lparr>TxToClient := c\<rparr>"
proof -
  let ?r = "trackConnectionAnnounceIfPossible env s a b n"
  have "?r = (s, False) \<or> (\<exists>p. ?r =
      (s\<lparr>TxToClient := fst (chan_try_send (TxToClient s) p)\<rparr>, snd (chan_try_send (TxToClient s) p)))"
    unfolding trackConnectionAnnounceIfPossible_def Let_def split_beta by (auto split: option.split)
  moreover have "s = s\<lparr>TxToClient := TxToClient s\<rparr>" by simp
  ultimately show ?thesis by (metis fst_conv)
qed

lemma set_tracked_twice [simp]:
  "set_tracked k d r (set_tracked k d r' s) = set_tracked k d r s"
  by (auto simp: set_tracked_def upd_logic_def split: option.splits)

lemma set_tracked_commute [simp]:
  "set_tracked k d r (s\<lparr>TrackedRemoteAddr := x\<rparr>) = (set_tracked k d r s)\<lparr>TrackedRemoteAddr := x\<rparr>"
  "set_tracked k d r (s\<lparr>ChannelNumberGenerator := g\<rparr>) = (set_tracked k d r s)\<lparr>ChannelNumberGenerator := g\<rparr>"
  "set_tracked k d r (s\<lparr>TxToClient := c\<rparr>) = (set_tracked k d r s)\<lparr>TxToClient := c\<rparr>"
  by (auto simp: set_tracked_def upd_logic_def split: option.splits)

lemma IsChannelUsed_set_tracked [simp]: "IsChannelUsed (set_tracked k d r s) = IsChannelUsed s"
  by (simp add: IsChannelUsed_eq)

text \<open>
  The case analysis of \<open>isConnectionTracked\<close>: an unknown socket, an association that is tracked or
  being tracked (or not to be tracked), and a new association.
\<close>

lemma isConnectionTracked_cases:
  assumes "isConnectionTracked env s a b t = Ok (s', tracked, ch)"
  obtains (unknown) "ClientLogicConnection s (udp_string a) = None" "s' = s" "\<not> tracked" "ch = 0"
  | (kept) r where "ClientLogicConnection s (udp_string a) \<noteq> None"
      "r = (case tracked_at s (udp_string a) (udp_string b) of None \<Rightarrow> new_tracked | Some r \<Rightarrow> r)"
      "s' = set_tracked (udp_string a) (udp_string b) r s"
      "tracked = tc_Tracked r" "tracked \<Longrightarrow> ch = tc_Channel r" "tracked \<or> tc_Tracking r \<or> \<not> t"
  | (fresh) r gen sent c where "t" "ClientLogicConnection s (udp_string a) \<noteq> None"
      "r = (case tracked_at s (udp_string a) (udp_string b) of None \<Rightarrow> new_tracked | Some r \<Rightarrow> r)"
      "\<not> tc_Tracked r" "\<not> tc_Tracking r" "\<not> tracked"
      "FindNext (IsChannelUsed s) (ChannelNumberGenerator s) = Some (ch, gen)"
      "tc_TrackPending r \<or>
       s' = (set_tracked (udp_string a) (udp_string b)
               (r\<lparr>tc_Tracking := True, tc_Channel := ch, tc_TrackPending := sent\<rparr>) s)
            \<lparr>TrackedRemoteAddr := fst (LoadOrStore (TrackedRemoteAddr s) ch \<lparr>ra_RemoteAddr = b, ra_LocalAddr = a\<rparr>),
             ChannelNumberGenerator := gen, TxToClient := c\<rparr>"
proof (cases "ClientLogicConnection s (udp_string a)")
  case None
  with assms show ?thesis by (intro unknown) (simp_all add: isConnectionTracked_def Load_def)
next
  case (Some tracker)
  define r where "r = tracked_or_new tracker (udp_string b)"
  have r: "r = (case tracked_at s (udp_string a) (udp_string b) of None \<Rightarrow> new_tracked | Some r \<Rightarrow> r)"
    unfolding r_def by (rule tracked_or_new_at [OF Some])
  show ?thesis
  proof (cases "tc_Tracked r \<or> tc_Tracking r \<or> \<not> t")
    case True
    then show ?thesis
      using assms Some r by (intro kept [of r])
        (auto simp: isConnectionTracked_def Load_def Let_def r_def [symmetric] split: if_splits)
  next
    case False
    obtain n gen where n: "FindNext (IsChannelUsed s) (ChannelNumberGenerator s) = Some (n, gen)"
      using assms Some False
      by (cases "FindNext (IsChannelUsed s) (ChannelNumberGenerator s)")
        (auto simp: isConnectionTracked_def Load_def Let_def r_def [symmetric])
    have na: "ch = n" "\<not> tracked" using assms Some False n
      by (auto simp: isConnectionTracked_def Load_def Let_def r_def [symmetric] split: if_splits prod.splits)
    show ?thesis
    proof (cases "tc_TrackPending r")
      case True
      then show ?thesis using fresh [of r gen] False Some r n na by auto
    next
      case np: False
      let ?s3 = "(set_tracked (udp_string a) (udp_string b) (r\<lparr>tc_Tracking := True, tc_Channel := n\<rparr>) s)
            \<lparr>ChannelNumberGenerator := gen, TrackedRemoteAddr :=
              fst (LoadOrStore (TrackedRemoteAddr s) n \<lparr>ra_RemoteAddr = b, ra_LocalAddr = a\<rparr>)\<rparr>"
      obtain c where c: "fst (trackConnectionAnnounceIfPossible env ?s3 a b n) = ?s3\<lparr>TxToClient := c\<rparr>"
        using announce_eq by blast
      obtain sent where "trackConnectionAnnounceIfPossible env ?s3 a b n = (?s3\<lparr>TxToClient := c\<rparr>, sent)"
        using c by (metis prod.collapse)
      then have "s' = (set_tracked (udp_string a) (udp_string b)
               (r\<lparr>tc_Tracking := True, tc_Channel := n, tc_TrackPending := sent\<rparr>) s)
            \<lparr>TrackedRemoteAddr := fst (LoadOrStore (TrackedRemoteAddr s) n \<lparr>ra_RemoteAddr = b, ra_LocalAddr = a\<rparr>),
             ChannelNumberGenerator := gen, TxToClient := c\<rparr>"
        using assms Some False n np
        by (auto simp: isConnectionTracked_def Load_def Let_def r_def [symmetric])
      then show ?thesis using fresh [of r gen c sent] False Some r n na by auto
    qed
  qed
qed


definition turn_free :: "UDPServerContext \<Rightarrow> bool" where
  "turn_free s = turn_ok (IsChannelUsed s) (ChannelNumberGenerator s)"

lemma turn_free_same_tables: "same_tables s s' \<Longrightarrow> turn_free s' = turn_free s"
  by (simp add: turn_free_def same_tables_def IsChannelUsed_eq)

lemma server_inv_TxToClient [simp]:
  "server_inv (s\<lparr>TxToClient := c\<rparr>) = server_inv s" "server_inv (s\<lparr>TxToClientData := c\<rparr>) = server_inv s"
  "server_inv (s\<lparr>SocketWrites := w\<rparr>) = server_inv s"
  "server_inv (s\<lparr>Listeners := l\<rparr>) = server_inv s"
  by (rule server_inv_same_tables, simp)+

lemma server_inv_TxToClient_inner [simp]:
  "server_inv (s\<lparr>TxToClient := c, TrackedRemoteAddr := m\<rparr>) = server_inv (s\<lparr>TrackedRemoteAddr := m\<rparr>)"
proof -
  have "s\<lparr>TxToClient := c, TrackedRemoteAddr := m\<rparr> = s\<lparr>TrackedRemoteAddr := m, TxToClient := c\<rparr>" by simp
  then show ?thesis by (metis server_inv_TxToClient(1))
qed

lemma server_inv_upd_logic:
  assumes "\<And>t. lc_LocalAddr (f t) = lc_LocalAddr t"
    and "\<And>t. lc_TrackedConnection (f t) = lc_TrackedConnection t"
  shows "server_inv (upd_logic k f s) = server_inv s"
  by (rule server_inv_same_tables) (rule same_tables_upd_logic [OF assms])

lemma server_inv_keep:
  assumes "server_inv s" "r = (case tracked_at s k d of None \<Rightarrow> new_tracked | Some r \<Rightarrow> r)"
  shows "server_inv (set_tracked k d r s)"
  using assms server_invD(4) [OF assms(1)] by (intro server_inv_flags) (auto split: option.splits)

lemma isConnectionTracked_inv:
  assumes inv: "server_inv s" and turn: "turn_free s"
    and ok: "isConnectionTracked env s a b t = Ok (s', tracked, ch)"
  shows "server_inv s'"
  using ok
proof (cases rule: isConnectionTracked_cases)
  case (kept r)
  then show ?thesis using server_inv_keep [OF inv] by blast
next
  case (fresh r gen sent c)
  have n: "ch \<noteq> 0 \<and> \<not> IsChannelUsed s ch \<and> cnf_inv ((IsChannelUsed s)(ch := True)) gen"
  proof -
    have i: "cnf_inv (IsChannelUsed s) (ChannelNumberGenerator s)"
      using server_invD(5) [OF inv] unfolding IsChannelUsed_eq .
    note turn' = turn [unfolded turn_free_def]
    from cnf.next_not_used [OF i turn' fresh(7)] cnf.next_keeps_inv [OF i turn' fresh(7)]
    show ?thesis by simp
  qed
  have np: "\<not> tc_TrackPending r"
    using fresh(3,5) server_invD(4) [OF inv] by (auto split: option.splits)
  have "server_inv ((set_tracked (udp_string a) (udp_string b)
               (r\<lparr>tc_Tracking := True, tc_Channel := ch, tc_TrackPending := sent\<rparr>) s)
            \<lparr>TrackedRemoteAddr := (TrackedRemoteAddr s)(ch \<mapsto> \<lparr>ra_RemoteAddr = b, ra_LocalAddr = a\<rparr>),
             ChannelNumberGenerator := gen\<rparr>)"
    using fresh n by (intro server_inv_associate [OF inv]) (auto simp: IsChannelUsed_eq split: option.splits)
  then show ?thesis using np n fresh(8) by (simp add: LoadOrStore_def IsChannelUsed_eq)
qed (use inv in simp)

lemma trackConnection_inv:
  "server_inv s \<Longrightarrow> turn_free s \<Longrightarrow> trackConnection env s a b = Ok s' \<Longrightarrow> server_inv s'"
  by (auto simp: trackConnection_def intro: isConnectionTracked_inv)

lemma untrackConnection_inv:
  assumes inv: "server_inv s"
  shows "server_inv (fst (untrackConnection env s ch))"
proof -
  obtain p where p: "p = mk_traffic 0 (packed (se_struc env) CommandHeader_layout
      (CommandHeader_vals CommandByte_ChannelDestroy)
      @ packed (se_struc env) AssociateChannelDestroy_layout (DataHeader_vals ch))" by simp
  obtain c sent where c: "chan_try_send (TxToClient s) p = (c, sent)" by fastforce
  show ?thesis
  proof (cases "TrackedRemoteAddr s ch")
    case None
    then show ?thesis using inv c by (simp add: untrackConnection_def Let_def p Load_def)
  next
    case (Some ra)
    then show ?thesis
      using inv c server_inv_untrack [OF inv Some]
      by (auto simp: untrackConnection_def Let_def p Load_def Delete_def split: option.splits)
  qed
qed

lemma untrack_attempts_inv: "server_inv s \<Longrightarrow> server_inv (untrack_attempts env k d i s)"
proof (induction i arbitrary: s)
  case (Suc i)
  then show ?case
    using untrackConnection_inv [OF Suc.prems, of env]
    by (auto simp: split_beta Let_def split: option.splits)
qed simp

lemma untrackAll_inv: "server_inv s \<Longrightarrow> server_inv (untrackAll env k ds s)"
  by (induction ds arbitrary: s) (auto split: option.splits intro: untrack_attempts_inv)

lemma sendPong_inv: "server_inv s \<Longrightarrow> server_inv (sendPong env s p)"
  by (simp add: sendPong_def Let_def split: prod.split option.split)

lemma on_control_associate_done_inv:
  assumes "server_inv s"
  shows "server_inv (on_control_associate_done lay env s p)"
proof -
  have "server_inv (set_tracked k d (if tc_Channel r = n then r\<lparr>tc_Tracked := True\<rparr> else r) s)"
    if "ClientLogicConnection s k = Some t" "r = tracked_or_new t d" for k d t r n
    using assms that server_invD(4) [OF assms]
    by (intro server_inv_flags) (auto simp: tracked_or_new_at split: option.splits if_splits)
  then show ?thesis
    using assms by (auto simp: on_control_associate_done_def Let_def Load_def split: prod.split option.split)
qed

lemma rxFromClientWorker_OnData_inv:
  "server_inv s \<Longrightarrow> server_inv (rxFromClientWorker_OnData env s ch p)"
  by (auto simp: rxFromClientWorker_OnData_def intro: untrackConnection_inv split: option.split)

lemma on_control_send_inv:
  assumes inv: "server_inv s" and turn: "turn_free s" and ok: "on_control_send lay env s p = Ok s'"
  shows "server_inv s'"
proof -
  define h where "h = SendHeader_of (fst (snd (struc_Unpack (se_struc env) lay p)))"
  define a where "a = mk_addr (sh_SourceIP h) (uint (sh_SourcePort h))"
  define s1 where "s1 = s\<lparr>ClientLogicConnection :=
           fst (LoadOrStore (ClientLogicConnection s) (udp_string a) (new_logic_conn a))\<rparr>"
  let ?s2 = "upd_logic (udp_string a) (lc_lock_update (\<lambda>_. True)) s1"
  have i1: "server_inv s1" unfolding s1_def by (rule server_inv_new_logic [OF inv])
  have i2: "server_inv ?s2" using i1 by (simp add: server_inv_upd_logic)
  have "turn_free s1" using turn by (simp add: turn_free_def s1_def IsChannelUsed_eq)
  moreover have "same_tables s1 ?s2" by (rule same_tables_upd_logic) simp_all
  ultimately have t2: "turn_free ?s2" using turn_free_same_tables by blast
  obtain s2 where s2: "trackConnection env ?s2 a (mk_addr (sh_DestIP h) (uint (sh_DestPort h))) = Ok s2"
    using ok by (auto simp: on_control_send_def Let_def h_def [symmetric] a_def [symmetric] s1_def
        split_beta split: if_splits)
  then have "server_inv s2" using trackConnection_inv [OF i2 t2] by blast
  then show ?thesis
    using ok s2 by (auto simp: on_control_send_def Let_def h_def [symmetric] a_def [symmetric] s1_def [symmetric]
        split_beta server_inv_upd_logic split: if_splits option.splits)
qed

lemma txToClient_inv:
  "server_inv s \<Longrightarrow> turn_free s \<Longrightarrow> txToClient env s p a b = Ok s' \<Longrightarrow> server_inv s'"
  by (auto simp: txToClient_def Let_def split: if_splits dest: isConnectionTracked_inv)

lemma shutDown_inv: "server_inv s \<Longrightarrow> shutDown env k ds s = Ok s' \<Longrightarrow> server_inv s'"
  by (auto simp: shutDown_def server_inv_upd_logic intro!: untrackAll_inv split: option.splits if_splits)


section \<open>Runs of the server\<close>

text \<open>
  The steps of a running server: a message of the client is handled, a remote listener starts or
  makes one iteration, the transport takes a message out of one of the two queues. Handlers of
  one context that interleave do so at the granularity of these steps. A step that would turn the
  allocator's direction is left out; \<open>FindNext_hands_out_control_channel\<close> says why.
\<close>

inductive server_step :: "server_env \<Rightarrow> UDPServerContext \<Rightarrow> UDPServerContext \<Rightarrow> bool"
  for env where
  from_client: "turn_free s \<Longrightarrow> RxFromClientWorker_step env s msg = Ok s' \<Longrightarrow> server_step env s s'"
| listener_start: "server_step env s (rxFromRemoteListener_start k now s)"
| listener: "turn_free s \<Longrightarrow> rxFromRemoteListener_step env k ds now cancelled ev s = Ok (s', go) \<Longrightarrow>
    server_step env s s'"
| control_taken: "chan_recv (TxToClient s) = Some (msg, c) \<Longrightarrow> server_step env s (s\<lparr>TxToClient := c\<rparr>)"
| data_taken: "chan_recv (TxToClientData s) = Some (msg, c) \<Longrightarrow> server_step env s (s\<lparr>TxToClientData := c\<rparr>)"

inductive server_reachable :: "server_env \<Rightarrow> UDPServerContext \<Rightarrow> bool" for env where
  init: "server_reachable env (UDPServer n m t)"
| step: "server_reachable env s \<Longrightarrow> server_step env s s' \<Longrightarrow> server_reachable env s'"

lemma RxFromClientWorker_step_inv:
  assumes "server_inv s" "turn_free s" "RxFromClientWorker_step env s msg = Ok s'"
  shows "server_inv s'"
proof (cases "tr_Channel msg = 0")
  case True
  obtain ok vs p where "struc_Unpack (se_struc env) CommandHeader_layout (tr_Payload msg) = (ok, vs, p)"
    by (metis prod.exhaust)
  with assms(3) True have "(\<exists>lay. on_control_send lay env s p = Ok s') \<or>
      (\<exists>lay. s' = on_control_associate_done lay env s p) \<or> s' = sendPong env s p \<or> s' = s"
    unfolding RxFromClientWorker_step_def Let_def rxFromClientWorker_OnControlSend_def
      rxFromClientWorker_OnControlSendV6_def rxFromClientWorker_OnControlAssociateDone_def
      rxFromClientWorker_OnControlAssociateV6Done_def
    by (auto split: if_split_asm)
  then show ?thesis
    using on_control_send_inv [OF assms(1,2)] on_control_associate_done_inv [OF assms(1)]
      sendPong_inv [OF assms(1)] assms(1) by blast
next
  case False
  then show ?thesis
    using assms rxFromClientWorker_OnData_inv by (auto simp: RxFromClientWorker_step_def)
qed

lemma rxFromRemoteListener_step_inv:
  assumes "server_inv s" "turn_free s"
    and "rxFromRemoteListener_step env k ds now cancelled ev s = Ok (s', go)"
  shows "server_inv s'"
proof -
  let ?s = "upd_logic k (lc_LastSeen_update (\<lambda>_. now)) s"
  have "same_tables s ?s" by (rule same_tables_upd_logic) simp_all
  then have "server_inv ?s" "turn_free ?s"
    using assms by (simp_all add: server_inv_same_tables turn_free_same_tables)
  then show ?thesis
    using assms shutDown_inv [OF assms(1)] txToClient_inv [of ?s]
    by (auto simp: rxFromRemoteListener_step_def Let_def split: option.splits listen_event.splits if_splits)
qed

lemma server_step_inv: "server_step env s s' \<Longrightarrow> server_inv s \<Longrightarrow> server_inv s'"
proof (induction rule: server_step.induct)
  case (from_client s msg s')
  then show ?case by (blast intro: RxFromClientWorker_step_inv)
next
  case (listener_start s k now)
  then show ?case by (simp add: rxFromRemoteListener_start_def server_inv_upd_logic)
next
  case (listener s k ds now cancelled ev s' go)
  then show ?case by (blast intro: rxFromRemoteListener_step_inv)
qed simp_all

lemma server_reachable_inv: "server_reachable env s \<Longrightarrow> server_inv s"
  by (induction rule: server_reachable.induct) (auto intro: server_inv_new server_step_inv)

text \<open>Consequences of the invariant.\<close>

lemma server_channel_injective:
  assumes "server_inv s" "TrackedRemoteAddr s c1 = Some ra1" "TrackedRemoteAddr s c2 = Some ra2"
    and "udp_string (ra_LocalAddr ra1) = udp_string (ra_LocalAddr ra2)"
    and "udp_string (ra_RemoteAddr ra1) = udp_string (ra_RemoteAddr ra2)"
  shows "c1 = c2"
  using server_invD(2) [OF assms(1,2)] server_invD(2) [OF assms(1,3)] assms(4,5) by auto

lemma server_tracked_channel:
  assumes "server_inv s" "isConnectionTracked env s a b t = Ok (s', True, ch)" "ch \<noteq> 0"
  shows "\<exists>ra. TrackedRemoteAddr s' ch = Some ra \<and> udp_string (ra_LocalAddr ra) = udp_string a \<and>
              udp_string (ra_RemoteAddr ra) = udp_string b"
  using assms(2)
proof (cases rule: isConnectionTracked_cases)
  case (kept r)
  with assms(3) server_invD(3,4) [OF assms(1)] show ?thesis
    by (cases "tracked_at s (udp_string a) (udp_string b)") (auto, metis)
qed simp_all

end
