(* ===== verification/ServerProperties.thy ===== *)
theory ServerProperties
  imports ServerInvariant
begin

text \<open>
  What the handlers of the UDP server do to the traffic: forwarding of datagrams, routing of data
  by channel, the life of an association, the answer to a ping, and two ways in which an
  association or a client socket gets stuck. The theorems assume the laws of the packing library
  (\<open>struc_laws\<close>); their examples use the big-endian codec \<open>struc_be\<close>.
\<close>

section \<open>Frame and totality of the tracking operations\<close>

text \<open>What a client socket holds besides its tracked remotes.\<close>

definition sock :: "UDPServerContext \<Rightarrow> string \<Rightarrow> (bool \<times> nat option \<times> bool) option" where
  "sock s k = map_option (\<lambda>t. (lc_lock t, lc_Conn t, lc_NoWait t)) (ClientLogicConnection s k)"

lemma sock_set_tracked [simp]: "sock (set_tracked k d r s) = sock s"
  by (auto simp: sock_def set_tracked_def upd_logic_def fun_eq_iff split: option.splits)

lemma sock_fields [simp]:
  "sock (s\<lparr>TrackedRemoteAddr := x\<rparr>) = sock s" "sock (s\<lparr>ChannelNumberGenerator := g\<rparr>) = sock s"
  "sock (s\<lparr>TxToClient := c\<rparr>) = sock s" "sock (s\<lparr>TxToClientData := c\<rparr>) = sock s"
  "sock (s\<lparr>SocketWrites := w\<rparr>) = sock s" "sock (s\<lparr>Listeners := l\<rparr>) = sock s"
  by (simp_all add: sock_def fun_eq_iff)

lemma isConnectionTracked_frame:
  assumes "server_inv s" "isConnectionTracked env s a b t = Ok (s', tracked, ch)"
  shows "SocketWrites s' = SocketWrites s" "TxToClientData s' = TxToClientData s" "sock s' = sock s"
    "tracked \<Longrightarrow> TxToClient s' = TxToClient s"
proof -
  have "SocketWrites s' = SocketWrites s \<and> TxToClientData s' = TxToClientData s \<and> sock s' = sock s \<and>
        (tracked \<longrightarrow> TxToClient s' = TxToClient s)"
    using assms(2)
  proof (cases rule: isConnectionTracked_cases)
    case (fresh r gen sent c)
    then have "\<not> tc_TrackPending r"
      using server_invD(4) [OF assms(1)] by (auto split: option.splits)
    with fresh show ?thesis by auto
  qed auto
  then show "SocketWrites s' = SocketWrites s" "TxToClientData s' = TxToClientData s" "sock s' = sock s"
    "tracked \<Longrightarrow> TxToClient s' = TxToClient s" by auto
qed

lemma isConnectionTracked_total:
  assumes "server_inv s"
  obtains s' tracked ch where "isConnectionTracked env s a b t = Ok (s', tracked, ch)"
proof -
  have "Mask (ChannelNumberGenerator s) \<noteq> 0xffff"
    using server_invD(5) [OF assms] by (simp add: cnf_inv_def)
  then obtain n gen where "findNextRaw (IsChannelUsed s) (ChannelNumberGenerator s) = Some (n, gen)"
    using findNextRaw_returns by (metis prod.exhaust)
  then have "FindNext (IsChannelUsed s) (ChannelNumberGenerator s) \<noteq> None" by (simp add: FindNext_def)
  then have "\<exists>x. isConnectionTracked env s a b t = Ok x"
    by (auto simp: isConnectionTracked_def Let_def split: option.split prod.split)
  with that show ?thesis by (metis prod.exhaust)
qed

text \<open>After a tracking request the association of a known socket is tracked or being tracked.\<close>

lemma isConnectionTracked_tracks:
  assumes inv: "server_inv s" and "isConnectionTracked env s a b True = Ok (s', tracked, ch)"
    and "ClientLogicConnection s (udp_string a) \<noteq> None"
  shows "\<exists>r. tracked_at s' (udp_string a) (udp_string b) = Some r \<and> (tc_Tracking r \<or> tc_Tracked r) \<and>
             tc_Tracked r = tracked"
  using assms(2)
proof (cases rule: isConnectionTracked_cases)
  case (fresh r gen sent c)
  then have "\<not> tc_TrackPending r"
    using server_invD(4) [OF inv] by (auto split: option.splits)
  with fresh show ?thesis by auto
qed (use assms(3) in auto)

lemma sock_None_iff: "sock s k = None \<longleftrightarrow> ClientLogicConnection s k = None"
  by (simp add: sock_def)

lemma sock_upd_logic:
  "sock (upd_logic k f s) k' =
     (if k = k' then map_option (\<lambda>t. (lc_lock (f t), lc_Conn (f t), lc_NoWait (f t))) (ClientLogicConnection s k)
      else sock s k')"
  by (auto simp: sock_def upd_logic_def split: option.splits)


section \<open>Forwarding\<close>

definition conn_of :: "UDPServerContext \<Rightarrow> string \<Rightarrow> nat option" where
  "conn_of s k = (case sock s k of None \<Rightarrow> None | Some (_, c, _) \<Rightarrow> c)"

definition locked :: "UDPServerContext \<Rightarrow> string \<Rightarrow> bool" where
  "locked s k = (case sock s k of None \<Rightarrow> False | Some (l, _, _) \<Rightarrow> l)"

lemma conn_of_eq: "conn_of s k = (case ClientLogicConnection s k of None \<Rightarrow> None | Some t \<Rightarrow> lc_Conn t)"
  by (simp add: conn_of_def sock_def split: option.split)

lemma locked_eq: "locked s k = (case ClientLogicConnection s k of None \<Rightarrow> False | Some t \<Rightarrow> lc_lock t)"
  by (simp add: locked_def sock_def split: option.split)

lemma conn_locked_fields [simp]:
  "conn_of (s\<lparr>SocketWrites := w\<rparr>) = conn_of s" "locked (s\<lparr>SocketWrites := w\<rparr>) = locked s"
  "conn_of (s\<lparr>Listeners := l\<rparr>) = conn_of s" "locked (s\<lparr>Listeners := l\<rparr>) = locked s"
  by (simp_all add: conn_of_def locked_def fun_eq_iff)

lemma tracked_at_upd_logic:
  "(\<And>t. lc_TrackedConnection (f t) = lc_TrackedConnection t) \<Longrightarrow>
   tracked_at (upd_logic k f s) k' d' = tracked_at s k' d'"
  by (auto simp: tracked_at_def upd_logic_def split: option.splits)

text \<open>A \<open>Send\<close> command up to the point where the socket is needed.\<close>

lemma on_control_send_tracks:
  fixes lay env p
  defines "h \<equiv> SendHeader_of (fst (snd (struc_Unpack (se_struc env) lay p)))"
  defines "a \<equiv> mk_addr (sh_SourceIP h) (uint (sh_SourcePort h))"
    and "b \<equiv> mk_addr (sh_DestIP h) (uint (sh_DestPort h))"
  assumes inv: "server_inv s" and free: "\<not> locked s (udp_string a)"
  obtains s2 r where
    "on_control_send lay env s p =
       (case conn_of s (udp_string a) of
          None \<Rightarrow> (case se_dial env (ip_string (sh_DestIP h)) (sh_DestPort h) (sh_SourcePort h) of
                    None \<Rightarrow> Ok s2
                  | Some conn \<Rightarrow>
                      Ok (upd_logic (udp_string a) (\<lambda>t. t\<lparr>lc_Conn := Some conn,
                                            lc_NoWait := (if ua_Port b = 53 then True else lc_NoWait t),
                                            lc_lock := False\<rparr>)
                           (s2\<lparr>Listeners := Listeners s2 @ [udp_string a],
                               SocketWrites := SocketWrites s2 @ [(conn, sh_Payload h, b)]\<rparr>)))
        | Some conn \<Rightarrow>
                 Ok (upd_logic (udp_string a) (lc_lock_update (\<lambda>_. False))
                      (s2\<lparr>SocketWrites := SocketWrites s2 @ [(conn, sh_Payload h, b)]\<rparr>)))"
    "SocketWrites s2 = SocketWrites s" "TxToClientData s2 = TxToClientData s"
    "locked s2 (udp_string a)" "conn_of s2 (udp_string a) = conn_of s (udp_string a)"
    "tracked_at s2 (udp_string a) (udp_string b) = Some r" "tc_Tracking r \<or> tc_Tracked r"
proof -
  define m where "m = LoadOrStore (ClientLogicConnection s) (udp_string a) (new_logic_conn a)"
  define s1 where "s1 = s\<lparr>ClientLogicConnection := fst m\<rparr>"
  let ?s2 = "upd_logic (udp_string a) (lc_lock_update (\<lambda>_. True)) s1"
  have inv2: "server_inv ?s2"
    using server_inv_new_logic [OF inv] by (simp add: server_inv_upd_logic s1_def m_def)
  have m: "fst m (udp_string a) \<noteq> None" "fst (snd m) = the (fst m (udp_string a))"
    by (auto simp: m_def LoadOrStore_def split: option.splits)
  have unl: "\<not> lc_lock (fst (snd m))"
    using free by (auto simp: m_def LoadOrStore_def locked_eq new_logic_conn_def split: option.splits)
  obtain s2 tracked ch where t: "isConnectionTracked env ?s2 a b True = Ok (s2, tracked, ch)"
    using isConnectionTracked_total [OF inv2] by blast
  have known: "ClientLogicConnection ?s2 (udp_string a) \<noteq> None"
    using m by (auto simp: upd_logic_def s1_def)
  have sk: "locked s2 (udp_string a)" "conn_of s2 (udp_string a) = conn_of s (udp_string a)"
  proof -
    have "\<exists>nw. sock ?s2 (udp_string a) = Some (True, conn_of s (udp_string a), nw)"
      by (cases "ClientLogicConnection s (udp_string a)")
        (auto simp: sock_upd_logic s1_def m_def LoadOrStore_def conn_of_eq new_logic_conn_def)
    then show "locked s2 (udp_string a)" "conn_of s2 (udp_string a) = conn_of s (udp_string a)"
      using isConnectionTracked_frame(3) [OF inv2 t] by (auto simp: locked_def conn_of_def [of s2])
  qed
  have w: "SocketWrites s2 = SocketWrites s" "TxToClientData s2 = TxToClientData s"
    using isConnectionTracked_frame(1,2) [OF inv2 t] by (simp_all add: upd_logic_def s1_def split: option.split)
  from isConnectionTracked_tracks [OF inv2 t known] obtain r where
    r: "tracked_at s2 (udp_string a) (udp_string b) = Some r" "tc_Tracking r \<or> tc_Tracked r" by blast
  have "trackConnection env ?s2 a b = Ok s2" using t by (simp add: trackConnection_def)
  then show ?thesis
    using unl sk by (intro that [OF _ w sk r])
      (simp add: on_control_send_def Let_def h_def [symmetric] a_def [symmetric] b_def [symmetric]
        m_def [symmetric] s1_def [symmetric] split_beta conn_of_eq split: option.split)
qed


text \<open>A datagram the client sends as a \<open>Send\<close> or \<open>SendV6\<close> command.\<close>

definition send_message :: "struc_lib \<Rightarrow> bool \<Rightarrow> SendHeader \<Rightarrow> TrafficWithChannelTag" where
  "send_message S v6 h = mk_traffic 0
     (packed S CommandHeader_layout (CommandHeader_vals (if v6 then CommandByte_SendV6 else CommandByte_Send))
      @ packed S (if v6 then SendV6Header_layout else SendHeader_layout) (SendHeader_vals h))"

definition send_header_ok :: "bool \<Rightarrow> SendHeader \<Rightarrow> bool" where
  "send_header_ok v6 h \<longleftrightarrow> length (sh_SourceIP h) = (if v6 then 16 else 4) \<and>
     length (sh_DestIP h) = (if v6 then 16 else 4) \<and> length (sh_Payload h) < 65536"

definition send_source :: "SendHeader \<Rightarrow> udp_addr" where
  "send_source h = mk_addr (sh_SourceIP h) (uint (sh_SourcePort h))"

definition send_dest :: "SendHeader \<Rightarrow> udp_addr" where
  "send_dest h = mk_addr (sh_DestIP h) (uint (sh_DestPort h))"

definition dialled :: "server_env \<Rightarrow> SendHeader \<Rightarrow> nat option" where
  "dialled env h = se_dial env (ip_string (sh_DestIP h)) (sh_DestPort h) (sh_SourcePort h)"

lemma step_send_message:
  assumes "struc_laws (se_struc env)" "send_header_ok v6 h"
  shows "RxFromClientWorker_step env s (send_message (se_struc env) v6 h) =
     on_control_send (if v6 then SendV6Header_layout else SendHeader_layout) env s
       (packed (se_struc env) (if v6 then SendV6Header_layout else SendHeader_layout) (SendHeader_vals h))"
  using assms by (simp add: RxFromClientWorker_step_def send_message_def send_header_ok_def
      rxFromClientWorker_OnControlSend_def rxFromClientWorker_OnControlSendV6_def)

lemma unpack_send_message:
  assumes "struc_laws (se_struc env)" "send_header_ok v6 h"
  shows "SendHeader_of (fst (snd (struc_Unpack (se_struc env)
      (if v6 then SendV6Header_layout else SendHeader_layout)
      (packed (se_struc env) (if v6 then SendV6Header_layout else SendHeader_layout) (SendHeader_vals h))))) = h"
  using assms by (simp add: send_header_ok_def)

lemma step_send_tracks:
  assumes "struc_laws (se_struc env)" "send_header_ok v6 h"
    and "server_inv s" "\<not> locked s (udp_string (send_source h))"
  obtains s2 r where
    "RxFromClientWorker_step env s (send_message (se_struc env) v6 h) =
       (case conn_of s (udp_string (send_source h)) of
          None \<Rightarrow> (case dialled env h of
                    None \<Rightarrow> Ok s2
                  | Some conn \<Rightarrow>
                      Ok (upd_logic (udp_string (send_source h)) (\<lambda>t. t\<lparr>lc_Conn := Some conn,
                                            lc_NoWait := (if ua_Port (send_dest h) = 53 then True else lc_NoWait t),
                                            lc_lock := False\<rparr>)
                           (s2\<lparr>Listeners := Listeners s2 @ [udp_string (send_source h)],
                               SocketWrites := SocketWrites s2 @ [(conn, sh_Payload h, send_dest h)]\<rparr>)))
        | Some conn \<Rightarrow>
                 Ok (upd_logic (udp_string (send_source h)) (lc_lock_update (\<lambda>_. False))
                      (s2\<lparr>SocketWrites := SocketWrites s2 @ [(conn, sh_Payload h, send_dest h)]\<rparr>)))"
    "SocketWrites s2 = SocketWrites s" "TxToClientData s2 = TxToClientData s"
    "locked s2 (udp_string (send_source h))"
    "conn_of s2 (udp_string (send_source h)) = conn_of s (udp_string (send_source h))"
    "tracked_at s2 (udp_string (send_source h)) (udp_string (send_dest h)) = Some r" "tc_Tracking r \<or> tc_Tracked r"
  using on_control_send_tracks [where s = s and env = env and lay = "if v6 then SendV6Header_layout else SendHeader_layout"
      and p = "packed (se_struc env) (if v6 then SendV6Header_layout else SendHeader_layout) (SendHeader_vals h)"]
    assms(3,4)
  unfolding unpack_send_message [OF assms(1,2)] step_send_message [OF assms(1,2)]
    send_source_def [symmetric] send_dest_def [symmetric] dialled_def [symmetric]
  by blast

section \<open>Properties\<close>

text \<open>
  A datagram the client sends through the control channel leaves the server unchanged, towards
  its destination, through the socket kept for its source (a new one if there is none and the
  dialer gives one); the source keeps that socket, its lock is free again, and the association of
  source and destination is tracked or being tracked.
\<close>

theorem server_send_forwards:
  assumes "struc_laws (se_struc env)" "send_header_ok v6 h" "server_reachable env s"
    and "\<not> locked s (udp_string (send_source h))"
    and "(case conn_of s (udp_string (send_source h)) of None \<Rightarrow> dialled env h | Some c \<Rightarrow> Some c) = Some conn"
  shows "\<exists>s' r. RxFromClientWorker_step env s (send_message (se_struc env) v6 h) = Ok s' \<and>
    SocketWrites s' = SocketWrites s @ [(conn, sh_Payload h, send_dest h)] \<and>
    conn_of s' (udp_string (send_source h)) = Some conn \<and> \<not> locked s' (udp_string (send_source h)) \<and>
    tracked_at s' (udp_string (send_source h)) (udp_string (send_dest h)) = Some r \<and>
    (tc_Tracking r \<or> tc_Tracked r)"
proof -
  let ?k = "udp_string (send_source h)"
  obtain s2 r where step: "RxFromClientWorker_step env s (send_message (se_struc env) v6 h) =
       (case conn_of s ?k of
          None \<Rightarrow> (case dialled env h of
                    None \<Rightarrow> Ok s2
                  | Some conn \<Rightarrow>
                      Ok (upd_logic ?k (\<lambda>t. t\<lparr>lc_Conn := Some conn,
                                            lc_NoWait := (if ua_Port (send_dest h) = 53 then True else lc_NoWait t),
                                            lc_lock := False\<rparr>)
                           (s2\<lparr>Listeners := Listeners s2 @ [?k],
                               SocketWrites := SocketWrites s2 @ [(conn, sh_Payload h, send_dest h)]\<rparr>)))
        | Some conn \<Rightarrow>
                 Ok (upd_logic ?k (lc_lock_update (\<lambda>_. False))
                      (s2\<lparr>SocketWrites := SocketWrites s2 @ [(conn, sh_Payload h, send_dest h)]\<rparr>)))"
    and s2: "SocketWrites s2 = SocketWrites s" "locked s2 ?k" "conn_of s2 ?k = conn_of s ?k"
      "tracked_at s2 ?k (udp_string (send_dest h)) = Some r" "tc_Tracking r \<or> tc_Tracked r"
    using step_send_tracks [OF assms(1,2) server_reachable_inv [OF assms(3)] assms(4)] by blast
  obtain t where t: "ClientLogicConnection s2 ?k = Some t"
    using s2(2) by (auto simp: locked_eq split: option.splits)
  then show ?thesis
    using step s2 assms(5)
    by (cases "conn_of s ?k")
      (auto simp: tracked_at_upd_logic, auto simp: upd_logic_def conn_of_eq locked_eq tracked_at_def)
qed


text \<open>The example environment: the big-endian codec, a dialer that always gives socket 7.\<close>

definition ex_env :: server_env where
  "ex_env = \<lparr>se_struc = struc_be, se_dial = (\<lambda>_ _ _. Some 7), se_stats = None\<rparr>"

definition ex_header :: SendHeader where
  "ex_header = \<lparr>sh_SourceIP = [10, 0, 0, 2], sh_DestIP = [8, 8, 8, 8], sh_SourcePort = 5000,
     sh_DestPort = 53, sh_Payload = [1, 2, 3]\<rparr>"

lemma ex_simps [simp]:
  "se_struc ex_env = struc_be" "dialled ex_env h = Some 7" "se_stats ex_env = None"
  "send_header_ok False ex_header" "sh_Payload ex_header = [1, 2, 3]"
  by (simp_all add: ex_env_def ex_header_def dialled_def send_header_ok_def)

lemma new_server_simps [simp]:
  "conn_of (UDPServer n m t) k = None" "\<not> locked (UDPServer n m t) k" "SocketWrites (UDPServer n m t) = []"
  by (simp_all add: UDPServer_def conn_of_eq locked_eq)

theorem server_send_forwards_witness:
  "struc_laws (se_struc ex_env) \<and>
   (\<exists>s'. RxFromClientWorker_step ex_env (UDPServer 4 4 None) (send_message struc_be False ex_header) = Ok s' \<and>
         SocketWrites s' = [(7, [1, 2, 3], send_dest ex_header)])"
  using server_send_forwards [of ex_env False ex_header "UDPServer 4 4 None" 7]
    struc_be_laws server_reachable.init [of ex_env 4 4 None]
  by auto

text \<open>
  When the dialer fails, the handler returns without releasing the lock of the source: the
  datagram is dropped, and the next datagram of that source blocks the worker for good.
\<close>

theorem server_dial_failure_keeps_lock:
  assumes "struc_laws (se_struc env)" "send_header_ok v6 h" "server_reachable env s"
    and "\<not> locked s (udp_string (send_source h))" "conn_of s (udp_string (send_source h)) = None"
    and "dialled env h = None"
  shows "\<exists>s'. RxFromClientWorker_step env s (send_message (se_struc env) v6 h) = Ok s' \<and>
    SocketWrites s' = SocketWrites s \<and>
    (\<forall>env' v6' h'. struc_laws (se_struc env') \<longrightarrow> send_header_ok v6' h' \<longrightarrow>
       udp_string (send_source h') = udp_string (send_source h) \<longrightarrow>
       RxFromClientWorker_step env' s' (send_message (se_struc env') v6' h') = Blocked)"
proof -
  let ?k = "udp_string (send_source h)"
  obtain s2 where step: "RxFromClientWorker_step env s (send_message (se_struc env) v6 h) = Ok s2"
    and s2: "SocketWrites s2 = SocketWrites s" "locked s2 ?k"
    using step_send_tracks [OF assms(1,2) server_reachable_inv [OF assms(3)] assms(4)] assms(5,6)
    by (metis (mono_tags, lifting) option.simps(4))
  have "RxFromClientWorker_step env' s2 (send_message (se_struc env') v6' h') = Blocked"
    if h': "struc_laws (se_struc env')" "send_header_ok v6' h'" "udp_string (send_source h') = ?k" for env' v6' h'
  proof -
    obtain t where "ClientLogicConnection s2 (udp_string (send_source h')) = Some t" "lc_lock t"
      using s2(2) h'(3) by (auto simp: locked_eq split: option.splits)
    then show ?thesis
      unfolding step_send_message [OF h'(1,2)] on_control_send_def unpack_send_message [OF h'(1,2)] Let_def
        send_source_def [symmetric]
      by (simp add: LoadOrStore_def)
  qed
  with step s2 show ?thesis by blast
qed

definition ex_env_nodial :: server_env where
  "ex_env_nodial = \<lparr>se_struc = struc_be, se_dial = (\<lambda>_ _ _. None), se_stats = None\<rparr>"

theorem server_dial_failure_keeps_lock_witness:
  "\<exists>s'. RxFromClientWorker_step ex_env_nodial (UDPServer 4 4 None) (send_message struc_be False ex_header) = Ok s' \<and>
        RxFromClientWorker_step ex_env s' (send_message struc_be False ex_header) = Blocked"
proof -
  have "se_struc ex_env_nodial = struc_be" "dialled ex_env_nodial ex_header = None"
    by (simp_all add: ex_env_nodial_def dialled_def)
  then show ?thesis
    using server_dial_failure_keeps_lock [of ex_env_nodial False ex_header "UDPServer 4 4 None"]
      struc_be_laws server_reachable.init [of ex_env_nodial 4 4 None] by (metis ex_simps new_server_simps)
qed

text \<open>
  Data on a channel goes, unchanged, to the remote of the channel through the socket of its
  local address, and changes nothing else; data on a channel without an entry is dropped.
\<close>

theorem server_data_routed:
  assumes "tr_Channel msg \<noteq> 0"
  shows "(\<forall>ra conn. TrackedRemoteAddr s (tr_Channel msg) = Some ra \<longrightarrow>
            conn_of s (udp_string (ra_LocalAddr ra)) = Some conn \<longrightarrow>
            RxFromClientWorker_step env s msg =
              Ok (s\<lparr>SocketWrites := SocketWrites s @ [(conn, tr_Payload msg, ra_RemoteAddr ra)]\<rparr>)) \<and>
         (TrackedRemoteAddr s (tr_Channel msg) = None \<longrightarrow> RxFromClientWorker_step env s msg = Ok s)"
  using assms
  by (auto simp: RxFromClientWorker_step_def rxFromClientWorker_OnData_def Load_def conn_of_eq split: option.splits)

theorem server_data_routed_witness:
  "RxFromClientWorker_step ex_env (UDPServer 4 4 None) (mk_traffic 5 [1]) = Ok (UDPServer 4 4 None)"
proof -
  have "TrackedRemoteAddr (UDPServer 4 4 None) 5 = None" by (simp add: UDPServer_def)
  with server_data_routed [of "mk_traffic 5 [1]" "UDPServer 4 4 None" ex_env] show ?thesis by simp
qed

definition ping_message :: "struc_lib \<Rightarrow> PingHeader \<Rightarrow> TrafficWithChannelTag" where
  "ping_message S h = mk_traffic 0 (packed S CommandHeader_layout (CommandHeader_vals CommandByte_Ping)
     @ packed S PingHeader_layout (PingHeader_vals h))"

definition pong_message :: "struc_lib \<Rightarrow> PingHeader \<Rightarrow> TrafficWithChannelTag" where
  "pong_message S h = mk_traffic 0 (packed S CommandHeader_layout (CommandHeader_vals CommandByte_Pong)
     @ packed S PingHeader_layout (PingHeader_vals h))"

text \<open>
  A ping is answered by a pong with its two sequence numbers and the packet counts of the
  transport; nothing else changes.
\<close>

theorem server_ping_answered:
  assumes "struc_laws (se_struc env)" "se_stats env = Some (sent, recv)"
  shows "RxFromClientWorker_step env s (ping_message (se_struc env) h) =
    Ok (s\<lparr>TxToClient := chan_send (TxToClient s) (pong_message (se_struc env)
        \<lparr>pg_Seq = pg_Seq h, pg_Seq2 = pg_Seq2 h, pg_SentPacket = sent, pg_RecvPacket = recv\<rparr>)\<rparr>)"
  using assms by (simp add: RxFromClientWorker_step_def ping_message_def pong_message_def sendPong_def
      Pack_packed Let_def)

theorem server_ping_answered_witness:
  "\<exists>s'. RxFromClientWorker_step (ex_env\<lparr>se_stats := Some (3, 4)\<rparr>) (UDPServer 4 4 None)
          (ping_message struc_be \<lparr>pg_Seq = 1, pg_Seq2 = 2, pg_SentPacket = 0, pg_RecvPacket = 0\<rparr>) = Ok s' \<and>
        ch_buf (TxToClient s') =
          [pong_message struc_be \<lparr>pg_Seq = 1, pg_Seq2 = 2, pg_SentPacket = 3, pg_RecvPacket = 4\<rparr>]"
  using server_ping_answered [of "ex_env\<lparr>se_stats := Some (3, 4)\<rparr>" 3 4] struc_be_laws
  by (simp add: UDPServer_def)

section \<open>The life of an association\<close>

definition associate_message :: "struc_lib \<Rightarrow> udp_addr \<Rightarrow> udp_addr \<Rightarrow> u16 \<Rightarrow> TrafficWithChannelTag" where
  "associate_message S a b n =
     (let v4 = (To4 (ua_IP a) \<noteq> None \<and> To4 (ua_IP b) \<noteq> None);
          conv = (if v4 then IPv4AddrToByte else IPv6AddrToByte)
      in mk_traffic 0
        (packed S CommandHeader_layout (CommandHeader_vals (if v4 then CommandByte_Associate else CommandByte_AssociateV6))
         @ packed S (if v4 then AssociateHeader_layout else AssociateV6Header_layout)
            (AssociateHeader_vals \<lparr>ah_SourceIP = conv (ua_IP a), ah_DestIP = conv (ua_IP b),
              ah_SourcePort = word_of_int (ua_Port a), ah_DestPort = word_of_int (ua_Port b), ah_Channel = n\<rparr>)))"

lemma announce_result:
  assumes "struc_laws (se_struc env)"
  shows "trackConnectionAnnounceIfPossible env s a b n =
     (let (c, sent) = chan_try_send (TxToClient s) (associate_message (se_struc env) a b n)
      in (s\<lparr>TxToClient := c\<rparr>, sent))"
  using assms by (simp add: trackConnectionAnnounceIfPossible_def associate_message_def Let_def Pack_packed)

text \<open>A tracking request for an association that is neither tracked nor being tracked.\<close>

definition untracked :: "UDPServerContext \<Rightarrow> udp_addr \<Rightarrow> udp_addr \<Rightarrow> bool" where
  "untracked s a b \<longleftrightarrow> ClientLogicConnection s (udp_string a) \<noteq> None \<and>
     (case tracked_at s (udp_string a) (udp_string b) of
        None \<Rightarrow> True | Some r \<Rightarrow> \<not> tc_Tracking r \<and> \<not> tc_Tracked r)"

lemma isConnectionTracked_fresh:
  assumes S: "struc_laws (se_struc env)" and inv: "server_inv s" and turn: "turn_free s" and u: "untracked s a b"
  obtains s' ch r where "isConnectionTracked env s a b True = Ok (s', False, ch)" "ch \<noteq> 0"
    "TrackedRemoteAddr s ch = None"
    "TrackedRemoteAddr s' = (TrackedRemoteAddr s)(ch \<mapsto> \<lparr>ra_RemoteAddr = b, ra_LocalAddr = a\<rparr>)"
    "TxToClient s' = fst (chan_try_send (TxToClient s) (associate_message (se_struc env) a b ch))"
    "tracked_at s' (udp_string a) (udp_string b) = Some r" "tc_Tracking r" "\<not> tc_Tracked r" "tc_Channel r = ch"
    "tc_TrackPending r = snd (chan_try_send (TxToClient s) (associate_message (se_struc env) a b ch))"
proof -
  obtain t where t: "ClientLogicConnection s (udp_string a) = Some t" using u by (auto simp: untracked_def)
  define r where "r = tracked_or_new t (udp_string b)"
  have r: "\<not> tc_Tracked r" "\<not> tc_Tracking r" "\<not> tc_TrackPending r"
    using u server_invD(4) [OF inv] by (auto simp: r_def tracked_or_new_at [OF t] untracked_def split: option.splits)
  obtain s' tracked ch where q: "isConnectionTracked env s a b True = Ok (s', tracked, ch)"
    using isConnectionTracked_total [OF inv] by blast
  have i: "cnf_inv (IsChannelUsed s) (ChannelNumberGenerator s)"
    using server_invD(5) [OF inv] unfolding IsChannelUsed_eq .
  obtain n gen where n: "FindNext (IsChannelUsed s) (ChannelNumberGenerator s) = Some (n, gen)"
    using q t r by (cases "FindNext (IsChannelUsed s) (ChannelNumberGenerator s)")
      (auto simp: isConnectionTracked_def Load_def Let_def r_def [symmetric])
  have free: "n \<noteq> 0" "TrackedRemoteAddr s n = None"
    using cnf.next_not_used [OF i turn [unfolded turn_free_def] n] by (auto simp: IsChannelUsed_eq)
  show ?thesis
    using q t r n free
    by (intro that [of s' ch "r\<lparr>tc_Tracking := True, tc_Channel := n,
          tc_TrackPending := snd (chan_try_send (TxToClient s) (associate_message (se_struc env) a b n))\<rparr>"])
      (auto simp: isConnectionTracked_def Load_def Let_def r_def [symmetric] announce_result [OF S]
        LoadOrStore_def split_beta)
qed


text \<open>The confirmation a client sends for an announced association.\<close>

definition associate_done_message :: "struc_lib \<Rightarrow> bool \<Rightarrow> AssociateHeader \<Rightarrow> TrafficWithChannelTag" where
  "associate_done_message S v6 h = mk_traffic 0
     (packed S CommandHeader_layout (CommandHeader_vals (if v6 then CommandByte_AssociateDoneV6 else CommandByte_AssociateDone))
      @ packed S (if v6 then AssociateV6Header_layout else AssociateHeader_layout) (AssociateHeader_vals h))"

definition associate_header_ok :: "bool \<Rightarrow> AssociateHeader \<Rightarrow> bool" where
  "associate_header_ok v6 h \<longleftrightarrow> length (ah_SourceIP h) = (if v6 then 16 else 4) \<and>
     length (ah_DestIP h) = (if v6 then 16 else 4)"

definition associate_source :: "AssociateHeader \<Rightarrow> udp_addr" where
  "associate_source h = mk_addr (ah_SourceIP h) (uint (ah_SourcePort h))"

definition associate_dest :: "AssociateHeader \<Rightarrow> udp_addr" where
  "associate_dest h = mk_addr (ah_DestIP h) (uint (ah_DestPort h))"

lemma step_associate_done:
  assumes "struc_laws (se_struc env)" "associate_header_ok v6 h"
    and "ClientLogicConnection s (udp_string (associate_source h)) = Some t"
    and "tracked_at s (udp_string (associate_source h)) (udp_string (associate_dest h)) = Some r"
    and "tc_Channel r = ah_Channel h"
  shows "RxFromClientWorker_step env s (associate_done_message (se_struc env) v6 h) =
    Ok (set_tracked (udp_string (associate_source h)) (udp_string (associate_dest h)) (r\<lparr>tc_Tracked := True\<rparr>) s)"
  using assms
  by (simp add: RxFromClientWorker_step_def associate_done_message_def associate_header_ok_def
      rxFromClientWorker_OnControlAssociateDone_def rxFromClientWorker_OnControlAssociateV6Done_def
      on_control_associate_done_def Let_def Load_def associate_source_def [symmetric]
      associate_dest_def [symmetric] tracked_or_new_at)

lemma txToClient_tracked:
  assumes "ClientLogicConnection s (udp_string a) \<noteq> None"
    and "tracked_at s (udp_string a) (udp_string b) = Some r" "tc_Tracked r"
  shows "\<exists>s'. txToClient env s p a b = Ok s' \<and> TxToClient s' = TxToClient s \<and>
    ch_buf (TxToClientData s') = ch_buf (TxToClientData s) @ [mk_traffic (tc_Channel r) p]"
proof -
  obtain t where t: "ClientLogicConnection s (udp_string a) = Some t" using assms(1) by blast
  then show ?thesis
    using assms(2,3) by (simp add: txToClient_def isConnectionTracked_def Load_def Let_def tracked_or_new_at)
qed

section \<open>Properties of associations\<close>

text \<open>
  The first tracking request for an association gives it an unused channel, enters it in the
  table of channels under that number, and announces the number to the client when the control
  queue has room.
\<close>

theorem server_association_announced:
  assumes "struc_laws (se_struc env)" "server_reachable env s" "turn_free s" "untracked s a b"
    and "length (ch_buf (TxToClient s)) < ch_cap (TxToClient s)"
  shows "\<exists>s' ch. trackConnection env s a b = Ok s' \<and> ch \<noteq> 0 \<and> TrackedRemoteAddr s ch = None \<and>
    TrackedRemoteAddr s' = (TrackedRemoteAddr s)(ch \<mapsto> \<lparr>ra_RemoteAddr = b, ra_LocalAddr = a\<rparr>) \<and>
    ch_buf (TxToClient s') = ch_buf (TxToClient s) @ [associate_message (se_struc env) a b ch]"
proof -
  obtain s' ch where "isConnectionTracked env s a b True = Ok (s', False, ch)" "ch \<noteq> 0"
    "TrackedRemoteAddr s ch = None"
    "TrackedRemoteAddr s' = (TrackedRemoteAddr s)(ch \<mapsto> \<lparr>ra_RemoteAddr = b, ra_LocalAddr = a\<rparr>)"
    "TxToClient s' = fst (chan_try_send (TxToClient s) (associate_message (se_struc env) a b ch))"
    using isConnectionTracked_fresh [OF assms(1) server_reachable_inv [OF assms(2)] assms(3,4)] by metis
  then show ?thesis using assms(5)
    by (intro exI [of _ s'] exI [of _ ch]) (simp add: trackConnection_def chan_try_send_def)
qed

text \<open>
  An announcement that finds the control queue full is lost: the association counts as being
  tracked from then on, and no later request announces it again, so that its traffic stays on the
  control channel for as long as the association is kept.
\<close>

theorem server_lost_announcement_not_repeated:
  assumes "struc_laws (se_struc env)" "server_reachable env s" "turn_free s" "untracked s a b"
    and "\<not> length (ch_buf (TxToClient s)) < ch_cap (TxToClient s)"
  shows "\<exists>s'. trackConnection env s a b = Ok s' \<and> TxToClient s' = TxToClient s \<and>
    (\<forall>s'' env'. ClientLogicConnection s'' (udp_string a) \<noteq> None \<longrightarrow>
       tracked_at s'' (udp_string a) (udp_string b) = tracked_at s' (udp_string a) (udp_string b) \<longrightarrow>
       (\<exists>s3 ch. isConnectionTracked env' s'' a b True = Ok (s3, False, ch) \<and> TxToClient s3 = TxToClient s''))"
proof -
  obtain s' ch r where s': "isConnectionTracked env s a b True = Ok (s', False, ch)"
    "TxToClient s' = fst (chan_try_send (TxToClient s) (associate_message (se_struc env) a b ch))"
    "tracked_at s' (udp_string a) (udp_string b) = Some r" "tc_Tracking r" "\<not> tc_Tracked r"
    using isConnectionTracked_fresh [OF assms(1) server_reachable_inv [OF assms(2)] assms(3,4)] by metis
  have "\<exists>s3 ch. isConnectionTracked env' s'' a b True = Ok (s3, False, ch) \<and> TxToClient s3 = TxToClient s''"
    if k: "ClientLogicConnection s'' (udp_string a) \<noteq> None"
      and r: "tracked_at s'' (udp_string a) (udp_string b) = Some r" for s'' env'
  proof -
    obtain t where "ClientLogicConnection s'' (udp_string a) = Some t" using k by blast
    then show ?thesis using r s'(4,5)
      by (simp add: isConnectionTracked_def Load_def Let_def tracked_or_new_at)
  qed
  with s' assms(5) show ?thesis
    by (intro exI [of _ s']) (simp add: trackConnection_def chan_try_send_def)
qed

text \<open>
  Once the client has confirmed the channel of an association, what the remote sends goes into
  the data queue under that channel, not through the control channel.
\<close>

theorem server_confirmed_association_uses_channel:
  assumes "struc_laws (se_struc env)" "associate_header_ok v6 h"
    and "tracked_at s (udp_string (associate_source h)) (udp_string (associate_dest h)) = Some r"
    and "tc_Channel r = ah_Channel h"
  shows "\<exists>s1 s2. RxFromClientWorker_step env s (associate_done_message (se_struc env) v6 h) = Ok s1 \<and>
    txToClient env s1 p (associate_source h) (associate_dest h) = Ok s2 \<and>
    TxToClient s2 = TxToClient s \<and>
    ch_buf (TxToClientData s2) = ch_buf (TxToClientData s) @ [mk_traffic (ah_Channel h) p]"
proof -
  obtain t where t: "ClientLogicConnection s (udp_string (associate_source h)) = Some t"
    using assms(3) by (auto simp: tracked_at_def split: option.splits)
  let ?s1 = "set_tracked (udp_string (associate_source h)) (udp_string (associate_dest h)) (r\<lparr>tc_Tracked := True\<rparr>) s"
  show ?thesis
    using step_associate_done [OF assms(1,2) t assms(3,4)] assms(4) t
      txToClient_tracked [of ?s1 "associate_source h" "associate_dest h" "r\<lparr>tc_Tracked := True\<rparr>" env p]
    by auto
qed


section \<open>Examples of associations\<close>

text \<open>The server after its first datagram; \<open>cap\<close> is the capacity of the control queue.\<close>

definition ex_other :: udp_addr where
  "ex_other = mk_addr [9, 9, 9, 9] 53"

definition ex_served :: "nat \<Rightarrow> UDPServerContext" where
  "ex_served cap = \<lparr>
     TrackedRemoteAddr = [1 \<mapsto> \<lparr>ra_RemoteAddr = send_dest ex_header, ra_LocalAddr = send_source ex_header\<rparr>],
     ClientLogicConnection = [udp_string (send_source ex_header) \<mapsto>
       \<lparr>lc_LocalAddr = send_source ex_header, lc_TrackedConnection = [udp_string (send_dest ex_header) \<mapsto>
          \<lparr>tc_Tracking = True, tc_TrackPending = 0 < cap, tc_Tracked = False, tc_Channel = 1\<rparr>],
        lc_lock = False, lc_Conn = Some 7, lc_LastSeen = 0, lc_NoWait = True\<rparr>],
     TxToClient = fst (chan_try_send (make_chan cap)
        (associate_message struc_be (send_source ex_header) (send_dest ex_header) 1)),
     TxToClientData = make_chan 4,
     ChannelNumberGenerator = NewChannelNumberFinder 0 0\<lparr>LastAllocatedNumber := 1\<rparr>,
     UDPTimeoutTime = 1200, SocketWrites = [(7, [1, 2, 3], send_dest ex_header)],
     Listeners = [udp_string (send_source ex_header)]\<rparr>"

lemma ex_first_number: "FindNext (\<lambda>_. False) (NewChannelNumberFinder 0 0) =
     Some (1, NewChannelNumberFinder 0 0\<lparr>LastAllocatedNumber := 1\<rparr>)"
  by (simp add: FindNext_def NewChannelNumberFinder_def findNextRaw.simps)
lemma ex_served_step:
  "RxFromClientWorker_step ex_env (UDPServer cap 4 None)
     (send_message struc_be False ex_header) = Ok (ex_served cap)"
proof -
  have "ua_Port (send_dest ex_header) = 53" by (simp add: send_dest_def ex_header_def)
  moreover have "struc_laws (se_struc ex_env)" by (simp add: struc_be_laws)
  note L = this ex_simps(4)
  have "IsChannelUsed s = (\<lambda>_. False)" if "TrackedRemoteAddr s = Map.empty" for s
    using that by (simp add: IsChannelUsed_eq)
  ultimately have "RxFromClientWorker_step ex_env (UDPServer cap 4 None)
      (send_message (se_struc ex_env) False ex_header)
     = Ok (ex_served cap)"
    unfolding step_send_message [OF L] on_control_send_def unpack_send_message [OF L] Let_def
      send_source_def [symmetric] send_dest_def [symmetric] dialled_def [symmetric]
    by (auto simp: UDPServer_def LoadOrStore_def new_logic_conn_def upd_logic_def new_tracked_def
      trackConnection_def isConnectionTracked_def Load_def Let_def tracked_or_new_def set_tracked_def ex_first_number
      announce_result [OF L(1)] chan_try_send_def ex_served_def)
  then show ?thesis by simp
qed
lemma ex_other_differs:
  "udp_string (send_dest ex_header) \<noteq> udp_string ex_other"
  by (simp add: udp_string_def ex_other_def send_dest_def ex_header_def ip_string_def
      show_base.simps digit_def JoinHostPort_def Let_def char_of_def)

lemma ex_served_reachable: "server_reachable ex_env (ex_served cap)"
proof (rule server_reachable.step [OF server_reachable.init])
  show "server_step ex_env (UDPServer cap 4 None) (ex_served cap)"
    by (rule server_step.from_client [OF _ ex_served_step])
      (simp add: turn_free_def turn_ok_def UDPServer_def NewChannelNumberFinder_def)
qed

lemma ex_served_turn: "turn_free (ex_served cap)"
  by (simp add: turn_free_def turn_ok_def ex_served_def NewChannelNumberFinder_def)

lemma ex_served_untracked: "untracked (ex_served cap) (send_source ex_header) ex_other"
  using ex_other_differs by (auto simp: untracked_def tracked_at_def ex_served_def)

lemma ex_laws: "struc_laws (se_struc ex_env)"
  by (simp add: struc_be_laws)

theorem server_association_announced_witness:
  "\<exists>s' ch. trackConnection ex_env (ex_served 4) (send_source ex_header) ex_other = Ok s' \<and>
     TrackedRemoteAddr (ex_served 4) ch = None \<and> TrackedRemoteAddr s' ch \<noteq> None \<and>
     length (ch_buf (TxToClient s')) = 2"
proof -
  have "length (ch_buf (TxToClient (ex_served 4))) = 1" "ch_cap (TxToClient (ex_served 4)) = 4"
    by (simp_all add: ex_served_def chan_try_send_def)
  then show ?thesis
    using server_association_announced [OF ex_laws ex_served_reachable ex_served_turn ex_served_untracked, of 4]
    by fastforce
qed

theorem server_lost_announcement_not_repeated_witness:
  "\<exists>s'. trackConnection ex_env (ex_served 1) (send_source ex_header) ex_other = Ok s' \<and>
        TxToClient s' = TxToClient (ex_served 1)"
proof -
  have "\<not> length (ch_buf (TxToClient (ex_served 1))) < ch_cap (TxToClient (ex_served 1))"
    by (simp add: ex_served_def chan_try_send_def)
  then show ?thesis
    using server_lost_announcement_not_repeated
      [OF ex_laws ex_served_reachable ex_served_turn ex_served_untracked, of 1] by auto
qed

definition ex_confirm :: AssociateHeader where
  "ex_confirm = \<lparr>ah_SourceIP = [10, 0, 0, 2], ah_DestIP = [8, 8, 8, 8], ah_SourcePort = 5000,
     ah_DestPort = 53, ah_Channel = 1\<rparr>"

lemma ex_confirm_simps [simp]:
  "associate_source ex_confirm = send_source ex_header" "associate_dest ex_confirm = send_dest ex_header"
  "associate_header_ok False ex_confirm" "ah_Channel ex_confirm = 1"
  by (simp_all add: ex_confirm_def ex_header_def associate_source_def send_source_def
      associate_dest_def send_dest_def associate_header_ok_def)

lemma ex_served_tracked:
  "\<exists>r. tracked_at (ex_served cap) (udp_string (associate_source ex_confirm)) (udp_string (associate_dest ex_confirm)) = Some r \<and>
       tc_Channel r = ah_Channel ex_confirm"
  by (simp add: ex_served_def tracked_at_def)

theorem server_confirmed_association_uses_channel_witness:
  "\<exists>s1 s2. RxFromClientWorker_step ex_env (ex_served 4) (associate_done_message struc_be False ex_confirm) = Ok s1 \<and>
     txToClient ex_env s1 [5, 6] (send_source ex_header) (send_dest ex_header) = Ok s2 \<and>
     ch_buf (TxToClientData s2) = [mk_traffic 1 [5, 6]]"
proof -
  obtain r where "tracked_at (ex_served 4) (udp_string (associate_source ex_confirm))
      (udp_string (associate_dest ex_confirm)) = Some r" "tc_Channel r = ah_Channel ex_confirm"
    using ex_served_tracked by blast
  moreover have "ch_buf (TxToClientData (ex_served 4)) = []" by (simp add: ex_served_def)
  ultimately show ?thesis
    using server_confirmed_association_uses_channel [OF ex_laws ex_confirm_simps(3), of "ex_served 4" r "[5, 6]"]
    by auto
qed


section \<open>Properties of the tables\<close>



text \<open>
  Data that a remote sends on an association with a channel is put into the data queue under a
  channel that the server's table maps to exactly this local socket and this remote.
\<close>

theorem server_data_channel_routes_back:
  assumes "server_reachable env s" "turn_free s"
    and "txToClient env s p a b = Ok s'" "ch_buf (TxToClientData s') = ch_buf (TxToClientData s) @ [m]"
    and "tr_Channel m \<noteq> 0"
  shows "tr_Payload m = p \<and> TxToClient s' = TxToClient s \<and>
    (\<exists>ra. TrackedRemoteAddr s' (tr_Channel m) = Some ra \<and> udp_string (ra_LocalAddr ra) = udp_string a \<and>
              udp_string (ra_RemoteAddr ra) = udp_string b)"
proof -
  have inv: "server_inv s" using assms(1) by (rule server_reachable_inv)
  obtain s1 tracked ch where q: "isConnectionTracked env s a b True = Ok (s1, tracked, ch)"
    using assms(3) by (auto simp: txToClient_def)
  have d: "TxToClientData s1 = TxToClientData s" "tracked \<Longrightarrow> TxToClient s1 = TxToClient s"
    using q by (cases rule: isConnectionTracked_cases; auto simp: server_invD(4) [OF inv] split: option.splits)+
  have tr: "tracked" using assms(3,4) q d by (auto simp: txToClient_def Let_def split: if_splits)
  then have s': "s' = s1\<lparr>TxToClientData := chan_send (TxToClientData s1) (mk_traffic ch p)\<rparr>"
    using assms(3) q by (simp add: txToClient_def)
  then have m: "m = mk_traffic ch p" using assms(4) d by simp
  with server_tracked_channel [OF inv] q tr assms(5) s' d show ?thesis by fastforce
qed


lemma ex_confirmed:
  obtains s1 where "server_reachable ex_env s1" "turn_free s1"
    "ClientLogicConnection s1 (udp_string (send_source ex_header)) \<noteq> None"
    "\<exists>r. tracked_at s1 (udp_string (send_source ex_header)) (udp_string (send_dest ex_header)) = Some r \<and>
         tc_Tracked r \<and> tc_Channel r = 1"
    "ch_buf (TxToClientData s1) = []"
proof -
  obtain r where r: "tracked_at (ex_served 4) (udp_string (associate_source ex_confirm))
      (udp_string (associate_dest ex_confirm)) = Some r" "tc_Channel r = ah_Channel ex_confirm"
    using ex_served_tracked by blast
  obtain t where t: "ClientLogicConnection (ex_served 4) (udp_string (associate_source ex_confirm)) = Some t"
    using r by (auto simp: tracked_at_def split: option.splits)
  let ?s1 = "set_tracked (udp_string (associate_source ex_confirm)) (udp_string (associate_dest ex_confirm))
     (r\<lparr>tc_Tracked := True\<rparr>) (ex_served 4)"
  have "server_step ex_env (ex_served 4) ?s1"
    using step_associate_done [OF ex_laws ex_confirm_simps(3) t r] ex_served_turn server_step.from_client by blast
  then have "server_reachable ex_env ?s1" using ex_served_reachable server_reachable.step by blast
  moreover have "turn_free ?s1" using ex_served_turn [of 4] by (simp add: turn_free_def)
  moreover have "ClientLogicConnection ?s1 (udp_string (send_source ex_header)) \<noteq> None" using t by auto
  moreover have "ch_buf (TxToClientData ?s1) = []" by (simp add: ex_served_def)
  ultimately show ?thesis using r(2) t by (intro that [of ?s1]) auto
qed

theorem server_data_channel_routes_back_witness:
  "\<exists>s s' ra. server_reachable ex_env s \<and>
     txToClient ex_env s [5] (send_source ex_header) (send_dest ex_header) = Ok s' \<and>
     ch_buf (TxToClientData s') = [mk_traffic 1 [5]] \<and> TrackedRemoteAddr s' 1 = Some ra \<and>
     udp_string (ra_RemoteAddr ra) = udp_string (send_dest ex_header)"
proof -
  obtain s1 r where s1: "server_reachable ex_env s1" "turn_free s1"
    "ClientLogicConnection s1 (udp_string (send_source ex_header)) \<noteq> None"
    "tracked_at s1 (udp_string (send_source ex_header)) (udp_string (send_dest ex_header)) = Some r"
    "tc_Tracked r" "tc_Channel r = 1" "ch_buf (TxToClientData s1) = []"
    using ex_confirmed by metis
  obtain s' where s': "txToClient ex_env s1 [5] (send_source ex_header) (send_dest ex_header) = Ok s'"
    "ch_buf (TxToClientData s') = ch_buf (TxToClientData s1) @ [mk_traffic 1 [5]]"
    using txToClient_tracked [OF s1(3,4,5), of ex_env "[5]"] s1(6) by auto
  show ?thesis
    using server_data_channel_routes_back [OF s1(1,2) s'] s' s1 by auto
qed

end
