(* ===== verification/ClientWorker.thy ===== *)
theory ClientWorker
  imports Wire ServerWorker
begin

text \<open>
  The UDP relay of the client, \<open>workers/client/clientWorker.go\<close> and \<open>boosting.go\<close>, with the quality
  estimator \<open>transport/transportQuality/est.go\<close>.

  The context holds the two tables of associations, the queues towards the server and towards the
  local network, and the state of the ping routine. Times are integers in nanoseconds, the unit of
  Go's clock; a handler that reads the clock takes the readings as arguments. What a handler asks
  of other parts (a new handshake) is logged. The values of the two tables do not change after they
  are stored, so the tables hold the values themselves.
\<close>

section \<open>State\<close>

record UDPPacket =
  up_Source :: udp_addr
  up_Dest :: udp_addr
  up_Payload :: bytes

record UDPClientTrackedAddrKey =
  ck_Source :: udp_addr
  ck_Dest :: udp_addr

definition Key :: "UDPClientTrackedAddrKey \<Rightarrow> string" where
  "Key k = udp_string (ck_Source k) @ udp_string (ck_Dest k)"

record UDPClientContext =
  TrackedChannel :: "u16 \<rightharpoonup> UDPClientTrackedAddrKey"
  TrackedAddr :: "string \<rightharpoonup> u16"
  TxToServer :: "TrafficWithChannelTag chan"
  TxToServerData :: "TrafficWithChannelTag chan"
  LocalTxToTun :: "UDPPacket chan"
  LastPongRecv :: int
  pingSeq :: u64
  lastPing :: PingHeader
  isBoosted :: bool
  isAggressivePingRequested :: bool
  Handshakes :: "bool list"

record client_env =
  ce_struc :: struc_lib
  ce_stats :: "(u64 \<times> u64) option"
  ce_disable_quit :: bool

definition zero_ping :: PingHeader where
  "zero_ping = \<lparr>pg_Seq = 0, pg_Seq2 = 0, pg_SentPacket = 0, pg_RecvPacket = 0\<rparr>"

definition UDPClient :: "nat \<Rightarrow> nat \<Rightarrow> nat \<Rightarrow> int \<Rightarrow> UDPClientContext" where
  "UDPClient cap capData capTun now =
     \<lparr>TrackedChannel = Map.empty, TrackedAddr = Map.empty, TxToServer = make_chan cap,
      TxToServerData = make_chan capData, LocalTxToTun = make_chan capTun, LastPongRecv = now,
      pingSeq = 0, lastPing = zero_ping, isBoosted = False, isAggressivePingRequested = False,
      Handshakes = []\<rparr>"

section \<open>Traffic from the server\<close>

text \<open>
  The handlers for IPv4 and IPv6 have the same body over different headers. A command that does
  not parse is only logged: the handler goes on with what \<open>Unpack\<close> left in the struct.
\<close>

definition on_send :: "layout \<Rightarrow> client_env \<Rightarrow> UDPClientContext \<Rightarrow> bytes \<Rightarrow> UDPClientContext" where
  "on_send layout env s reader =
     (let h = SendHeader_of (fst (snd (struc_Unpack (ce_struc env) layout reader)))
      in s\<lparr>LocalTxToTun := chan_send (LocalTxToTun s)
             \<lparr>up_Source = mk_addr (sh_SourceIP h) (uint (sh_SourcePort h)),
              up_Dest = mk_addr (sh_DestIP h) (uint (sh_DestPort h)),
              up_Payload = sh_Payload h\<rparr>\<rparr>)"

definition rxFromServerWorker_OnControlSend :: "client_env \<Rightarrow> UDPClientContext \<Rightarrow> bytes \<Rightarrow> UDPClientContext" where
  "rxFromServerWorker_OnControlSend = on_send SendHeader_layout"

definition rxFromServerWorker_OnControlSendV6 :: "client_env \<Rightarrow> UDPClientContext \<Rightarrow> bytes \<Rightarrow> UDPClientContext" where
  "rxFromServerWorker_OnControlSendV6 = on_send SendV6Header_layout"

definition on_associate :: "layout \<Rightarrow> byte \<Rightarrow> client_env \<Rightarrow> UDPClientContext \<Rightarrow> bytes \<Rightarrow> UDPClientContext" where
  "on_associate layout answer env s reader =
     (let S = ce_struc env;
          h = AssociateHeader_of (fst (snd (struc_Unpack S layout reader)));
          key = \<lparr>ck_Source = mk_addr (ah_SourceIP h) (uint (ah_SourcePort h)),
                 ck_Dest = mk_addr (ah_DestIP h) (uint (ah_DestPort h))\<rparr>
      in s\<lparr>TrackedAddr := Store (TrackedAddr s) (Key key) (ah_Channel h),
           TrackedChannel := Store (TrackedChannel s) (ah_Channel h) key,
           TxToServer := chan_send (TxToServer s)
             (mk_traffic 0 (packed S CommandHeader_layout (CommandHeader_vals answer)
                            @ packed S layout (AssociateHeader_vals h)))\<rparr>)"

definition rxFromServerWorker_OnControlAssociate :: "client_env \<Rightarrow> UDPClientContext \<Rightarrow> bytes \<Rightarrow> UDPClientContext" where
  "rxFromServerWorker_OnControlAssociate = on_associate AssociateHeader_layout CommandByte_AssociateDone"

definition rxFromServerWorker_OnControlAssociateV6 :: "client_env \<Rightarrow> UDPClientContext \<Rightarrow> bytes \<Rightarrow> UDPClientContext" where
  "rxFromServerWorker_OnControlAssociateV6 = on_associate AssociateV6Header_layout CommandByte_AssociateDoneV6"

definition rxFromServerWorker_OnControlChannelDestroy :: "client_env \<Rightarrow> UDPClientContext \<Rightarrow> bytes \<Rightarrow> UDPClientContext" where
  "rxFromServerWorker_OnControlChannelDestroy env s reader =
     (let ch = DataHeader_of (fst (snd (struc_Unpack (ce_struc env) AssociateChannelDestroy_layout reader)))
      in case Load (TrackedChannel s) ch of
           None \<Rightarrow> s
         | Some k \<Rightarrow> s\<lparr>TrackedAddr := Delete (TrackedAddr s) (Key k),
                       TrackedChannel := Delete (TrackedChannel s) ch\<rparr>)"

definition rxFromServerWorker_Data :: "UDPClientContext \<Rightarrow> bytes \<Rightarrow> u16 \<Rightarrow> UDPClientContext" where
  "rxFromServerWorker_Data s p channel =
     (case Load (TrackedChannel s) channel of
        None \<Rightarrow> s
      | Some k \<Rightarrow> s\<lparr>LocalTxToTun := chan_send (LocalTxToTun s)
                       \<lparr>up_Source = ck_Dest k, up_Dest = ck_Source k, up_Payload = p\<rparr>\<rparr>)"

text \<open>
  The estimator: a pong that does not answer the last ping is ignored, another one yields the
  round-trip time in nanoseconds that is reported (with wrap-around of the unsigned difference).
\<close>

definition OnReceivePong :: "int \<Rightarrow> PingHeader \<Rightarrow> PingHeader \<Rightarrow> u64 option" where
  "OnReceivePong now lst pong =
     (if pg_Seq pong \<noteq> pg_Seq lst then None else Some (word_of_int now - pg_Seq2 lst))"

definition rxFromServerWorker_OnControlPong :: "client_env \<Rightarrow> int \<Rightarrow> UDPClientContext \<Rightarrow> bytes \<Rightarrow> u64 option" where
  "rxFromServerWorker_OnControlPong env now s reader =
     OnReceivePong now (lastPing s) (PingHeader_of (fst (snd (struc_Unpack (ce_struc env) PingHeader_layout reader))))"

text \<open>One iteration of \<open>RxFromServerWorker\<close> on a message.\<close>

definition RxFromServerWorker_step ::
  "client_env \<Rightarrow> int \<Rightarrow> UDPClientContext \<Rightarrow> TrafficWithChannelTag \<Rightarrow> UDPClientContext" where
  "RxFromServerWorker_step env now s traffic =
     (if tr_Channel traffic = 0
      then case struc_Unpack (ce_struc env) CommandHeader_layout (tr_Payload traffic) of
             (ok, vs, payloadData) \<Rightarrow>
               if \<not> ok then s
               else let c = CommandHeader_of vs
                    in if c = CommandByte_Send then rxFromServerWorker_OnControlSend env s payloadData
                       else if c = CommandByte_SendV6 then rxFromServerWorker_OnControlSendV6 env s payloadData
                       else if c = CommandByte_Associate then rxFromServerWorker_OnControlAssociate env s payloadData
                       else if c = CommandByte_AssociateV6 then rxFromServerWorker_OnControlAssociateV6 env s payloadData
                       else if c = CommandByte_ChannelDestroy
                         then rxFromServerWorker_OnControlChannelDestroy env s payloadData
                       else if c = CommandByte_Pong then s\<lparr>LastPongRecv := now\<rparr>
                       else s
      else rxFromServerWorker_Data s (tr_Payload traffic) (tr_Channel traffic))"

definition AggressivePingBegin :: "UDPClientContext \<Rightarrow> UDPClientContext" where
  "AggressivePingBegin s = s\<lparr>isAggressivePingRequested := True\<rparr>"

text \<open>The branch of the same loop for its timer: one second without traffic.\<close>

definition RxFromServerWorker_idle :: "UDPClientContext \<Rightarrow> UDPClientContext" where
  "RxFromServerWorker_idle s = (if \<not> isBoosted s then s else AggressivePingBegin s)"

section \<open>Traffic to the server\<close>

definition txToServerWorker :: "client_env \<Rightarrow> UDPClientContext \<Rightarrow> UDPPacket \<Rightarrow> UDPClientContext" where
  "txToServerWorker env s pack =
     (case Load (TrackedAddr s) (Key \<lparr>ck_Source = up_Source pack, ck_Dest = up_Dest pack\<rparr>) of
        Some channel \<Rightarrow>
          s\<lparr>TxToServerData := chan_send (TxToServerData s) (mk_traffic channel (up_Payload pack))\<rparr>
      | None \<Rightarrow>
          (let S = ce_struc env;
               v4 = (To4 (ua_IP (up_Source pack)) \<noteq> None \<and> To4 (ua_IP (up_Dest pack)) \<noteq> None);
               conv = (if v4 then IPv4AddrToByte else IPv6AddrToByte);
               send = \<lparr>sh_SourceIP = conv (ua_IP (up_Source pack)), sh_DestIP = conv (ua_IP (up_Dest pack)),
                       sh_SourcePort = word_of_int (ua_Port (up_Source pack)),
                       sh_DestPort = word_of_int (ua_Port (up_Dest pack)),
                       sh_Payload = up_Payload pack\<rparr>;
               command = (if v4 then CommandByte_Send else CommandByte_SendV6);
               layout = (if v4 then SendHeader_layout else SendV6Header_layout)
           in s\<lparr>TxToServer := chan_send (TxToServer s)
                  (mk_traffic 0 (packed S CommandHeader_layout (CommandHeader_vals command)
                                 @ packed S layout (SendHeader_vals send)))\<rparr>))"

section \<open>Pings and boosting\<close>

definition sendPing :: "client_env \<Rightarrow> int \<Rightarrow> UDPClientContext \<Rightarrow> UDPClientContext" where
  "sendPing env now s =
     (let S = ce_struc env;
          ping = \<lparr>pg_Seq = pingSeq s + 1, pg_Seq2 = word_of_int now,
                  pg_SentPacket = (case ce_stats env of None \<Rightarrow> 0 | Some (sent, _) \<Rightarrow> sent),
                  pg_RecvPacket = (case ce_stats env of None \<Rightarrow> 0 | Some (_, recv) \<Rightarrow> recv)\<rparr>
      in s\<lparr>pingSeq := pingSeq s + 1, lastPing := ping,
           TxToServer := fst (chan_try_send (TxToServer s)
             (mk_traffic 0 (packed S CommandHeader_layout (CommandHeader_vals CommandByte_Ping)
                            @ packed S PingHeader_layout (PingHeader_vals ping))))\<rparr>)"

text \<open>The local variables of \<open>pingRoutine\<close>, and one tick of its half-second timer.\<close>

record ping_loop =
  LastReconnect :: int
  pl_tl :: int
  isAggressivePingInProcess :: bool

datatype 'a tick = Running 'a | Exited

definition pingRoutine_tick ::
  "client_env \<Rightarrow> int \<Rightarrow> int \<Rightarrow> ping_loop \<Rightarrow> UDPClientContext \<Rightarrow> (ping_loop \<times> UDPClientContext) tick" where
  "pingRoutine_tick env timenow now l s =
     (let sec = 1000000000;
          t = timenow - LastPongRecv s;
          ping0 = (t > 5 * sec);
          late = (t > 10 * sec \<or> isAggressivePingInProcess l \<and> t > 1600000000 + pl_tl l);
          reconnect = (late \<and> now - LastReconnect l > 6 * sec);
          s1 = (if reconnect then s\<lparr>Handshakes := Handshakes s @ [now - LastReconnect l < 10 * sec]\<rparr> else s);
          l1 = (if reconnect then l\<lparr>LastReconnect := now\<rparr> else l);
          l2 = (if late then l1\<lparr>isAggressivePingInProcess := False\<rparr> else l1);
          l3 = (if isAggressivePingInProcess l2 \<and> t \<le> 1600000000 + pl_tl l2
                then l2\<lparr>isAggressivePingInProcess := False\<rparr> else l2);
          ping1 = (ping0 \<or> isAggressivePingInProcess l3);
          requested = isAggressivePingRequested s1;
          l4 = (if requested then l3\<lparr>isAggressivePingInProcess := True, pl_tl := t\<rparr> else l3);
          s2 = (if requested then s1\<lparr>isAggressivePingRequested := False\<rparr> else s1);
          ping2 = (ping1 \<or> requested)
      in if t > 180 * sec \<and> \<not> ce_disable_quit env then Exited
         else Running (l4, if ping2 then sendPing env now s2 else s2))"

text \<open>
  One iteration of \<open>boostWorker\<close>. Its timer is the time at which the boost ends; an event is a
  request to boost (enable, time-out in seconds) at a time, or the firing of the timer.
\<close>

datatype boost_event = BoostInfo bool int | BoostTimer

definition boostWorker_step ::
  "int \<Rightarrow> boost_event \<Rightarrow> bool \<times> int option \<Rightarrow> UDPClientContext \<Rightarrow> (bool \<times> int option) \<times> UDPClientContext" where
  "boostWorker_step now ev st s =
     (let (boosting, timer) = st;
          (boosting', timer') = (case ev of
             BoostInfo enable timeout \<Rightarrow>
               if enable then (True, Some (now + timeout * 1000000000)) else (boosting, timer)
           | BoostTimer \<Rightarrow> (False, None))
      in ((boosting', timer'), s\<lparr>isBoosted := boosting'\<rparr>))"


section \<open>Facts on the handlers\<close>

definition associate_v4 :: "udp_addr \<Rightarrow> udp_addr \<Rightarrow> bool" where
  "associate_v4 a b \<longleftrightarrow> To4 (ua_IP a) \<noteq> None \<and> To4 (ua_IP b) \<noteq> None"

text \<open>The header that announces (or confirms) the channel of a pair of addresses.\<close>

definition associate_header :: "udp_addr \<Rightarrow> udp_addr \<Rightarrow> u16 \<Rightarrow> AssociateHeader" where
  "associate_header a b n =
     (let conv = (if associate_v4 a b then IPv4AddrToByte else IPv6AddrToByte)
      in \<lparr>ah_SourceIP = conv (ua_IP a), ah_DestIP = conv (ua_IP b),
          ah_SourcePort = word_of_int (ua_Port a), ah_DestPort = word_of_int (ua_Port b), ah_Channel = n\<rparr>)"

lemma client_on_announcement:
  assumes S: "struc_laws (ce_struc env)"
    and h: "length (ah_SourceIP h) = (if v6 then 16 else 4)" "length (ah_DestIP h) = (if v6 then 16 else 4)"
  defines "key \<equiv> \<lparr>ck_Source = mk_addr (ah_SourceIP h) (uint (ah_SourcePort h)),
                  ck_Dest = mk_addr (ah_DestIP h) (uint (ah_DestPort h))\<rparr>"
    and "lay \<equiv> (if v6 then AssociateV6Header_layout else AssociateHeader_layout)"
  shows "RxFromServerWorker_step env now c (mk_traffic 0
       (packed (ce_struc env) CommandHeader_layout
          (CommandHeader_vals (if v6 then CommandByte_AssociateV6 else CommandByte_Associate))
        @ packed (ce_struc env) lay (AssociateHeader_vals h))) =
     c\<lparr>TrackedAddr := Store (TrackedAddr c) (Key key) (ah_Channel h),
       TrackedChannel := Store (TrackedChannel c) (ah_Channel h) key,
       TxToServer := chan_send (TxToServer c) (mk_traffic 0
         (packed (ce_struc env) CommandHeader_layout
            (CommandHeader_vals (if v6 then CommandByte_AssociateDoneV6 else CommandByte_AssociateDone))
          @ packed (ce_struc env) lay (AssociateHeader_vals h)))\<rparr>"
  using S h by (simp add: RxFromServerWorker_step_def rxFromServerWorker_OnControlAssociate_def
      rxFromServerWorker_OnControlAssociateV6_def on_associate_def Let_def key_def lay_def)

section \<open>Properties\<close>

text \<open>
  The key of an association is the concatenation of the two addresses, which does not separate
  them: once the association of one pair has a channel, a packet of another pair whose addresses
  concatenate to the same text goes out on that channel, to the remote of the first pair.
\<close>

theorem client_key_collision:
  assumes "Load (TrackedAddr s) (Key \<lparr>ck_Source = a1, ck_Dest = b1\<rparr>) = Some ch"
    and "a1 = mk_addr [1, 2, 3, 4] 5" "b1 = mk_addr [35, 6, 7, 8] 80"
    and "a2 = mk_addr [1, 2, 3, 4] 53" "b2 = mk_addr [5, 6, 7, 8] 80"
  shows "(a1, b1) \<noteq> (a2, b2) \<and> txToServerWorker env s \<lparr>up_Source = a2, up_Dest = b2, up_Payload = p\<rparr> =
    s\<lparr>TxToServerData := chan_send (TxToServerData s) (mk_traffic ch p)\<rparr>"
proof -
  have k: "Key \<lparr>ck_Source = a2, ck_Dest = b2\<rparr> = Key \<lparr>ck_Source = a1, ck_Dest = b1\<rparr>"
    using assms(2-) by (simp add: Key_def udp_string_def ip_string_def itoa_def show_base.simps digit_def
        JoinHostPort_def Let_def char_of_def)
  show ?thesis using assms(2-) assms(1) [folded k] by (simp add: txToServerWorker_def mk_addr_def)
qed

text \<open>
  An aggressive ping round is over at the next tick of the routine: as long as the ticks come
  less than 1.6 seconds apart and a pong arrived in the last 10 seconds, the tick after a request
  clears the mark without a new handshake, so that a missing answer is not noticed before 10 seconds.
\<close>

theorem aggressive_ping_has_no_effect:
  assumes "pingRoutine_tick env t1 n1 l s = Running (l1, s1)" "isAggressivePingRequested s"
    and "LastPongRecv s \<le> LastPongRecv s2" "\<not> isAggressivePingRequested s2"
    and "t2 - t1 \<le> 1600000000" "t2 - LastPongRecv s2 \<le> 10 * 1000000000"
  shows "isAggressivePingInProcess l1 \<and>
    (\<exists>l2 s3. pingRoutine_tick env t2 n2 l1 s2 = Running (l2, s3) \<and> \<not> isAggressivePingInProcess l2 \<and>
       Handshakes s3 = Handshakes s2)"
proof -
  have l1: "isAggressivePingInProcess l1" "pl_tl l1 = t1 - LastPongRecv s"
    using assms(1,2) by (auto simp: pingRoutine_tick_def Let_def split: if_splits)
  with assms(3-) show ?thesis by (simp add: pingRoutine_tick_def Let_def sendPing_def)
qed

text \<open>
  The client notices a dead connection: when no pong came for more than 10 seconds and the last
  handshake is more than 6 seconds old, a tick sends a ping (with a new sequence number) and asks for
  a new handshake; after 180 seconds the client exits, unless that is disabled.
\<close>

theorem ping_routine_reconnects:
  assumes "timenow - LastPongRecv s > 10 * 1000000000" "now - LastReconnect l > 6 * 1000000000"
  shows "case pingRoutine_tick env timenow now l s of
      Exited \<Rightarrow> timenow - LastPongRecv s > 180 * 1000000000 \<and> \<not> ce_disable_quit env
    | Running (l', s') \<Rightarrow> \<not> (timenow - LastPongRecv s > 180 * 1000000000 \<and> \<not> ce_disable_quit env) \<and>
        LastReconnect l' = now \<and> Handshakes s' = Handshakes s @ [now - LastReconnect l < 10 * 1000000000] \<and>
        pingSeq s' = pingSeq s + 1 \<and> pg_Seq (lastPing s') = pingSeq s'"
  using assms by (simp add: pingRoutine_tick_def Let_def sendPing_def)

theorem ping_routine_reconnects_witness:
  "\<exists>l' s'. pingRoutine_tick \<lparr>ce_struc = struc_be, ce_stats = None, ce_disable_quit = False\<rparr> 11000000000 11000000000
      \<lparr>LastReconnect = 0, pl_tl = 0, isAggressivePingInProcess = False\<rparr> (UDPClient 4 4 4 0) = Running (l', s') \<and>
     Handshakes s' = [False] \<and> pingSeq s' = 1"
  using ping_routine_reconnects [of 11000000000 "UDPClient 4 4 4 0" 11000000000
      "\<lparr>LastReconnect = 0, pl_tl = 0, isAggressivePingInProcess = False\<rparr>"
      "\<lparr>ce_struc = struc_be, ce_stats = None, ce_disable_quit = False\<rparr>"]
  by (auto simp: UDPClient_def split: tick.splits)

theorem client_key_collision_witness:
  "TxToServerData (txToServerWorker \<lparr>ce_struc = struc_be, ce_stats = None, ce_disable_quit = False\<rparr>
      ((UDPClient 4 4 4 0)\<lparr>TrackedAddr := [Key \<lparr>ck_Source = mk_addr [1, 2, 3, 4] 5, ck_Dest = mk_addr [35, 6, 7, 8] 80\<rparr> \<mapsto> 9]\<rparr>)
      \<lparr>up_Source = mk_addr [1, 2, 3, 4] 53, up_Dest = mk_addr [5, 6, 7, 8] 80, up_Payload = [1]\<rparr>) =
   chan_send (make_chan 4) (mk_traffic 9 [1])"
  using client_key_collision [of "(UDPClient 4 4 4 0)\<lparr>TrackedAddr :=
        [Key \<lparr>ck_Source = mk_addr [1, 2, 3, 4] 5, ck_Dest = mk_addr [35, 6, 7, 8] 80\<rparr> \<mapsto> 9]\<rparr>"
      "mk_addr [1, 2, 3, 4] 5" "mk_addr [35, 6, 7, 8] 80" 9 "mk_addr [1, 2, 3, 4] 53" "mk_addr [5, 6, 7, 8] 80"
      "\<lparr>ce_struc = struc_be, ce_stats = None, ce_disable_quit = False\<rparr>" "[1]"]
  by (simp add: Load_def UDPClient_def)

theorem aggressive_ping_has_no_effect_witness:
  "\<exists>l1 s1 l2 s3. pingRoutine_tick \<lparr>ce_struc = struc_be, ce_stats = None, ce_disable_quit = False\<rparr> 2000000000 2000000000
      \<lparr>LastReconnect = - 10000000000, pl_tl = 0, isAggressivePingInProcess = False\<rparr>
      ((UDPClient 4 4 4 0)\<lparr>isAggressivePingRequested := True\<rparr>) = Running (l1, s1) \<and>
     pingRoutine_tick \<lparr>ce_struc = struc_be, ce_stats = None, ce_disable_quit = False\<rparr> 2500000000 2500000000 l1
       (UDPClient 4 4 4 0) = Running (l2, s3) \<and> \<not> isAggressivePingInProcess l2 \<and> Handshakes s3 = []"
proof -
  let ?e = "\<lparr>ce_struc = struc_be, ce_stats = None, ce_disable_quit = False\<rparr>"
    and ?l = "\<lparr>LastReconnect = - 10000000000, pl_tl = 0, isAggressivePingInProcess = False\<rparr>"
    and ?s = "(UDPClient 4 4 4 0)\<lparr>isAggressivePingRequested := True\<rparr>"
  obtain l1 s1 where 1: "pingRoutine_tick ?e 2000000000 2000000000 ?l ?s = Running (l1, s1)"
    by (simp add: pingRoutine_tick_def Let_def UDPClient_def)
  show ?thesis
    using aggressive_ping_has_no_effect [OF 1, of "UDPClient 4 4 4 0" 2500000000 2500000000] 1
    by (auto simp: UDPClient_def)
qed

end
