(* ===== verification/UdpRelay.thy ===== *)
theory UdpRelay
  imports ServerProperties ClientWorker
begin

text \<open>
  The two UDP relays together: an association announced by the server, confirmed by the client,
  and used for data in both directions.
\<close>

section \<open>Addresses on the wire\<close>

text \<open>
  Addresses the headers can carry: a 16-bit port, no zone, an IPv4 address in either form or a
  16-byte address.
\<close>

definition wire_addr :: "udp_addr \<Rightarrow> bool" where
  "wire_addr a \<longleftrightarrow> 0 \<le> ua_Port a \<and> ua_Port a < 65536 \<and> ua_Zone a = [] \<and>
     (length (ua_IP a) = 4 \<or> length (ua_IP a) = 16)"

lemma port_roundtrip: "wire_addr a \<Longrightarrow> uint (word_of_int (ua_Port a) :: u16) = ua_Port a"
  by (simp add: wire_addr_def uint_word_of_int take_bit_eq_mod)

lemma wire_addr_eq: "wire_addr a \<Longrightarrow> a = mk_addr (ua_IP a) (ua_Port a)"
  by (simp add: wire_addr_def mk_addr_def)

lemma udp_string_v4: "wire_addr a \<Longrightarrow> To4 (ua_IP a) \<noteq> None \<Longrightarrow>
  udp_string (mk_addr (IPv4AddrToByte (ua_IP a)) (ua_Port a)) = udp_string a"
proof -
  assume a: "wire_addr a" "To4 (ua_IP a) \<noteq> None"
  then obtain q where q: "To4 (ua_IP a) = Some q" by blast
  have "udp_string a = udp_string (mk_addr (ua_IP a) (ua_Port a))" using wire_addr_eq [OF a(1)] by simp
  also have "\<dots> = udp_string (mk_addr q (ua_Port a))" unfolding mk_addr_def by (rule udp_string_To4 [OF q])
  finally show ?thesis by (simp add: IPv4AddrToByte_To4 [OF q])
qed

lemma udp_string_v6: "wire_addr a \<Longrightarrow>
  udp_string (mk_addr (IPv6AddrToByte (ua_IP a)) (ua_Port a)) = udp_string a"
proof -
  assume a: "wire_addr a"
  consider "length (ua_IP a) = 4" | "length (ua_IP a) = 16" using a by (auto simp: wire_addr_def)
  then show ?thesis
  proof cases
    case 1
    then obtain q where q: "To16 (ua_IP a) = Some q" by (simp add: To16_def)
    have "udp_string (mk_addr q (ua_Port a)) = udp_string (mk_addr (ua_IP a) (ua_Port a))"
      unfolding mk_addr_def by (rule udp_string_To4 [OF To4_To16 [OF 1 q]])
    then show ?thesis using wire_addr_eq [OF a] by (simp add: IPv6AddrToByte_To16 [OF q])
  next
    case 2
    then show ?thesis using wire_addr_eq [OF a] by (simp add: IPv6AddrToByte_To16)
  qed
qed

lemma associate_header_simps [simp]:
  "ah_Channel (associate_header a b n) = n"
  "length (ah_SourceIP (associate_header a b n)) = (if \<not> associate_v4 a b then 16 else 4)"
  "length (ah_DestIP (associate_header a b n)) = (if \<not> associate_v4 a b then 16 else 4)"
  by (simp_all add: associate_header_def Let_def)

lemma associate_header_addresses:
  assumes "wire_addr a" "wire_addr b"
  shows "udp_string (associate_source (associate_header a b n)) = udp_string a"
    "udp_string (associate_dest (associate_header a b n)) = udp_string b"
  using assms by (auto simp: associate_source_def associate_dest_def associate_header_def Let_def port_roundtrip
      udp_string_v4 udp_string_v6 associate_v4_def)

lemma associate_message_eq:
  "associate_message S a b n = mk_traffic 0
     (packed S CommandHeader_layout
        (CommandHeader_vals (if \<not> associate_v4 a b then CommandByte_AssociateV6 else CommandByte_Associate))
      @ packed S (if \<not> associate_v4 a b then AssociateV6Header_layout else AssociateHeader_layout)
          (AssociateHeader_vals (associate_header a b n)))"
  by (auto simp: associate_message_def associate_header_def associate_v4_def Let_def)

text \<open>The client's view of an announcement.\<close>

lemma client_on_associate_message:
  assumes "struc_laws (ce_struc env)"
  shows "RxFromServerWorker_step env now c (associate_message (ce_struc env) a b n) =
     c\<lparr>TrackedAddr := Store (TrackedAddr c) (Key \<lparr>ck_Source = associate_source (associate_header a b n),
           ck_Dest = associate_dest (associate_header a b n)\<rparr>) n,
       TrackedChannel := Store (TrackedChannel c) n \<lparr>ck_Source = associate_source (associate_header a b n),
           ck_Dest = associate_dest (associate_header a b n)\<rparr>,
       TxToServer := chan_send (TxToServer c)
         (associate_done_message (ce_struc env) (\<not> associate_v4 a b) (associate_header a b n))\<rparr>"
  using client_on_announcement [OF assms, of "associate_header a b n" "\<not> associate_v4 a b" now c]
  by (simp add: associate_message_eq associate_done_message_def associate_source_def associate_dest_def)

section \<open>The two sides after the handshake\<close>

text \<open>The server, from the request for a channel to the confirmation.\<close>

lemma relay_server_side:
  assumes S: "struc_laws (se_struc env)" and inv: "server_inv s" and turn: "turn_free s" and u: "untracked s a b"
    and ab: "wire_addr a" "wire_addr b" and conn: "conn_of s (udp_string a) = Some conn"
  obtains s1 s2 ch where "trackConnection env s a b = Ok s1" "ch \<noteq> 0"
    "TxToClient s1 = fst (chan_try_send (TxToClient s) (associate_message (se_struc env) a b ch))"
    "RxFromClientWorker_step env s1
       (associate_done_message (se_struc env) (\<not> associate_v4 a b) (associate_header a b ch)) = Ok s2"
    "\<And>p. RxFromClientWorker_step env s2 (mk_traffic ch p) =
       Ok (s2\<lparr>SocketWrites := SocketWrites s2 @ [(conn, p, b)]\<rparr>)"
    "\<And>p. \<exists>s3. txToClient env s2 p a b = Ok s3 \<and>
       ch_buf (TxToClientData s3) = ch_buf (TxToClientData s2) @ [mk_traffic ch p]"
proof -
  obtain s1 ch r where s1: "isConnectionTracked env s a b True = Ok (s1, False, ch)" "ch \<noteq> 0"
    "TrackedRemoteAddr s1 = (TrackedRemoteAddr s)(ch \<mapsto> \<lparr>ra_RemoteAddr = b, ra_LocalAddr = a\<rparr>)"
    "TxToClient s1 = fst (chan_try_send (TxToClient s) (associate_message (se_struc env) a b ch))"
    and r: "tracked_at s1 (udp_string a) (udp_string b) = Some r" "tc_Channel r = ch"
    using isConnectionTracked_fresh [OF S inv turn u] by metis
  let ?h = "associate_header a b ch"
  obtain t where t: "ClientLogicConnection s1 (udp_string a) = Some t"
    using r by (auto simp: tracked_at_def split: option.splits)
  define s2 where "s2 = set_tracked (udp_string a) (udp_string b) (r\<lparr>tc_Tracked := True\<rparr>) s1"
  have s2: "RxFromClientWorker_step env s1
      (associate_done_message (se_struc env) (\<not> associate_v4 a b) ?h) = Ok s2"
    using step_associate_done [of env "\<not> associate_v4 a b" ?h s1 t r] S t r
    by (simp add: s2_def associate_header_ok_def associate_header_addresses [OF ab])
  have "conn_of s2 (udp_string a) = Some conn"
    using conn isConnectionTracked_frame(3) [OF inv s1(1)] by (simp add: s2_def conn_of_def)
  moreover have "TrackedRemoteAddr s2 ch = Some \<lparr>ra_RemoteAddr = b, ra_LocalAddr = a\<rparr>"
    using s1(3) by (simp add: s2_def)
  ultimately have up: "RxFromClientWorker_step env s2 (mk_traffic ch p) =
      Ok (s2\<lparr>SocketWrites := SocketWrites s2 @ [(conn, p, b)]\<rparr>)" for p
    using s1(2) by (auto simp: RxFromClientWorker_step_def rxFromClientWorker_OnData_def Load_def
        conn_of_eq split: option.splits)
  have "tracked_at s2 (udp_string a) (udp_string b) = Some (r\<lparr>tc_Tracked := True\<rparr>)"
    "ClientLogicConnection s2 (udp_string a) \<noteq> None" using t by (auto simp: s2_def)
  then have tx: "\<exists>s3. txToClient env s2 p a b = Ok s3 \<and>
      ch_buf (TxToClientData s3) = ch_buf (TxToClientData s2) @ [mk_traffic ch p]" for p
    using txToClient_tracked [of s2 a b "r\<lparr>tc_Tracked := True\<rparr>" env p] r(2) by auto
  show ?thesis using s1(1) by (intro that [OF _ s1(2,4) s2 up tx]) (simp add: trackConnection_def)
qed

text \<open>The client after an announcement.\<close>

lemma relay_client_side:
  fixes c :: UDPClientContext and now :: int
  assumes S: "struc_laws (ce_struc cenv)" and ab: "wire_addr a" "wire_addr b" and ch: "ch \<noteq> 0"
  defines "c1 \<equiv> RxFromServerWorker_step cenv now c (associate_message (ce_struc cenv) a b ch)"
  shows "ch_buf (TxToServer c1) = ch_buf (TxToServer c) @
      [associate_done_message (ce_struc cenv) (\<not> associate_v4 a b) (associate_header a b ch)]"
    and "txToServerWorker cenv c1 \<lparr>up_Source = a, up_Dest = b, up_Payload = p\<rparr> =
      c1\<lparr>TxToServerData := chan_send (TxToServerData c1) (mk_traffic ch p)\<rparr>"
    and "\<exists>src dst. ch_buf (LocalTxToTun (RxFromServerWorker_step cenv now' c1 (mk_traffic ch p))) =
           ch_buf (LocalTxToTun c1) @ [\<lparr>up_Source = src, up_Dest = dst, up_Payload = p\<rparr>] \<and>
         udp_string src = udp_string b \<and> udp_string dst = udp_string a"
proof -
  note ad = associate_header_addresses [OF ab, of ch]
  have c1: "c1 = c\<lparr>TrackedAddr := Store (TrackedAddr c) (udp_string a @ udp_string b) ch,
       TrackedChannel := Store (TrackedChannel c) ch \<lparr>ck_Source = associate_source (associate_header a b ch),
         ck_Dest = associate_dest (associate_header a b ch)\<rparr>,
       TxToServer := chan_send (TxToServer c)
         (associate_done_message (ce_struc cenv) (\<not> associate_v4 a b) (associate_header a b ch))\<rparr>"
    using client_on_associate_message [OF S, of now c a b ch] by (simp add: c1_def Key_def ad)
  show "ch_buf (TxToServer c1) = ch_buf (TxToServer c) @
      [associate_done_message (ce_struc cenv) (\<not> associate_v4 a b) (associate_header a b ch)]"
    by (simp add: c1)
  show "txToServerWorker cenv c1 \<lparr>up_Source = a, up_Dest = b, up_Payload = p\<rparr> =
      c1\<lparr>TxToServerData := chan_send (TxToServerData c1) (mk_traffic ch p)\<rparr>"
    by (simp add: txToServerWorker_def c1 Key_def)
  show "\<exists>src dst. ch_buf (LocalTxToTun (RxFromServerWorker_step cenv now' c1 (mk_traffic ch p))) =
           ch_buf (LocalTxToTun c1) @ [\<lparr>up_Source = src, up_Dest = dst, up_Payload = p\<rparr>] \<and>
         udp_string src = udp_string b \<and> udp_string dst = udp_string a"
    using ch ad by (simp add: RxFromServerWorker_step_def rxFromServerWorker_Data_def c1)
qed

section \<open>Properties\<close>

text \<open>
  C1. The handshake of an association works end to end. The server gives the pair of addresses a
  channel and announces it; the client enters it and confirms; the server marks the association as
  tracked. From then on a packet of the client between these addresses travels on that channel and
  leaves the server's socket towards exactly the remote \<open>b\<close>, and what \<open>b\<close> sends travels on the same
  channel and reaches the client's network as a packet from \<open>b\<close> to \<open>a\<close>.
\<close>

theorem relay_association_end_to_end:
  assumes "struc_laws (se_struc env)" "ce_struc cenv = se_struc env"
    and "server_reachable env s" "turn_free s" "untracked s a b"
    and "length (ch_buf (TxToClient s)) < ch_cap (TxToClient s)"
    and "wire_addr a" "wire_addr b" "conn_of s (udp_string a) = Some conn"
  shows "\<exists>s1 c1 s2 ch. trackConnection env s a b = Ok s1 \<and> ch \<noteq> 0 \<and>
    ch_buf (TxToClient s1) = ch_buf (TxToClient s) @ [associate_message (se_struc env) a b ch] \<and>
    RxFromServerWorker_step cenv now c (associate_message (se_struc env) a b ch) = c1 \<and>
    ch_buf (TxToServer c1) = ch_buf (TxToServer c) @
      [associate_done_message (se_struc env) (\<not> associate_v4 a b) (associate_header a b ch)] \<and>
    RxFromClientWorker_step env s1
      (associate_done_message (se_struc env) (\<not> associate_v4 a b) (associate_header a b ch)) = Ok s2 \<and>
    (\<forall>p. txToServerWorker cenv c1 \<lparr>up_Source = a, up_Dest = b, up_Payload = p\<rparr> =
           c1\<lparr>TxToServerData := chan_send (TxToServerData c1) (mk_traffic ch p)\<rparr> \<and>
         RxFromClientWorker_step env s2 (mk_traffic ch p) =
           Ok (s2\<lparr>SocketWrites := SocketWrites s2 @ [(conn, p, b)]\<rparr>)) \<and>
    (\<forall>p. \<exists>s3 src dst. txToClient env s2 p a b = Ok s3 \<and>
         ch_buf (TxToClientData s3) = ch_buf (TxToClientData s2) @ [mk_traffic ch p] \<and>
         ch_buf (LocalTxToTun (RxFromServerWorker_step cenv now c1 (mk_traffic ch p))) =
           ch_buf (LocalTxToTun c1) @ [\<lparr>up_Source = src, up_Dest = dst, up_Payload = p\<rparr>] \<and>
         udp_string src = udp_string b \<and> udp_string dst = udp_string a)"
proof -
  have inv: "server_inv s" using assms(3) by (rule server_reachable_inv)
  obtain s1 s2 ch where s: "trackConnection env s a b = Ok s1" "ch \<noteq> 0"
    "TxToClient s1 = fst (chan_try_send (TxToClient s) (associate_message (se_struc env) a b ch))"
    "RxFromClientWorker_step env s1
       (associate_done_message (se_struc env) (\<not> associate_v4 a b) (associate_header a b ch)) = Ok s2"
    and up: "\<And>p. RxFromClientWorker_step env s2 (mk_traffic ch p) =
       Ok (s2\<lparr>SocketWrites := SocketWrites s2 @ [(conn, p, b)]\<rparr>)"
    and tx: "\<And>p. \<exists>s3. txToClient env s2 p a b = Ok s3 \<and>
       ch_buf (TxToClientData s3) = ch_buf (TxToClientData s2) @ [mk_traffic ch p]"
    using relay_server_side [OF assms(1) inv assms(4,5,7,8,9)] by metis
  let ?c1 = "RxFromServerWorker_step cenv now c (associate_message (se_struc env) a b ch)"
  have S: "struc_laws (ce_struc cenv)" using assms(1,2) by simp
  note cl = relay_client_side [OF S assms(7,8) s(2), where now = now and c = c, unfolded assms(2)]
  have buf: "ch_buf (TxToClient s1) = ch_buf (TxToClient s) @ [associate_message (se_struc env) a b ch]"
    using s(3) assms(6) by (simp add: chan_try_send_def)
  have recv: "\<exists>s3 src dst. txToClient env s2 p a b = Ok s3 \<and>
         ch_buf (TxToClientData s3) = ch_buf (TxToClientData s2) @ [mk_traffic ch p] \<and>
         ch_buf (LocalTxToTun (RxFromServerWorker_step cenv now ?c1 (mk_traffic ch p))) =
           ch_buf (LocalTxToTun ?c1) @ [\<lparr>up_Source = src, up_Dest = dst, up_Payload = p\<rparr>] \<and>
         udp_string src = udp_string b \<and> udp_string dst = udp_string a" for p
    using tx [of p] cl(3) [of now p] by blast
  show ?thesis
    by (rule exI [of _ s1], rule exI [of _ ?c1], rule exI [of _ s2], rule exI [of _ ch])
      (use s up cl(1,2) buf recv in \<open>simp only: simp_thms all_simps\<close>)
qed

theorem relay_association_end_to_end_witness:
  "\<exists>s1 s2 ch. trackConnection ex_env (ex_served 4) (send_source ex_header) ex_other = Ok s1 \<and> ch \<noteq> 0 \<and>
     RxFromClientWorker_step ex_env s2 (mk_traffic ch [1]) =
       Ok (s2\<lparr>SocketWrites := SocketWrites s2 @ [(7, [1], ex_other)]\<rparr>)"
proof -
  let ?ce = "\<lparr>ce_struc = struc_be, ce_stats = None, ce_disable_quit = False\<rparr>"
  have "ce_struc ?ce = se_struc ex_env" by simp
  moreover have "length (ch_buf (TxToClient (ex_served 4))) < ch_cap (TxToClient (ex_served 4))"
    by (simp add: ex_served_def chan_try_send_def)
  moreover have "wire_addr (send_source ex_header)" "wire_addr ex_other"
    by (simp_all add: wire_addr_def send_source_def ex_header_def ex_other_def)
  moreover have "conn_of (ex_served 4) (udp_string (send_source ex_header)) = Some 7"
    by (simp add: conn_of_eq ex_served_def)
  ultimately show ?thesis
    using relay_association_end_to_end [OF ex_laws _ ex_served_reachable ex_served_turn ex_served_untracked,
        of ?ce 4 7 0 "UDPClient 4 4 4 0"] by blast
qed

end
