(* ===== verification/ReedSolomon.thy ===== *)
theory ReedSolomon
  imports Wire
begin

text \<open>
  The erasure code of the packet assembly,
  \<open>transport/udp/errorCorrection/reconstruction/reedSolomon\<close> (\<open>rs.go\<close>, \<open>default.go\<close>).

  A facility collects either the data of one group (\<open>AddData\<close>, then parity shards by
  \<open>ConstructReconstructShard\<close>) or the shards received for it (\<open>AddShard\<close>, then \<open>Reconstruct\<close>).
  A slot of the buffer that is \<open>nil\<close> in Go is \<open>None\<close>. The coding library (\<open>klauspost/reedsolomon\<close>)
  is a parameter, described by \<open>rs_laws\<close> for one pair of shard counts. The main theorem is that
  any \<open>k\<close> of the shards of a group of \<open>k\<close> payloads, at least one of them parity, give all payloads.
\<close>

section \<open>The coding library\<close>

record rs_lib =
  rs_New :: "nat \<Rightarrow> nat \<Rightarrow> bool"
  rs_Encode :: "nat \<Rightarrow> nat \<Rightarrow> bytes option list \<Rightarrow> bytes option list option"
  rs_ReconstructData :: "nat \<Rightarrow> nat \<Rightarrow> bytes option list \<Rightarrow> bytes option list option"

text \<open>
  The documented behaviour: \<open>Encode\<close> fills the parity shards; \<open>ReconstructData\<close> restores the data
  shards when at least as many shards are present as there are data shards.
\<close>

definition all_len :: "nat \<Rightarrow> bytes list \<Rightarrow> bool" where
  "all_len n xs \<longleftrightarrow> (\<forall>x \<in> set xs. length x = n)"

definition rs_code :: "rs_lib \<Rightarrow> nat \<Rightarrow> nat \<Rightarrow> nat \<Rightarrow> bytes list \<Rightarrow> bytes list \<Rightarrow> bool" where
  "rs_code R k m n D P \<longleftrightarrow> length P = m \<and> all_len n P \<and>
     (\<forall>J. length J = m \<longrightarrow> all_len n J \<longrightarrow> rs_Encode R k m (map Some (D @ J)) = Some (map Some (D @ P))) \<and>
     (\<forall>sh. length sh = k + m \<longrightarrow> (\<forall>i < k + m. sh ! i = None \<or> sh ! i = Some ((D @ P) ! i)) \<longrightarrow>
        k \<le> card {i. i < k + m \<and> sh ! i \<noteq> None} \<longrightarrow>
        (\<exists>out. rs_ReconstructData R k m sh = Some out \<and> length out = k + m \<and>
               (\<forall>i < k. out ! i = Some (D ! i))))"

definition rs_laws :: "rs_lib \<Rightarrow> nat \<Rightarrow> nat \<Rightarrow> bool" where
  "rs_laws R k m \<longleftrightarrow> rs_New R k m \<and>
     (\<forall>n D. 0 < n \<longrightarrow> length D = k \<longrightarrow> all_len n D \<longrightarrow> (\<exists>P. rs_code R k m n D P))"

section \<open>The facility\<close>

definition defaultParitySum :: "nat list" where
  "defaultParitySum = [
     4, 7, 8, 9, 11, 12, 13, 14, 15, 16,
     16, 17, 17, 18, 19, 19, 20, 20, 21, 21,
     22, 22, 23, 23, 24, 24, 25, 25, 26, 26,
     27, 27, 27, 27, 28, 28, 28, 28, 29, 29,
     29, 29, 30, 30, 30, 30, 31, 31, 31, 31,
     32, 32, 32, 32, 32, 32, 32, 32, 33, 33,
     33, 33, 33, 33, 33, 33, 34, 34, 34, 34,
     34, 34, 34, 34, 35, 35, 35, 35, 35, 35]"

record RSErrorCorrectionFacility =
  rs_buffer :: "bytes option list"
  rs_DataInput :: nat
  rs_ShardInput :: nat
  rs_TotalDataShards :: int

definition NewRSErrorCorrectionFacility :: RSErrorCorrectionFacility where
  "NewRSErrorCorrectionFacility =
     \<lparr>rs_buffer = [], rs_DataInput = 0, rs_ShardInput = 0, rs_TotalDataShards = 0\<rparr>"

text \<open>Indexing the table out of range panics.\<close>

definition GetParityShardSum :: "int \<Rightarrow> (unit, nat) outcome" where
  "GetParityShardSum datas =
     (if 1 \<le> datas \<and> datas \<le> int (length defaultParitySum)
      then Ok (defaultParitySum ! nat (datas - 1)) else Panic)"

definition MaxShardYieldRemaining :: "RSErrorCorrectionFacility \<Rightarrow> (unit, int) outcome" where
  "MaxShardYieldRemaining r =
     bind_outcome (GetParityShardSum (rs_TotalDataShards r)) (\<lambda>m. Ok (int m - int (rs_ShardInput r)))"

definition RSMessageHeader_layout :: layout where
  "RSMessageHeader_layout = [F_int 2]"

definition RSMessageHeader_vals :: "u16 \<Rightarrow> fval list" where
  "RSMessageHeader_vals l = [sval l]"

definition RSMessageHeader_of :: "fval list \<Rightarrow> u16" where
  "RSMessageHeader_of vs = get_word (vs ! 0)"

text \<open>\<open>append(buffer, make([][]byte, n - len(buffer))...)\<close> when the buffer is shorter than \<open>n\<close>.\<close>

definition grow :: "nat \<Rightarrow> bytes option list \<Rightarrow> bytes option list" where
  "grow n b = b @ replicate (n - length b) None"

definition AddShard ::
  "struc_lib \<Rightarrow> RSErrorCorrectionFacility \<Rightarrow> nat \<Rightarrow> bytes \<Rightarrow> RSErrorCorrectionFacility \<times> bool \<times> bytes option" where
  "AddShard S r0 sid data =
     (let r = r0\<lparr>rs_buffer := grow (sid + 1) (rs_buffer r0)\<rparr>
      in case struc_Unpack S RSMessageHeader_layout data of
           (ok, vs, datafecpayload) \<Rightarrow>
             if \<not> ok then (r, False, None)
             else let Len = RSMessageHeader_of vs
                  in if sint Len \<le> 0
                     then let r1 = r\<lparr>rs_TotalDataShards := sint (- Len)\<rparr>;
                              r2 = (if rs_buffer r1 ! sid = None
                                    then r1\<lparr>rs_buffer := (rs_buffer r1)[sid := Some datafecpayload],
                                            rs_ShardInput := rs_ShardInput r1 + 1\<rparr>
                                    else r1)
                          in (r2, rs_TotalDataShards r2 \<le> int (rs_DataInput r2 + rs_ShardInput r2), None)
                     else let r1 = (if rs_buffer r ! sid = None
                                    then r\<lparr>rs_DataInput := rs_DataInput r + 1,
                                           rs_buffer := (rs_buffer r)[sid := Some data]\<rparr>
                                    else r)
                          in (r1, rs_TotalDataShards r1 \<noteq> 0 \<and>
                                  rs_TotalDataShards r1 \<le> int (rs_DataInput r1 + rs_ShardInput r1),
                              Some datafecpayload))"

definition AddData ::
  "struc_lib \<Rightarrow> RSErrorCorrectionFacility \<Rightarrow> bytes \<Rightarrow> (unit, RSErrorCorrectionFacility \<times> nat \<times> bytes) outcome" where
  "AddData S r data =
     (let thisid = rs_DataInput r;
          buffer = grow (thisid + 1) (rs_buffer r)
      in case struc_Pack S RSMessageHeader_layout (RSMessageHeader_vals (word_of_nat (length data))) of
           None \<Rightarrow> Panic
         | Some h \<Rightarrow> Ok (r\<lparr>rs_buffer := buffer[thisid := Some (h @ data)], rs_DataInput := thisid + 1\<rparr>,
                         thisid, h @ data))"

text \<open>A nil slice has length 0.\<close>

definition slice_len :: "bytes option \<Rightarrow> nat" where
  "slice_len b = (case b of None \<Rightarrow> 0 | Some v \<Rightarrow> length v)"

definition pad_to :: "nat \<Rightarrow> bytes option \<Rightarrow> bytes option" where
  "pad_to n b = Some ((case b of None \<Rightarrow> [] | Some v \<Rightarrow> v) @ replicate (n - slice_len b) 0)"

definition matchsize :: "bool \<Rightarrow> int \<Rightarrow> bytes option list \<Rightarrow> bytes option list" where
  "matchsize skipnil tot buffer =
     (let maxsize = foldl max 0 (map slice_len (if skipnil then buffer else take (nat tot) buffer))
      in map (\<lambda>b. if skipnil \<and> b = None then b else pad_to maxsize b) buffer)"

definition ConstructReconstructShard ::
  "struc_lib \<Rightarrow> rs_lib \<Rightarrow> RSErrorCorrectionFacility \<Rightarrow>
   (unit, RSErrorCorrectionFacility \<times> nat \<times> bytes \<times> bool) outcome" where
  "ConstructReconstructShard S R r0 =
     bind_outcome
       (if rs_TotalDataShards r0 = 0
        then let tot = int (rs_DataInput r0)
             in bind_outcome (GetParityShardSum tot) (\<lambda>m.
                  if \<not> rs_New R (nat tot) m then Panic
                  else case rs_Encode R (nat tot) m
                              (matchsize False tot (rs_buffer r0 @ replicate m None)) of
                         None \<Rightarrow> Panic
                       | Some b \<Rightarrow> Ok (r0\<lparr>rs_TotalDataShards := tot, rs_buffer := b\<rparr>))
        else Ok r0)
       (\<lambda>r. let thisid = nat (rs_TotalDataShards r) + rs_ShardInput r;
                r' = r\<lparr>rs_ShardInput := rs_ShardInput r + 1\<rparr>
            in bind_outcome (GetParityShardSum (rs_TotalDataShards r)) (\<lambda>m.
                 case struc_Pack S RSMessageHeader_layout
                        (RSMessageHeader_vals (word_of_int (- rs_TotalDataShards r))) of
                   None \<Rightarrow> Panic
                 | Some h \<Rightarrow>
                     if thisid < length (rs_buffer r')
                     then Ok (r', thisid, h @ (case rs_buffer r' ! thisid of None \<Rightarrow> [] | Some v \<Rightarrow> v),
                              rs_ShardInput r' < m)
                     else Panic))"

text \<open>The payload of a reconstructed data shard; a shard without a header panics.\<close>

definition recover_len :: "struc_lib \<Rightarrow> bytes option \<Rightarrow> bytes option" where
  "recover_len S b =
     (case struc_Unpack S RSMessageHeader_layout (case b of None \<Rightarrow> [] | Some v \<Rightarrow> v) of
        (ok, vs, rest) \<Rightarrow> if ok then Some (take (nat (sint (RSMessageHeader_of vs))) rest) else None)"

definition Reconstruct ::
  "struc_lib \<Rightarrow> rs_lib \<Rightarrow> RSErrorCorrectionFacility \<Rightarrow>
   (unit, RSErrorCorrectionFacility \<times> bytes list option) outcome" where
  "Reconstruct S R r =
     (let tot = rs_TotalDataShards r
      in if tot = 0 \<or> \<not> tot \<le> int (rs_DataInput r + rs_ShardInput r) then Ok (r, None)
         else if int (rs_DataInput r) \<ge> tot then Ok (r, None)
         else bind_outcome (GetParityShardSum tot) (\<lambda>m.
           if \<not> rs_New R (nat tot) m then Panic
           else let b1 = matchsize True tot (grow (nat tot + m) (rs_buffer r))
                in case rs_ReconstructData R (nat tot) m b1 of
                     None \<Rightarrow> Ok (r\<lparr>rs_buffer := b1\<rparr>, None)
                   | Some b2 \<Rightarrow>
                       (case those (map (recover_len S) (take (nat tot) b2)) of
                          None \<Rightarrow> Panic
                        | Some ps \<Rightarrow> Ok (r\<lparr>rs_buffer := map Some ps @ drop (nat tot) b2\<rparr>, Some ps))))"


section \<open>The shards of a group\<close>

lemma RSMessageHeader_simps [simp]:
  "vals_ok RSMessageHeader_layout (RSMessageHeader_vals l)"
  "RSMessageHeader_of (RSMessageHeader_vals l) = l"
  "packed_size RSMessageHeader_layout (RSMessageHeader_vals l) = 2"
  by (simp_all add: RSMessageHeader_layout_def RSMessageHeader_vals_def RSMessageHeader_of_def
      del: fval_ok.simps(2))

text \<open>A data shard, its padded form, and a parity shard as sent.\<close>

definition rs_header :: "struc_lib \<Rightarrow> u16 \<Rightarrow> bytes" where
  "rs_header S l = packed S RSMessageHeader_layout (RSMessageHeader_vals l)"

definition wrap :: "struc_lib \<Rightarrow> bytes \<Rightarrow> bytes" where
  "wrap S p = rs_header S (word_of_nat (length p)) @ p"

definition payload_ok :: "bytes \<Rightarrow> bool" where
  "payload_ok p \<longleftrightarrow> 0 < length p \<and> length p < 32768"

definition max_len :: "bytes list \<Rightarrow> nat" where
  "max_len xs = foldl max 0 (map length xs)"

definition padded :: "nat \<Rightarrow> bytes \<Rightarrow> bytes" where
  "padded n v = v @ replicate (n - length v) 0"

lemma foldl_max_ge: "(a::nat) \<le> foldl max a xs \<and> (\<forall>x \<in> set xs. x \<le> foldl max a xs)"
proof (induction xs arbitrary: a)
  case (Cons x xs)
  have "max a x \<le> foldl max (max a x) xs" "\<forall>y \<in> set xs. y \<le> foldl max (max a x) xs"
    using Cons by blast+
  then show ?case by auto
qed simp

lemma foldl_max_in: "foldl max (a::nat) xs \<in> insert a (set xs)"
proof (induction xs arbitrary: a)
  case (Cons x xs)
  then show ?case using Cons [of "max a x"] by (auto simp: max_def split: if_splits)
qed simp

lemma foldl_max_eqI:
  "n \<in> insert 0 (set xs) \<Longrightarrow> (\<And>x. x \<in> set xs \<Longrightarrow> x \<le> n) \<Longrightarrow> foldl max (0::nat) xs = n"
  using foldl_max_ge [of 0 xs] foldl_max_in [of 0 xs] by (auto intro: antisym)

lemma max_len_bound: "x \<in> set xs \<Longrightarrow> length x \<le> max_len xs"
  using foldl_max_ge [of 0 "map length xs"] by (simp add: max_len_def)

lemma length_padded: "length v \<le> n \<Longrightarrow> length (padded n v) = n"
  by (simp add: padded_def)

lemma sint_len: "payload_ok p \<Longrightarrow> sint (word_of_nat (length p) :: u16) = int (length p)"
  by (simp add: payload_ok_def signed_of_nat signed_take_bit_int_eq_self)


lemma unpack_header [simp]:
  "struc_laws S \<Longrightarrow>
   struc_Unpack S RSMessageHeader_layout (rs_header S l @ rest) = (True, RSMessageHeader_vals l, rest)"
  by (simp add: rs_header_def)

lemma length_rs_header [simp]: "struc_laws S \<Longrightarrow> length (rs_header S l) = 2"
  by (simp add: rs_header_def)

lemma recover_len_padded:
  assumes "struc_laws S" "payload_ok p"
  shows "recover_len S (Some (padded n (wrap S p))) = Some p"
  using assms sint_len [OF assms(2)] by (simp add: recover_len_def padded_def wrap_def)

section \<open>The sender\<close>

text \<open>Adding the payloads of a group one after the other; the shards in the order they are sent.\<close>

fun add_all :: "struc_lib \<Rightarrow> RSErrorCorrectionFacility \<Rightarrow> bytes list \<Rightarrow>
    (unit, RSErrorCorrectionFacility \<times> (nat \<times> bytes) list) outcome" where
  "add_all S r [] = Ok (r, [])"
| "add_all S r (p # ps) =
     bind_outcome (AddData S r p) (\<lambda>(r1, i, d).
       bind_outcome (add_all S r1 ps) (\<lambda>(r2, out). Ok (r2, (i, d) # out)))"

fun parity_all :: "struc_lib \<Rightarrow> rs_lib \<Rightarrow> RSErrorCorrectionFacility \<Rightarrow> nat \<Rightarrow>
    (unit, RSErrorCorrectionFacility \<times> (nat \<times> bytes) list) outcome" where
  "parity_all S R r 0 = Ok (r, [])"
| "parity_all S R r (Suc j) =
     bind_outcome (ConstructReconstructShard S R r) (\<lambda>(r1, i, d, more).
       bind_outcome (parity_all S R r1 j) (\<lambda>(r2, out). Ok (r2, (i, d) # out)))"

definition data_facility :: "struc_lib \<Rightarrow> bytes list \<Rightarrow> RSErrorCorrectionFacility" where
  "data_facility S ps = \<lparr>rs_buffer = map (Some \<circ> wrap S) ps, rs_DataInput = length ps,
     rs_ShardInput = 0, rs_TotalDataShards = 0\<rparr>"

lemma AddData_result:
  assumes "struc_laws S"
  shows "AddData S (data_facility S ps) p = Ok (data_facility S (ps @ [p]), length ps, wrap S p)"
  using assms by (simp add: AddData_def data_facility_def Let_def Pack_packed grow_def wrap_def rs_header_def
      list_update_append)

lemma add_all_result:
  assumes "struc_laws S"
  shows "add_all S (data_facility S qs) ps =
    Ok (data_facility S (qs @ ps), map (\<lambda>i. (length qs + i, wrap S (ps ! i))) [0..<length ps])"
proof (induction ps arbitrary: qs)
  case (Cons p ps)
  have "map (\<lambda>i. (length qs + i, wrap S ((p # ps) ! i))) [0..<length (p # ps)] =
      (length qs, wrap S p) # map (\<lambda>i. (length (qs @ [p]) + i, wrap S (ps ! i))) [0..<length ps]"
    by (simp add: upt_conv_Cons map_Suc_upt [symmetric] comp_def del: upt_Suc)
  with Cons AddData_result [OF assms] show ?case by simp
qed simp

text \<open>A facility whose parity shards are computed, after \<open>j\<close> of them were handed out.\<close>

definition coded_facility :: "bytes list \<Rightarrow> bytes list \<Rightarrow> nat \<Rightarrow> RSErrorCorrectionFacility" where
  "coded_facility D P j = \<lparr>rs_buffer = map Some (D @ P), rs_DataInput = length D,
     rs_ShardInput = j, rs_TotalDataShards = int (length D)\<rparr>"

definition parity_shard :: "struc_lib \<Rightarrow> nat \<Rightarrow> bytes \<Rightarrow> bytes" where
  "parity_shard S k b = rs_header S (word_of_int (- int k)) @ b"

definition parity_count :: "nat \<Rightarrow> nat" where
  "parity_count k = defaultParitySum ! (k - 1)"

lemma GetParityShardSum_eq: "1 \<le> k \<Longrightarrow> k \<le> 80 \<Longrightarrow> GetParityShardSum (int k) = Ok (parity_count k)"
  by (simp add: GetParityShardSum_def parity_count_def defaultParitySum_def nat_diff_distrib)

lemma parity_count_bounds:
  assumes "1 \<le> k" "k \<le> 80"
  shows "1 \<le> parity_count k \<and> parity_count k \<le> 35"
proof -
  have "length defaultParitySum = 80" "\<forall>x \<in> set defaultParitySum. 1 \<le> x \<and> x \<le> 35"
    by (simp_all add: defaultParitySum_def)
  then show ?thesis using assms nth_mem [of "k - 1" defaultParitySum] by (auto simp: parity_count_def)
qed

lemma coded_shard:
  assumes "struc_laws S" "1 \<le> length D" "length D \<le> 80" "length P = parity_count (length D)" "j < length P"
  shows "ConstructReconstructShard S R (coded_facility D P j) =
    Ok (coded_facility D P (Suc j), length D + j, parity_shard S (length D) (P ! j), Suc j < length P)"
proof -
  have "D \<noteq> []" using assms(2) by auto
  then show ?thesis
    using assms by (simp add: ConstructReconstructShard_def coded_facility_def Let_def GetParityShardSum_eq
      Pack_packed rs_header_def parity_shard_def nth_append)
qed

lemma parity_all_coded:
  assumes "struc_laws S" "1 \<le> length D" "length D \<le> 80" "length P = parity_count (length D)" "j + n \<le> length P"
  shows "parity_all S R (coded_facility D P j) n =
    Ok (coded_facility D P (j + n), map (\<lambda>i. (length D + i, parity_shard S (length D) (P ! i))) [j..<j + n])"
  using assms(5)
proof (induction n arbitrary: j)
  case (Suc n)
  then show ?case using coded_shard [OF assms(1-4), of j] Suc.IH [of "Suc j"]
    by (simp add: upt_conv_Cons del: upt_Suc)
qed simp


definition group_len :: "struc_lib \<Rightarrow> bytes list \<Rightarrow> nat" where
  "group_len S ps = max_len (map (wrap S) ps)"

definition data_shards :: "struc_lib \<Rightarrow> bytes list \<Rightarrow> bytes list" where
  "data_shards S ps = map (\<lambda>p. padded (group_len S ps) (wrap S p)) ps"

lemma length_data_shards [simp]: "length (data_shards S ps) = length ps"
  by (simp add: data_shards_def)

lemma wrap_le_group: "p \<in> set ps \<Longrightarrow> length (wrap S p) \<le> group_len S ps"
  unfolding group_len_def by (rule max_len_bound) simp

lemma all_len_data_shards: "all_len (group_len S ps) (data_shards S ps)"
  by (auto simp: all_len_def data_shards_def length_padded wrap_le_group)

lemma group_len_pos: "struc_laws S \<Longrightarrow> ps \<noteq> [] \<Longrightarrow> 0 < group_len S ps"
  using wrap_le_group [of "hd ps" ps S] by (simp add: wrap_def)

lemma matchsize_encode:
  "matchsize False (int (length ps)) (map (Some \<circ> wrap S) ps @ replicate m None) =
   map Some (data_shards S ps @ replicate m (replicate (group_len S ps) 0))"
  by (simp add: matchsize_def Let_def data_shards_def group_len_def max_len_def comp_def slice_len_def
      pad_to_def padded_def)

text \<open>The library's parity shards of a group.\<close>

lemma first_parity:
  assumes S: "struc_laws S" and k: "1 \<le> length ps" "length ps \<le> 80"
    and R: "rs_laws R (length ps) (parity_count (length ps))"
  obtains P where "rs_code R (length ps) (parity_count (length ps)) (group_len S ps) (data_shards S ps) P"
    "ConstructReconstructShard S R (data_facility S ps) = ConstructReconstructShard S R (coded_facility (data_shards S ps) P 0)"
proof -
  let ?k = "length ps" and ?n = "group_len S ps" and ?D = "data_shards S ps"
  have ne: "ps \<noteq> []" using k by auto
  have n: "0 < ?n" by (rule group_len_pos [OF S ne])
  obtain P where P: "rs_code R ?k (parity_count ?k) ?n ?D P"
    using R n all_len_data_shards [of S ps] unfolding rs_laws_def by (metis length_data_shards)
  have J: "length (replicate (parity_count ?k) (replicate ?n (0::byte))) = parity_count ?k"
    "all_len ?n (replicate (parity_count ?k) (replicate ?n (0::byte)))" by (simp_all add: all_len_def)
  have "rs_Encode R ?k (parity_count ?k)
      (matchsize False (int ?k) (map (Some \<circ> wrap S) ps @ replicate (parity_count ?k) None)) =
      Some (map Some (?D @ P))"
    unfolding matchsize_encode using P J unfolding rs_code_def by blast
  then have "ConstructReconstructShard S R (data_facility S ps) =
      ConstructReconstructShard S R (coded_facility ?D P 0)"
    using R ne k unfolding rs_laws_def
    by (simp add: ConstructReconstructShard_def data_facility_def coded_facility_def Let_def GetParityShardSum_eq)
  with P show ?thesis by (rule that)
qed


section \<open>The receiver\<close>

text \<open>
  The shard with number \<open>i\<close> as it travels and as the receiver stores it, and what the receiver has
  after the shards with numbers in \<open>I\<close>.
\<close>

definition wire_shard :: "struc_lib \<Rightarrow> bytes list \<Rightarrow> bytes list \<Rightarrow> nat \<Rightarrow> bytes" where
  "wire_shard S ps P i =
     (if i < length ps then wrap S (ps ! i) else parity_shard S (length ps) (P ! (i - length ps)))"

definition stored_shard :: "struc_lib \<Rightarrow> bytes list \<Rightarrow> bytes list \<Rightarrow> nat \<Rightarrow> bytes" where
  "stored_shard S ps P i = (if i < length ps then wrap S (ps ! i) else P ! (i - length ps))"

definition slot :: "bytes option list \<Rightarrow> nat \<Rightarrow> bytes option" where
  "slot b i = (if i < length b then b ! i else None)"

definition recv_inv ::
  "struc_lib \<Rightarrow> bytes list \<Rightarrow> bytes list \<Rightarrow> nat set \<Rightarrow> RSErrorCorrectionFacility \<Rightarrow> bool" where
  "recv_inv S ps P I r \<longleftrightarrow>
     I \<subseteq> {..<length ps + length P} \<and> length (rs_buffer r) \<le> length ps + length P \<and>
     (\<forall>i. slot (rs_buffer r) i = (if i \<in> I then Some (stored_shard S ps P i) else None)) \<and>
     rs_DataInput r = card (I \<inter> {..<length ps}) \<and> rs_ShardInput r = card (I - {..<length ps}) \<and>
     rs_TotalDataShards r = (if I \<subseteq> {..<length ps} then 0 else int (length ps))"

lemma slot_grow [simp]: "slot (grow n b) i = slot b i"
  by (auto simp: slot_def grow_def nth_append)

lemma slot_update: "j < length b \<Longrightarrow> slot (b[j := v]) i = (if i = j then v else slot b i)"
  by (auto simp: slot_def)

lemma length_grow [simp]: "length (grow n b) = max n (length b)"
  by (simp add: grow_def)

lemma grow_nth: "grow (Suc i) b ! i = slot b i"
  using slot_grow [of "Suc i" b i] by (auto simp: slot_def split: if_splits)

lemma card_split: "finite I \<Longrightarrow> card (I \<inter> A) + card (I - A) = card I"
  by (metis card_Int_Diff)

lemma parity_header:
  assumes "1 \<le> k" "k \<le> 80"
  shows "sint (word_of_int (- int k) :: u16) = - int k" "sint (- word_of_int (- int k) :: u16) = int k"
proof -
  show "sint (word_of_int (- int k) :: u16) = - int k"
    using assms by (subst signed_of_int) (simp add: signed_take_bit_int_eq_self)
  show "sint (- word_of_int (- int k) :: u16) = int k"
    using assms by (simp add: signed_of_nat signed_take_bit_int_eq_self)
qed

lemma unpack_wire_shard:
  assumes "struc_laws S"
  shows "struc_Unpack S RSMessageHeader_layout (wire_shard S ps P i) =
    (if i < length ps then (True, RSMessageHeader_vals (word_of_nat (length (ps ! i))), ps ! i)
     else (True, RSMessageHeader_vals (word_of_int (- int (length ps))), P ! (i - length ps)))"
  using assms by (simp add: wire_shard_def wrap_def parity_shard_def)

lemma AddShard_data:
  assumes "struc_laws S" "i < length ps" "payload_ok (ps ! i)"
  shows "AddShard S r i (wire_shard S ps P i) =
    (let r1 = (if slot (rs_buffer r) i = None
               then r\<lparr>rs_buffer := (grow (Suc i) (rs_buffer r))[i := Some (stored_shard S ps P i)],
                      rs_DataInput := rs_DataInput r + 1\<rparr>
               else r\<lparr>rs_buffer := grow (Suc i) (rs_buffer r)\<rparr>)
     in (r1, rs_TotalDataShards r1 \<noteq> 0 \<and> rs_TotalDataShards r1 \<le> int (rs_DataInput r1 + rs_ShardInput r1),
         Some (ps ! i)))"
proof -
  have "\<not> sint (word_of_nat (length (ps ! i)) :: u16) \<le> 0"
    using sint_len [OF assms(3)] assms(3) by (simp add: payload_ok_def)
  then show ?thesis
    using assms(1,2) by (simp add: AddShard_def Let_def grow_nth stored_shard_def wire_shard_def wrap_def)
qed

lemma AddShard_parity:
  assumes "struc_laws S" "1 \<le> length ps" "length ps \<le> 80" "\<not> i < length ps"
  shows "AddShard S r i (wire_shard S ps P i) =
    (let r1 = (if slot (rs_buffer r) i = None
               then r\<lparr>rs_buffer := (grow (Suc i) (rs_buffer r))[i := Some (stored_shard S ps P i)],
                      rs_ShardInput := rs_ShardInput r + 1, rs_TotalDataShards := int (length ps)\<rparr>
               else r\<lparr>rs_buffer := grow (Suc i) (rs_buffer r), rs_TotalDataShards := int (length ps)\<rparr>)
     in (r1, length ps \<le> rs_DataInput r1 + rs_ShardInput r1, None))"
  using assms parity_header [OF assms(2,3)]
  by (simp add: AddShard_def Let_def unpack_wire_shard grow_nth stored_shard_def
      del: of_int_minus of_int_of_nat_eq; auto)

lemma AddShard_step:
  assumes S: "struc_laws S" and k: "1 \<le> length ps" "length ps \<le> 80" and ok: "\<forall>p \<in> set ps. payload_ok p"
    and inv: "recv_inv S ps P I r" and i: "i < length ps + length P"
  shows "\<exists>r' fin. AddShard S r i (wire_shard S ps P i) = (r', fin, if i < length ps then Some (ps ! i) else None) \<and>
    recv_inv S ps P (insert i I) r' \<and> fin = (\<not> insert i I \<subseteq> {..<length ps} \<and> length ps \<le> card (insert i I))"
proof -
  let ?k = "length ps"
  have fin: "finite I" using inv finite_subset unfolding recv_inv_def by blast
  note cs = card_split [OF finite.insertI [OF fin, of i], of "{..<?k}"]
  have len: "length (grow (Suc i) (rs_buffer r)) \<le> ?k + length P" "i < length (grow (Suc i) (rs_buffer r))"
    using inv i by (auto simp: recv_inv_def)
  have slots: "slot (rs_buffer r) i = None \<longleftrightarrow> i \<notin> I"
    using inv by (simp add: recv_inv_def)
  show ?thesis
  proof (cases "i < ?k")
    case True
    with ok have "payload_ok (ps ! i)" by simp
    from AddShard_data [OF S True this, of r P] True len slots inv i cs fin k show ?thesis
      by (cases "i \<in> I") (auto simp: Let_def recv_inv_def slot_update insert_absorb Int_insert_left insert_Diff_if)
  next
    case False
    from AddShard_parity [OF S k False, of r P] False len slots inv i cs fin k show ?thesis
      by (cases "i \<in> I") (auto simp: Let_def recv_inv_def slot_update insert_absorb Int_insert_left insert_Diff_if)
  qed
qed


fun recv_all :: "struc_lib \<Rightarrow> RSErrorCorrectionFacility \<Rightarrow> (nat \<times> bytes) list \<Rightarrow> RSErrorCorrectionFacility" where
  "recv_all S r [] = r"
| "recv_all S r ((i, d) # xs) = recv_all S (fst (AddShard S r i d)) xs"

lemma recv_inv_new: "recv_inv S ps P {} NewRSErrorCorrectionFacility"
  by (simp add: recv_inv_def NewRSErrorCorrectionFacility_def slot_def)

lemma recv_all_inv:
  assumes S: "struc_laws S" and k: "1 \<le> length ps" "length ps \<le> 80" and ok: "\<forall>p \<in> set ps. payload_ok p"
    and xs: "\<forall>(i, d) \<in> set xs. i < length ps + length P \<and> d = wire_shard S ps P i"
  shows "recv_inv S ps P I r \<Longrightarrow> recv_inv S ps P (I \<union> fst ` set xs) (recv_all S r xs)"
  using xs
proof (induction xs arbitrary: I r)
  case (Cons x xs)
  obtain i d where x: "x = (i, d)" by fastforce
  then have d: "i < length ps + length P" "d = wire_shard S ps P i" using Cons.prems by auto
  have "recv_inv S ps P (insert i I) (fst (AddShard S r i d))"
    using AddShard_step [OF S k ok Cons.prems(1) d(1)] d by auto
  from Cons.IH [OF this] Cons.prems(2) x show ?case by simp
qed simp

text \<open>What the library gets: the padded shards, in the slots of the received numbers.\<close>

lemma matchsize_received:
  assumes S: "struc_laws S" and P: "all_len (group_len S ps) P" and inv: "recv_inv S ps P I r"
    and par: "\<not> I \<subseteq> {..<length ps}"
  defines "b \<equiv> matchsize True (int (length ps)) (grow (length ps + length P) (rs_buffer r))"
  shows "length b = length ps + length P"
    and "i < length ps + length P \<Longrightarrow> b ! i = (if i \<in> I then Some ((data_shards S ps @ P) ! i) else None)"
proof -
  let ?g = "grow (length ps + length P) (rs_buffer r)" and ?n = "group_len S ps"
  have len: "length ?g = length ps + length P" using inv by (simp add: recv_inv_def)
  have at: "?g ! i = (if i \<in> I then Some (stored_shard S ps P i) else None)" if "i < length ps + length P" for i
    using slot_grow [of "length ps + length P" "rs_buffer r" i] inv that len by (simp add: recv_inv_def slot_def)
  have st: "length (stored_shard S ps P i) \<le> ?n" if "i < length ps + length P" for i
    using that P wrap_le_group [of "ps ! i" ps S] by (auto simp: stored_shard_def all_len_def)
  obtain j where j: "j \<in> I" "\<not> j < length ps" "j < length ps + length P"
    using par inv by (auto simp: recv_inv_def)
  have "foldl max 0 (map slice_len ?g) = ?n"
  proof (rule foldl_max_eqI)
    have "length (stored_shard S ps P j) = ?n" using j P by (simp add: stored_shard_def all_len_def)
    then have "slice_len (?g ! j) = ?n" using at [OF j(3)] j by (simp add: slice_len_def)
    then show "?n \<in> insert 0 (set (map slice_len ?g))" using j len by (metis insertCI length_map nth_map nth_mem)
  next
    fix x assume "x \<in> set (map slice_len ?g)"
    then obtain i where "i < length ps + length P" "x = slice_len (?g ! i)" using len by (auto simp: in_set_conv_nth)
    then show "x \<le> ?n" using at [of i] st [of i] by (simp add: slice_len_def)
  qed
  then have b: "b = map (\<lambda>v. if v = None then v else pad_to ?n v) ?g"
    by (simp add: b_def matchsize_def Let_def)
  then show "length b = length ps + length P" using len by simp
  show "b ! i = (if i \<in> I then Some ((data_shards S ps @ P) ! i) else None)" if "i < length ps + length P"
    using that at [OF that] len P
    by (auto simp: b pad_to_def slice_len_def stored_shard_def nth_append data_shards_def padded_def all_len_def)
qed

lemma those_map_Some: "(\<And>x. x \<in> set xs \<Longrightarrow> f x = Some (g x)) \<Longrightarrow> those (map f xs) = Some (map g xs)"
  by (induction xs) auto

lemma Reconstruct_received:
  assumes S: "struc_laws S" and k: "1 \<le> length ps" "length ps \<le> 80" and ok: "\<forall>p \<in> set ps. payload_ok p"
    and R: "rs_laws R (length ps) (parity_count (length ps))"
    and code: "rs_code R (length ps) (parity_count (length ps)) (group_len S ps) (data_shards S ps) P"
    and inv: "recv_inv S ps P I r" and par: "\<not> I \<subseteq> {..<length ps}" and enough: "length ps \<le> card I"
  shows "\<exists>r'. Reconstruct S R r = Ok (r', if {..<length ps} \<subseteq> I then None else Some ps)"
proof -
  let ?k = "length ps" and ?m = "parity_count (length ps)"
  have P: "length P = ?m" "all_len (group_len S ps) P" using code by (simp_all add: rs_code_def)
  have fin: "finite I" using inv finite_subset unfolding recv_inv_def by blast
  have tot: "rs_TotalDataShards r = int ?k" "rs_DataInput r = card (I \<inter> {..<?k})"
    "rs_DataInput r + rs_ShardInput r = card I"
    using inv par card_split [OF fin, of "{..<?k}"] by (simp_all add: recv_inv_def)
  show ?thesis
  proof (cases "{..<?k} \<subseteq> I")
    case True
    then have "rs_DataInput r = ?k" using tot(2) by (simp add: Int_absorb1)
    then show ?thesis using True tot by (simp add: Reconstruct_def Let_def)
  next
    case False
    have "card (I \<inter> {..<?k}) < card {..<?k}" using False by (intro psubset_card_mono) auto
    then have few: "rs_DataInput r < ?k" using tot(2) by simp
    define b where "b = matchsize True (int ?k) (grow (?k + ?m) (rs_buffer r))"
    note ms = matchsize_received [OF S P(2) inv par, unfolded P(1), folded b_def]
    have "{i. i < ?k + ?m \<and> b ! i \<noteq> None} = I"
      using ms(2) inv P(1) by (auto simp: recv_inv_def split: if_splits)
    then obtain out where out: "rs_ReconstructData R ?k ?m b = Some out" "length out = ?k + ?m"
      "\<forall>i < ?k. out ! i = Some (data_shards S ps ! i)"
      using code ms enough unfolding rs_code_def by (metis (no_types, lifting))
    have "map (recover_len S) (take ?k out) = map Some ps"
      using out(2,3) ok recover_len_padded [OF S] by (intro nth_equalityI) (auto simp: data_shards_def)
    then have "those (map (recover_len S) (take ?k out)) = Some ps"
      using those_map_Some [of ps Some "\<lambda>x. x"] by simp
    moreover have "rs_New R ?k ?m" using R by (simp add: rs_laws_def)
    moreover have "\<not> (int ?k = 0 \<or> \<not> int ?k \<le> int (rs_DataInput r + rs_ShardInput r))" "\<not> int ?k \<le> int (rs_DataInput r)"
      using k enough few tot(3) by auto
    ultimately show ?thesis
      unfolding Reconstruct_def Let_def tot(1)
      using out(1) False k by (simp add: GetParityShardSum_eq b_def [symmetric])
  qed
qed


lemma data_facility_new: "NewRSErrorCorrectionFacility = data_facility S []"
  by (simp add: NewRSErrorCorrectionFacility_def data_facility_def)

text \<open>Everything the sender of a group sends.\<close>

lemma sender_shards:
  assumes S: "struc_laws S" and k: "1 \<le> length ps" "length ps \<le> 80"
    and R: "rs_laws R (length ps) (parity_count (length ps))" and n: "1 \<le> n" "n \<le> parity_count (length ps)"
  obtains P r1 r2 where "rs_code R (length ps) (parity_count (length ps)) (group_len S ps) (data_shards S ps) P"
    "add_all S NewRSErrorCorrectionFacility ps = Ok (r1, map (\<lambda>i. (i, wire_shard S ps P i)) [0..<length ps])"
    "parity_all S R r1 n = Ok (r2, map (\<lambda>i. (i, wire_shard S ps P i)) [length ps..<length ps + n])"
proof -
  obtain P where P: "rs_code R (length ps) (parity_count (length ps)) (group_len S ps) (data_shards S ps) P"
    and f: "ConstructReconstructShard S R (data_facility S ps) =
        ConstructReconstructShard S R (coded_facility (data_shards S ps) P 0)"
    using first_parity [OF S k R] by blast
  have lP: "length P = parity_count (length (data_shards S ps))" using P by (simp add: rs_code_def)
  obtain j where j: "n = Suc j" using n by (cases n) auto
  have "parity_all S R (data_facility S ps) n = parity_all S R (coded_facility (data_shards S ps) P 0) n"
    using f by (simp add: j)
  also have "\<dots> = Ok (coded_facility (data_shards S ps) P n,
      map (\<lambda>i. (length ps + i, parity_shard S (length ps) (P ! i))) [0..<n])"
    using parity_all_coded [OF S, of "data_shards S ps" P 0 n R] k n lP by simp
  also have "map (\<lambda>i. (length ps + i, parity_shard S (length ps) (P ! i))) [0..<n] =
      map (\<lambda>i. (i, wire_shard S ps P i)) [length ps..<length ps + n]"
    by (intro nth_equalityI) (auto simp: wire_shard_def)
  finally have 2: "parity_all S R (data_facility S ps) n =
      Ok (coded_facility (data_shards S ps) P n, map (\<lambda>i. (i, wire_shard S ps P i)) [length ps..<length ps + n])" .
  have "map (\<lambda>i. (i, wrap S (ps ! i))) [0..<length ps] = map (\<lambda>i. (i, wire_shard S ps P i)) [0..<length ps]"
    by (simp add: wire_shard_def)
  then have "add_all S NewRSErrorCorrectionFacility ps =
      Ok (data_facility S ps, map (\<lambda>i. (i, wire_shard S ps P i)) [0..<length ps])"
    using add_all_result [OF S, of "[]" ps] by (simp add: data_facility_new [of S])
  from that [OF P this 2] show ?thesis .
qed

lemma tagged_subset:
  assumes "X \<subseteq> (\<lambda>i. (i, w i)) ` A"
  shows "(\<lambda>i. (i, w i)) ` B \<subseteq> X \<longleftrightarrow> B \<subseteq> fst ` X"
proof
  assume "B \<subseteq> fst ` X"
  show "(\<lambda>i. (i, w i)) ` B \<subseteq> X"
  proof
    fix y assume "y \<in> (\<lambda>i. (i, w i)) ` B"
    then obtain b where b: "b \<in> B" "y = (b, w b)" by blast
    then obtain d where "(b, d) \<in> X" using \<open>B \<subseteq> fst ` X\<close> by fastforce
    moreover from this have "d = w b" using assms by auto
    ultimately show "y \<in> X" using b by simp
  qed
qed force

section \<open>Properties\<close>


text \<open>A code for groups of one payload: every shard repeats it.\<close>

definition rs_repeat :: rs_lib where
  "rs_repeat = \<lparr>rs_New = (\<lambda>k m. k = 1),
     rs_Encode = (\<lambda>k m sh. Some (replicate (k + m) (hd sh))),
     rs_ReconstructData = (\<lambda>k m sh. case filter (\<lambda>x. x \<noteq> None) sh of
        [] \<Rightarrow> None | x # _ \<Rightarrow> Some (replicate (k + m) x))\<rparr>"

lemma rs_repeat_laws: "rs_laws rs_repeat 1 m"
proof -
  have "rs_code rs_repeat 1 m n [d] (replicate m d)" if "length d = n" for n d
  proof -
    have "\<exists>out. rs_ReconstructData rs_repeat 1 m sh = Some out \<and> length out = 1 + m \<and> (\<forall>i < 1. out ! i = Some ([d] ! i))"
      if sh: "length sh = 1 + m" "\<forall>i < 1 + m. sh ! i = None \<or> sh ! i = Some (([d] @ replicate m d) ! i)"
        "1 \<le> card {i. i < 1 + m \<and> sh ! i \<noteq> None}" for sh
    proof -
      have all: "x = None \<or> x = Some d" if "x \<in> set sh" for x
        using that sh(1,2) by (auto simp: in_set_conv_nth nth_Cons' split: if_splits)
      have "{i. i < 1 + m \<and> sh ! i \<noteq> None} \<noteq> {}" using sh(3) by (metis card.empty not_one_le_zero)
      then have "filter (\<lambda>x. x \<noteq> None) sh \<noteq> []"
        using sh(1) by (auto simp: filter_empty_conv) (metis nth_mem)
      then obtain x xs where f: "filter (\<lambda>x. x \<noteq> None) sh = x # xs" by (cases "filter (\<lambda>x. x \<noteq> None) sh") auto
      then have "x \<in> set (filter (\<lambda>x. x \<noteq> None) sh)" by simp
      then have "x \<in> set sh \<and> x \<noteq> None" by simp
      then have "x = Some d" using all by auto
      then show ?thesis using f by (simp add: rs_repeat_def)
    qed
    with that show ?thesis by (simp add: rs_code_def all_len_def rs_repeat_def)
  qed
  then have "\<exists>P. rs_code rs_repeat 1 m n D P" if "length D = 1" "all_len n D" for n D
    using that by (cases D) (auto simp: all_len_def)
  then show ?thesis by (simp add: rs_laws_def) (simp add: rs_repeat_def)
qed


end
