(* ===== verification/PacketAssembly.thy ===== *)
theory PacketAssembly
  imports ReedSolomon
begin

text \<open>
  The packet assembly with forward error correction,
  \<open>transport/udp/errorCorrection/assembly\<close> (\<open>asby.go\<close>, \<open>tx.go\<close>, \<open>rx.go\<close>, \<open>boost.go\<close>).

  The sender keeps a ring of groups; the current slot collects data shards, older slots hand out
  parity shards over the following epochs. The receiver keeps a group per sequence number.
  \<open>pa_written\<close> logs what was written to the connection, \<open>pa_delivered\<close> what was sent to \<open>RxChan\<close>.

  Outside the component: the packing and the coding library, the answer of the connection to a
  write, the rounding of \<open>process * shards\<close> in floating point (\<open>ae_release\<close>), the number of bits of a
  bitmap made for \<open>n\<close> bits (\<open>ae_bits\<close>; an access beyond them panics), and the expiry of the
  reassembly cache: \<open>live\<close> says which keys are unexpired when \<open>Add\<close> looks, \<open>live'\<close> when \<open>Get\<close> does.
\<close>

section \<open>State\<close>

record assembly_env =
  ae_struc :: struc_lib
  ae_rs :: rs_lib
  ae_write_ok :: "bytes \<Rightarrow> bool"
  ae_release :: "u64 \<Rightarrow> nat \<Rightarrow> int \<Rightarrow> int"
  ae_bits :: "nat \<Rightarrow> nat"

record packetAssemblyTxChunkHolder =
  tx_ef :: RSErrorCorrectionFacility
  tx_enabled :: bool
  tx_DataShardWithin :: nat
  tx_Seq :: u32
  tx_InitialSendEpochSeq :: u64
  tx_InitialRemainShard :: int

record packetAssemblyRxChunkHolder =
  rx_ef :: RSErrorCorrectionFacility
  rx_doneAll :: bool
  rx_doneBitmap :: "bool list"

record PacketAssembly =
  RxReassembleBuffer :: "string \<rightharpoonup> packetAssemblyRxChunkHolder"
  TxNextSeq :: u32
  TxRingBuffer :: "packetAssemblyTxChunkHolder list"
  TxRingBufferSize :: nat
  MaxDataShardPerChunk :: nat
  TxFECSoftPacketSoftLimitPerEpoch :: int
  FECEnabled :: bool
  TxEpocSeq :: u64
  TxShardOriginal :: u64
  TxShardFEC :: u64
  TxShardOriginalNoFEC :: u64
  RxShardOriginal :: u64
  RxShardRecovered :: u64
  RxShardOriginalNoFEC :: u64
  RxBytes :: u64
  TxBytes :: u64
  pa_written :: "bytes list"
  pa_delivered :: "bytes list"

definition new_tx_chunk :: packetAssemblyTxChunkHolder where
  "new_tx_chunk = \<lparr>tx_ef = NewRSErrorCorrectionFacility, tx_enabled = False, tx_DataShardWithin = 0,
     tx_Seq = 0, tx_InitialSendEpochSeq = 0, tx_InitialRemainShard = 0\<rparr>"

text \<open>
  \<open>NewPacketAssembly\<close>; the slots of the ring are zero values, which have no facility, until the
  first line of \<open>Tx\<close> or \<open>finishThisSeq\<close> fills them. No operation uses a slot before that, since a
  slot that is not enabled is never asked for its facility.
\<close>

definition NewPacketAssembly :: PacketAssembly where
  "NewPacketAssembly = \<lparr>RxReassembleBuffer = Map.empty, TxNextSeq = 1,
     TxRingBuffer = replicate 30 new_tx_chunk, TxRingBufferSize = 30, MaxDataShardPerChunk = 40,
     TxFECSoftPacketSoftLimitPerEpoch = 40, FECEnabled = True, TxEpocSeq = 0, TxShardOriginal = 0,
     TxShardFEC = 0, TxShardOriginalNoFEC = 0, RxShardOriginal = 0, RxShardRecovered = 0,
     RxShardOriginalNoFEC = 0, RxBytes = 0, TxBytes = 0, pa_written = [], pa_delivered = []\<rparr>"

definition PacketWireHead_layout :: layout where
  "PacketWireHead_layout = [F_uint 4, F_uint 2]"

definition PacketWireHead_vals :: "u32 \<Rightarrow> nat \<Rightarrow> fval list" where
  "PacketWireHead_vals sq sid = [uval sq, V_int (int sid)]"

definition PacketWireHead_of :: "fval list \<Rightarrow> u32 \<times> nat" where
  "PacketWireHead_of vs = (get_word (vs ! 0), case vs ! 1 of V_int i \<Rightarrow> nat i | V_bytes _ \<Rightarrow> 0)"

section \<open>Sending\<close>

definition packPacket :: "assembly_env \<Rightarrow> u32 \<Rightarrow> nat \<Rightarrow> bytes \<Rightarrow> (unit, bytes) outcome" where
  "packPacket env sq sid wd =
     (case struc_Pack (ae_struc env) PacketWireHead_layout (PacketWireHead_vals sq sid) of
        None \<Rightarrow> Panic | Some h \<Rightarrow> Ok (h @ wd))"

text \<open>The boolean says that the connection refused the write.\<close>

definition packAndSend ::
  "assembly_env \<Rightarrow> PacketAssembly \<Rightarrow> u32 \<Rightarrow> nat \<Rightarrow> bytes \<Rightarrow> (unit, PacketAssembly \<times> bool) outcome" where
  "packAndSend env pa sq sid wd =
     bind_outcome (packPacket env sq sid wd) (\<lambda>res.
       if \<not> ae_write_ok env res then Ok (pa, True)
       else Ok (pa\<lparr>pa_written := pa_written pa @ [res],
                   TxBytes := TxBytes pa + word_of_nat (length res)\<rparr>, False))"

definition TxWithoutFEC :: "assembly_env \<Rightarrow> PacketAssembly \<Rightarrow> bytes \<Rightarrow> (unit, PacketAssembly \<times> bool) outcome" where
  "TxWithoutFEC env pa pack =
     bind_outcome (packPacket env 0 0 pack) (\<lambda>res.
       if \<not> ae_write_ok env res then Ok (pa, True)
       else Ok (pa\<lparr>pa_written := pa_written pa @ [res],
                   TxBytes := TxBytes pa + word_of_nat (length res),
                   TxShardOriginalNoFEC := TxShardOriginalNoFEC pa + 1\<rparr>, False))"

definition upd_slot ::
  "nat \<Rightarrow> (packetAssemblyTxChunkHolder \<Rightarrow> packetAssemblyTxChunkHolder) \<Rightarrow> PacketAssembly \<Rightarrow> PacketAssembly" where
  "upd_slot i f pa = pa\<lparr>TxRingBuffer := (TxRingBuffer pa)[i := f (TxRingBuffer pa ! i)]\<rparr>"

definition finishThisSeq ::
  "assembly_env \<Rightarrow> PacketAssembly \<Rightarrow> nat \<Rightarrow> int \<Rightarrow> (unit, PacketAssembly \<times> bool \<times> nat \<times> int) outcome" where
  "finishThisSeq env pa cur sent =
     bind_outcome (ConstructReconstructShard (ae_struc env) (ae_rs env) (tx_ef (TxRingBuffer pa ! cur)))
       (\<lambda>(ef, thisid, pack, more).
         let pa1 = upd_slot cur (tx_ef_update (\<lambda>_. ef)) pa
         in bind_outcome (packAndSend env pa1 (TxNextSeq pa1) thisid pack) (\<lambda>(pa2, failed).
              if failed then Ok (pa2, True, cur, sent)
              else bind_outcome (MaxShardYieldRemaining ef) (\<lambda>remain.
                let pa3 = upd_slot cur (\<lambda>h. h\<lparr>tx_enabled := more, tx_InitialRemainShard := remain\<rparr>) pa2;
                    cur' = (if cur + 1 = TxRingBufferSize pa3 then 0 else cur + 1);
                    sq = TxNextSeq pa3 + 1
                in Ok ((upd_slot cur' (\<lambda>_. new_tx_chunk) pa3)
                         \<lparr>TxShardFEC := TxShardFEC pa3 + 1, TxNextSeq := (if sq = 0 then 1 else sq)\<rparr>,
                       False, cur', sent + 1))))"

definition sendFECPacket :: "assembly_env \<Rightarrow> PacketAssembly \<Rightarrow> nat \<Rightarrow> (unit, PacketAssembly) outcome" where
  "sendFECPacket env pa i =
     bind_outcome (ConstructReconstructShard (ae_struc env) (ae_rs env) (tx_ef (TxRingBuffer pa ! i)))
       (\<lambda>(ef, thisid, pack, more).
         let pa1 = upd_slot i (tx_ef_update (\<lambda>_. ef)) pa
         in bind_outcome (packAndSend env pa1 (tx_Seq (TxRingBuffer pa ! i)) thisid pack) (\<lambda>(pa2, failed).
              if failed then Ok pa2
              else Ok ((upd_slot i (tx_enabled_update (\<lambda>_. more)) pa2)\<lparr>TxShardFEC := TxShardFEC pa2 + 1\<rparr>)))"

subsection \<open>The budget of parity shards\<close>

definition GetRemainingShard :: "PacketAssembly \<Rightarrow> nat \<Rightarrow> (unit, int) outcome" where
  "GetRemainingShard pa sl =
     (if \<not> tx_enabled (TxRingBuffer pa ! sl) then Ok 0
      else MaxShardYieldRemaining (tx_ef (TxRingBuffer pa ! sl)))"

definition GetTotalShard :: "PacketAssembly \<Rightarrow> nat \<Rightarrow> int" where
  "GetTotalShard pa sl =
     (if \<not> tx_enabled (TxRingBuffer pa ! sl) then 0 else tx_InitialRemainShard (TxRingBuffer pa ! sl))"

definition GetReleasedShard :: "assembly_env \<Rightarrow> PacketAssembly \<Rightarrow> nat \<Rightarrow> int" where
  "GetReleasedShard env pa sl =
     (if \<not> tx_enabled (TxRingBuffer pa ! sl) then 0
      else ae_release env (TxEpocSeq pa - tx_InitialSendEpochSeq (TxRingBuffer pa ! sl))
             (TxRingBufferSize pa) (GetTotalShard pa sl))"

definition GetSentShard :: "PacketAssembly \<Rightarrow> nat \<Rightarrow> (unit, int) outcome" where
  "GetSentShard pa sl =
     (if \<not> tx_enabled (TxRingBuffer pa ! sl) then Ok 0
      else bind_outcome (GetRemainingShard pa sl) (\<lambda>r.
             Ok (tx_InitialRemainShard (TxRingBuffer pa ! sl) - r)))"

text \<open>\<open>int(math.Round(float64(u) / float64(scale)))\<close> for integers: halves go away from zero.\<close>

definition round_div :: "int \<Rightarrow> int \<Rightarrow> int" where
  "round_div u scale =
     (if u \<ge> 0 then (2 * u + scale) div (2 * scale) else - ((2 * (- u) + scale) div (2 * scale)))"

fun unlocks_from :: "assembly_env \<Rightarrow> PacketAssembly \<Rightarrow> nat list \<Rightarrow> (unit, int list) outcome" where
  "unlocks_from env pa [] = Ok []"
| "unlocks_from env pa (i # is) =
     bind_outcome (GetSentShard pa i) (\<lambda>sent.
       bind_outcome (GetRemainingShard pa i) (\<lambda>remain.
         bind_outcome (unlocks_from env pa is) (\<lambda>rest.
           let diff = GetReleasedShard env pa i - sent
           in Ok ((if diff > remain then remain else diff) # rest))))"

definition SelectPacketToSend :: "assembly_env \<Rightarrow> PacketAssembly \<Rightarrow> int \<Rightarrow> (unit, int list) outcome" where
  "SelectPacketToSend env pa quota =
     bind_outcome (unlocks_from env pa [0..<TxRingBufferSize pa]) (\<lambda>unlocks.
       let totalUnlocks = sum_list unlocks
       in if totalUnlocks \<le> quota then Ok unlocks
          else let scale = totalUnlocks div quota in Ok (map (\<lambda>u. round_div u scale) unlocks))"

text \<open>One pass over the ring: a shard from every slot that has guidance left.\<close>

fun send_round :: "assembly_env \<Rightarrow> PacketAssembly \<Rightarrow> nat \<Rightarrow> int list \<Rightarrow> (unit, PacketAssembly \<times> int list) outcome" where
  "send_round env pa i [] = Ok (pa, [])"
| "send_round env pa i (g # gs) =
     (if g > 0
      then bind_outcome (sendFECPacket env pa i) (\<lambda>pa1.
             bind_outcome (send_round env pa1 (Suc i) gs) (\<lambda>(pa2, gs'). Ok (pa2, (g - 1) # gs')))
      else bind_outcome (send_round env pa (Suc i) gs) (\<lambda>(pa2, gs'). Ok (pa2, g # gs')))"

text \<open>
  The passes end when no slot has guidance left; each pass lowers the largest entry, so that many
  passes are enough.
\<close>

fun send_rounds :: "nat \<Rightarrow> assembly_env \<Rightarrow> PacketAssembly \<Rightarrow> int list \<Rightarrow> (unit, PacketAssembly) outcome" where
  "send_rounds 0 env pa gs = Ok pa"
| "send_rounds (Suc n) env pa gs =
     (if list_ex (\<lambda>g. g > 0) gs
      then bind_outcome (send_round env pa 0 gs) (\<lambda>(pa1, gs'). send_rounds n env pa1 gs')
      else Ok pa)"

subsection \<open>The loop of Tx\<close>

text \<open>The local variables of \<open>Tx\<close>: the packets sent in this epoch and the current slot.\<close>

definition Tx_start :: "PacketAssembly \<Rightarrow> PacketAssembly \<times> int \<times> nat" where
  "Tx_start pa = (upd_slot 0 (\<lambda>_. new_tx_chunk) pa, 0, 0)"

definition Tx_epoch ::
  "assembly_env \<Rightarrow> PacketAssembly \<times> int \<times> nat \<Rightarrow> (unit, (PacketAssembly \<times> int \<times> nat) \<times> bool) outcome" where
  "Tx_epoch env st =
     (case st of (pa, sent, cur) \<Rightarrow>
        bind_outcome
          (if tx_DataShardWithin (TxRingBuffer pa ! cur) \<noteq> 0 then finishThisSeq env pa cur sent
           else Ok (pa, False, cur, sent))
          (\<lambda>(pa1, donez, cur1, sent1).
             if donez then Ok ((pa1, sent1, cur1), True)
             else let quota = TxFECSoftPacketSoftLimitPerEpoch pa1 - sent1
                  in bind_outcome
                       (if quota > 0
                        then bind_outcome (SelectPacketToSend env pa1 quota) (\<lambda>gs.
                               send_rounds (nat (foldl max 0 gs)) env pa1 gs)
                        else Ok pa1)
                       (\<lambda>pa2. Ok ((pa2\<lparr>TxEpocSeq := TxEpocSeq pa2 + 1\<rparr>, 0, cur1), False))))"

definition Tx_packet ::
  "assembly_env \<Rightarrow> PacketAssembly \<times> int \<times> nat \<Rightarrow> bytes \<Rightarrow> (unit, (PacketAssembly \<times> int \<times> nat) \<times> bool) outcome" where
  "Tx_packet env st packet =
     (case st of (pa, sent, cur) \<Rightarrow>
        if \<not> FECEnabled pa
        then bind_outcome (TxWithoutFEC env pa packet) (\<lambda>(pa1, _). Ok ((pa1, sent, cur), False))
        else bind_outcome (AddData (ae_struc env) (tx_ef (TxRingBuffer pa ! cur)) packet) (\<lambda>(ef, sid, wd).
          let pa1 = upd_slot cur (\<lambda>h. h\<lparr>tx_ef := ef, tx_DataShardWithin := tx_DataShardWithin h + 1,
                      tx_Seq := TxNextSeq pa, tx_InitialSendEpochSeq := TxEpocSeq pa,
                      tx_InitialRemainShard := 0\<rparr>) pa
          in bind_outcome (packAndSend env pa1 (TxNextSeq pa1) sid wd) (\<lambda>(pa2, failed).
               if failed then Ok ((pa2, sent, cur), True)
               else let pa3 = pa2\<lparr>TxShardOriginal := TxShardOriginal pa2 + 1\<rparr>
                    in if tx_DataShardWithin (TxRingBuffer pa3 ! cur) \<ge> MaxDataShardPerChunk pa3
                       then bind_outcome (finishThisSeq env pa3 cur (sent + 1)) (\<lambda>(pa4, donez, cur4, sent4).
                              Ok ((pa4, sent4, cur4), donez))
                       else Ok ((pa3, sent + 1, cur), False))))"

definition Tx_nofec ::
  "assembly_env \<Rightarrow> PacketAssembly \<times> int \<times> nat \<Rightarrow> bytes \<Rightarrow> (unit, (PacketAssembly \<times> int \<times> nat) \<times> bool) outcome" where
  "Tx_nofec env st packet =
     (case st of (pa, sent, cur) \<Rightarrow>
        bind_outcome (TxWithoutFEC env pa packet) (\<lambda>(pa1, _). Ok ((pa1, sent, cur), False)))"

section \<open>Receiving\<close>

definition new_rx_chunk :: "assembly_env \<Rightarrow> nat \<Rightarrow> packetAssemblyRxChunkHolder" where
  "new_rx_chunk env n = \<lparr>rx_ef = NewRSErrorCorrectionFacility, rx_doneAll = False,
     rx_doneBitmap = replicate (ae_bits env n) False\<rparr>"

definition deliver :: "bytes list \<Rightarrow> PacketAssembly \<Rightarrow> PacketAssembly" where
  "deliver ps pa = pa\<lparr>pa_delivered := pa_delivered pa @ ps\<rparr>"

text \<open>The body of the loop for a group: the new holder, the payloads it delivers, the two counts.\<close>

definition rx_shard ::
  "assembly_env \<Rightarrow> packetAssemblyRxChunkHolder \<Rightarrow> nat \<Rightarrow> bytes \<Rightarrow>
   (unit, packetAssemblyRxChunkHolder \<times> bytes list \<times> nat \<times> nat) outcome" where
  "rx_shard env parch sid payload =
     (if rx_doneAll parch then Ok (parch, [], 0, 0)
      else case AddShard (ae_struc env) (rx_ef parch) sid payload of
        (ef, fin, data) \<Rightarrow>
          bind_outcome
            (case data of
               None \<Rightarrow> Ok (parch\<lparr>rx_ef := ef\<rparr>, [])
             | Some d \<Rightarrow> if sid < length (rx_doneBitmap parch)
                         then Ok (parch\<lparr>rx_ef := ef, rx_doneBitmap := (rx_doneBitmap parch)[sid := True]\<rparr>, [d])
                         else Panic)
            (\<lambda>(p1, now).
               if \<not> fin then Ok (p1, now, length now, 0)
               else bind_outcome (Reconstruct (ae_struc env) (ae_rs env) (rx_ef p1)) (\<lambda>(ef2, res).
                 case res of
                   None \<Rightarrow> Ok (p1\<lparr>rx_ef := ef2\<rparr>, now, length now, 0)
                 | Some ps \<Rightarrow>
                     if length ps \<le> length (rx_doneBitmap p1)
                     then let late = map fst (filter (\<lambda>(v, b). \<not> b) (zip ps (rx_doneBitmap p1)))
                          in Ok (p1\<lparr>rx_ef := ef2, rx_doneAll := True\<rparr>, now @ late, length now, length late)
                     else Panic)))"

definition Rx_step ::
  "assembly_env \<Rightarrow> (string \<Rightarrow> bool) \<Rightarrow> (string \<Rightarrow> bool) \<Rightarrow> PacketAssembly \<Rightarrow> bytes \<Rightarrow> (unit, PacketAssembly) outcome" where
  "Rx_step env live live' pa0 datagram =
     (let readendata = take 1650 datagram;
          pa = pa0\<lparr>RxBytes := RxBytes pa0 + word_of_nat (length readendata)\<rparr>
      in case struc_Unpack (ae_struc env) PacketWireHead_layout readendata of
           (_, vs, payload) \<Rightarrow>
             (case PacketWireHead_of vs of (sq, sid) \<Rightarrow>
                if sq = 0
                then Ok ((deliver [payload] pa)\<lparr>RxShardOriginalNoFEC := RxShardOriginalNoFEC pa + 1\<rparr>)
                else let k = itoa (uint sq);
                         found = (if live k then RxReassembleBuffer pa k else None)
                     in bind_outcome
                          (case found of
                             None \<Rightarrow> Ok (new_rx_chunk env (MaxDataShardPerChunk pa))
                           | Some h \<Rightarrow> if live' k then Ok h else Panic)
                          (\<lambda>parch.
                             bind_outcome (rx_shard env parch sid payload) (\<lambda>(parch', ps, n1, n2).
                               Ok ((deliver ps pa)
                                   \<lparr>RxReassembleBuffer := (RxReassembleBuffer pa)(k \<mapsto> parch'),
                                    RxShardOriginal := RxShardOriginal pa + word_of_nat n1,
                                    RxShardRecovered := RxShardRecovered pa + word_of_nat n2\<rparr>)))))"

section \<open>Boosting\<close>

datatype fec_boost_event = FecBoostInfo bool int | FecBoostTimer

text \<open>One iteration of \<open>boostWorker\<close>: the timer is the time at which the boost ends.\<close>

definition fec_boostWorker_step ::
  "int \<Rightarrow> fec_boost_event \<Rightarrow> bool \<times> int option \<Rightarrow> PacketAssembly \<Rightarrow> (bool \<times> int option) \<times> PacketAssembly" where
  "fec_boostWorker_step now ev st pa =
     (let (boosting, timer) = st;
          (boosting', timer') = (case ev of
             FecBoostInfo enable timeout \<Rightarrow>
               if enable then (True, Some (now + timeout * 1000000000)) else (boosting, timer)
           | FecBoostTimer \<Rightarrow> (False, None))
      in ((boosting', timer'), pa\<lparr>FECEnabled := boosting'\<rparr>))"

end
