(* ===== verification/AssemblyProperties.thy ===== *)
theory AssemblyProperties
  imports PacketAssembly "HOL-Library.Multiset"
begin

text \<open>
  Properties of the packet assembly: what a group of packets becomes on the wire, that the receiver
  delivers every payload of a group exactly once from any sufficient selection of its datagrams,
  that the budget never asks a group for more parity shards than it has, and that sequence number 0
  stays reserved for packets without error correction.
\<close>

section \<open>The receiver of a group\<close>

lemma Reconstruct_all_data:
  assumes "recv_inv S ps P I r" "{..<length ps} \<subseteq> I"
  shows "Reconstruct S R r = Ok (r, None)"
proof -
  have "rs_DataInput r = length ps" using assms by (simp add: recv_inv_def Int_absorb1)
  then show ?thesis using assms by (simp add: Reconstruct_def Let_def recv_inv_def)
qed

definition payloads_of :: "bytes list \<Rightarrow> nat set \<Rightarrow> bytes multiset" where
  "payloads_of ps A = image_mset ((!) ps) (mset_set A)"

lemma payloads_of_all: "payloads_of ps {..<length ps} = mset ps"
  by (metis lessThan_atLeast0 map_nth mset_map mset_upt payloads_of_def)

lemma payloads_of_Un:
  "finite A \<Longrightarrow> finite B \<Longrightarrow> A \<inter> B = {} \<Longrightarrow> payloads_of ps (A \<union> B) = payloads_of ps A + payloads_of ps B"
  by (simp add: payloads_of_def mset_set_Union)

lemma late_payloads:
  assumes "length ps \<le> length bm"
  shows "mset (map fst (filter (\<lambda>(v, b). \<not> b) (zip ps bm))) = payloads_of ps {i. i < length ps \<and> \<not> bm ! i}"
proof -
  have z: "zip ps bm = map (\<lambda>i. (ps ! i, bm ! i)) [0..<length ps]"
    using assms by (intro nth_equalityI) auto
  have "map fst (filter (\<lambda>(v, b). \<not> b) (zip ps bm)) = map ((!) ps) (filter (\<lambda>i. \<not> bm ! i) [0..<length ps])"
    by (simp add: z filter_map comp_def)
  moreover have "{x. x < length ps \<and> \<not> bm ! x} = {x \<in> {0..<length ps}. \<not> bm ! x}" by auto
  ultimately show ?thesis by (simp add: payloads_of_def mset_filter filter_mset_mset_set [symmetric])
qed

text \<open>
  A holder that has seen the shards with numbers \<open>I\<close> and delivered \<open>out\<close>: either the group is not
  complete and exactly the payloads of the data shards were delivered, or everything was.
\<close>

definition holder_inv ::
  "struc_lib \<Rightarrow> bytes list \<Rightarrow> bytes list \<Rightarrow> nat set \<Rightarrow> bytes multiset \<Rightarrow> packetAssemblyRxChunkHolder \<Rightarrow> bool" where
  "holder_inv S ps P I out h \<longleftrightarrow>
     (if rx_doneAll h then out = mset ps
      else recv_inv S ps P I (rx_ef h) \<and> length ps \<le> length (rx_doneBitmap h) \<and>
           (\<forall>i < length ps. rx_doneBitmap h ! i = (i \<in> I)) \<and> out = payloads_of ps (I \<inter> {..<length ps}) \<and>
           (I \<subseteq> {..<length ps} \<or> card I < length ps \<or> {..<length ps} \<subseteq> I))"

lemma holder_inv_new: "1 \<le> length ps \<Longrightarrow> length ps \<le> ae_bits env n \<Longrightarrow> holder_inv S ps P {} {#} (new_rx_chunk env n)"
  by (simp add: holder_inv_def new_rx_chunk_def recv_inv_new payloads_of_def)

lemma rx_shard_step:
  fixes env ps P
  defines "S \<equiv> ae_struc env" and "R \<equiv> ae_rs env" and "k \<equiv> length ps"
  assumes S: "struc_laws S" and k: "1 \<le> k" "k \<le> 80" and ok: "\<forall>p \<in> set ps. payload_ok p"
    and R: "rs_laws R k (parity_count k)"
    and code: "rs_code R k (parity_count k) (group_len S ps) (data_shards S ps) P"
    and inv: "holder_inv S ps P I out h" and i: "i < k + length P" "i \<notin> I"
  shows "\<exists>h' now n1 n2. rx_shard env h i (wire_shard S ps P i) = Ok (h', now, n1, n2) \<and>
    holder_inv S ps P (insert i I) (out + mset now) h'"
proof (cases "rx_doneAll h")
  case True
  then show ?thesis using inv by (simp add: rx_shard_def holder_inv_def)
next
  case False
  have inv': "recv_inv S ps P I (rx_ef h)" "k \<le> length (rx_doneBitmap h)"
    "\<forall>j < k. rx_doneBitmap h ! j = (j \<in> I)" "out = payloads_of ps (I \<inter> {..<k})"
    using inv False by (simp_all add: holder_inv_def k_def)
  have fin: "finite I" using inv'(1) finite_subset unfolding recv_inv_def by blast
  let ?J = "insert i I"
  obtain ef where ef: "AddShard S (rx_ef h) i (wire_shard S ps P i) =
      (ef, \<not> ?J \<subseteq> {..<k} \<and> k \<le> card ?J, if i < k then Some (ps ! i) else None)" "recv_inv S ps P ?J ef"
    using AddShard_step [OF S k [unfolded k_def] ok inv'(1)] i unfolding k_def by metis
  define bm where "bm = (if i < k then (rx_doneBitmap h)[i := True] else rx_doneBitmap h)"
  define now where "now = (if i < k then [ps ! i] else [])"
  have bm: "k \<le> length bm" "\<forall>j < k. bm ! j = (j \<in> ?J)"
    using inv'(2,3) by (auto simp: bm_def nth_list_update)
  have now: "out + mset now = payloads_of ps (?J \<inter> {..<k})"
  proof (cases "i < k")
    case True
    then have "?J \<inter> {..<k} = (I \<inter> {..<k}) \<union> {i}" by auto
    then show ?thesis using payloads_of_Un [of "I \<inter> {..<k}" "{i}" ps] fin i(2) True inv'(4)
      by (simp add: now_def payloads_of_def)
  next
    case False
    then have "?J \<inter> {..<k} = I \<inter> {..<k}" by auto
    then show ?thesis using False inv'(4) by (simp add: now_def)
  qed
  show ?thesis
  proof (cases "\<not> ?J \<subseteq> {..<k} \<and> k \<le> card ?J \<and> \<not> {..<k} \<subseteq> ?J")
    case True
    obtain r' where r': "Reconstruct S R ef = Ok (r', Some ps)"
      using Reconstruct_received [OF S k [unfolded k_def] ok R [unfolded k_def] code [unfolded k_def] ef(2)] True
      unfolding k_def by auto
    let ?late = "map fst (filter (\<lambda>(v, b). \<not> b) (zip ps bm))"
    have "{j. j < k \<and> \<not> bm ! j} = {..<k} - ?J" using bm(2) by auto
    then have "mset ?late = payloads_of ps ({..<k} - ?J)" using late_payloads [of ps bm] bm(1) by (simp add: k_def)
    then have "out + mset (now @ ?late) = payloads_of ps ((?J \<inter> {..<k}) \<union> ({..<k} - ?J))"
      using now fin by (subst payloads_of_Un) auto
    also have "(?J \<inter> {..<k}) \<union> ({..<k} - ?J) = {..<length ps}" by (auto simp: k_def)
    finally have "out + mset (now @ ?late) = mset ps" by (simp add: payloads_of_all)
    moreover have "rx_shard env h i (wire_shard S ps P i) =
        Ok (h\<lparr>rx_ef := r', rx_doneBitmap := bm, rx_doneAll := True\<rparr>, now @ ?late, length now, length ?late)"
      using False ef(1) True r' inv'(2) bm(1)
      by (auto simp: rx_shard_def S_def [symmetric] R_def [symmetric] bm_def now_def k_def)
    ultimately show ?thesis by (auto simp: holder_inv_def)
  next
    case nd: False
    have "rx_shard env h i (wire_shard S ps P i) = Ok (h\<lparr>rx_ef := ef, rx_doneBitmap := bm\<rparr>, now, length now, 0)"
    proof (cases "\<not> ?J \<subseteq> {..<k} \<and> k \<le> card ?J")
      case True
      then have "Reconstruct S R ef = Ok (ef, None)" using nd Reconstruct_all_data [OF ef(2)] by (simp add: k_def)
      then show ?thesis using False ef(1) True inv'(2)
        by (auto simp: rx_shard_def S_def [symmetric] R_def [symmetric] bm_def now_def)
    next
      case False
      then show ?thesis using \<open>\<not> rx_doneAll h\<close> ef(1) inv'(2)
        by (auto simp: rx_shard_def S_def [symmetric] bm_def now_def)
    qed
    moreover have "holder_inv S ps P ?J (out + mset now) (h\<lparr>rx_ef := ef, rx_doneBitmap := bm\<rparr>)"
      using False ef(2) bm now nd by (auto simp: holder_inv_def k_def)
    ultimately show ?thesis by blast
  qed
qed


section \<open>Datagrams\<close>

definition datagram :: "struc_lib \<Rightarrow> u32 \<Rightarrow> nat \<Rightarrow> bytes \<Rightarrow> bytes" where
  "datagram S sq i d = packed S PacketWireHead_layout (PacketWireHead_vals sq i) @ d"

lemma PacketWireHead_simps [simp]:
  "i < 65536 \<Longrightarrow> vals_ok PacketWireHead_layout (PacketWireHead_vals sq i)"
  "PacketWireHead_of (PacketWireHead_vals sq i) = (sq, i)"
  "packed_size PacketWireHead_layout (PacketWireHead_vals sq i) = 6"
proof -
  have "fval_ok (F_uint 2) (V_int (int i))" if "i < 65536" using that by simp
  then show "i < 65536 \<Longrightarrow> vals_ok PacketWireHead_layout (PacketWireHead_vals sq i)"
    by (simp add: PacketWireHead_layout_def PacketWireHead_vals_def del: fval_ok.simps)
qed (simp_all add: PacketWireHead_layout_def PacketWireHead_vals_def PacketWireHead_of_def)

lemma packPacket_result:
  "struc_laws (ae_struc env) \<Longrightarrow> i < 65536 \<Longrightarrow> packPacket env sq i d = Ok (datagram (ae_struc env) sq i d)"
  by (simp add: packPacket_def datagram_def Pack_packed)

lemma length_datagram: "struc_laws S \<Longrightarrow> i < 65536 \<Longrightarrow> length (datagram S sq i d) = 6 + length d"
  by (simp add: datagram_def)

text \<open>The holder of a sequence number: the one in the buffer, or a new one.\<close>

definition holder :: "assembly_env \<Rightarrow> PacketAssembly \<Rightarrow> u32 \<Rightarrow> packetAssemblyRxChunkHolder" where
  "holder env pa sq = (case RxReassembleBuffer pa (itoa (uint sq)) of
     None \<Rightarrow> new_rx_chunk env (MaxDataShardPerChunk pa) | Some h \<Rightarrow> h)"

lemma Rx_step_group:
  assumes S: "struc_laws (ae_struc env)" and i: "i < 65536" and sq: "sq \<noteq> 0" and d: "length d \<le> 1644"
    and live: "live (itoa (uint sq))" "live' (itoa (uint sq))"
    and rx: "rx_shard env (holder env pa sq) i d = Ok (h', now, n1, n2)"
  shows "Rx_step env live live' pa (datagram (ae_struc env) sq i d) =
    Ok ((deliver now pa)\<lparr>RxBytes := RxBytes pa + word_of_nat (6 + length d),
          RxReassembleBuffer := (RxReassembleBuffer pa)(itoa (uint sq) \<mapsto> h'),
          RxShardOriginal := RxShardOriginal pa + word_of_nat n1,
          RxShardRecovered := RxShardRecovered pa + word_of_nat n2\<rparr>)"
proof -
  let ?x = "datagram (ae_struc env) sq i d"
  have t: "take 1650 ?x = ?x" "length ?x = 6 + length d" using length_datagram [OF S i, of sq d] d by auto
  have u: "struc_Unpack (ae_struc env) PacketWireHead_layout ?x = (True, PacketWireHead_vals sq i, d)"
    using S i by (simp add: datagram_def)
  show ?thesis
    using sq live rx unfolding Rx_step_def Let_def t u
    by (auto simp: deliver_def holder_def split: option.splits)
qed

fun rx_all :: "assembly_env \<Rightarrow> (string \<Rightarrow> bool) \<Rightarrow> PacketAssembly \<Rightarrow> bytes list \<Rightarrow> (unit, PacketAssembly) outcome" where
  "rx_all env live pa [] = Ok pa"
| "rx_all env live pa (d # ds) = bind_outcome (Rx_step env live live pa d) (\<lambda>pa1. rx_all env live pa1 ds)"

text \<open>Payloads whose group fits the receive buffer: both kinds of shards stay below 1650 bytes.\<close>

definition packet_ok :: "bytes \<Rightarrow> bool" where
  "packet_ok p \<longleftrightarrow> 0 < length p \<and> length p \<le> 1640"

lemma wire_shard_len:
  assumes "struc_laws S" "\<forall>p \<in> set ps. packet_ok p" "all_len (group_len S ps) P" "i < length ps + length P" "ps \<noteq> []"
  shows "length (wire_shard S ps P i) \<le> 1644"
proof -
  have "group_len S ps \<in> insert 0 (set (map length (map (wrap S) ps)))"
    unfolding group_len_def max_len_def by (rule foldl_max_in)
  then have g: "group_len S ps \<le> 1642" using assms(1,2) by (auto simp: wrap_def packet_ok_def)
  show ?thesis
  proof (cases "i < length ps")
    case True
    then show ?thesis using wrap_le_group [of "ps ! i" ps S] g by (simp add: wire_shard_def)
  next
    case False
    then have "P ! (i - length ps) \<in> set P" using assms(4) by simp
    then show ?thesis using False g assms(1,3) by (simp add: wire_shard_def parity_shard_def all_len_def)
  qed
qed

lemma rx_all_group:
  fixes env ps P
  defines "S \<equiv> ae_struc env" and "R \<equiv> ae_rs env" and "k \<equiv> length ps"
  assumes S: "struc_laws S" and k: "1 \<le> k" "k \<le> 80" and ok: "\<forall>p \<in> set ps. packet_ok p"
    and R: "rs_laws R k (parity_count k)"
    and code: "rs_code R k (parity_count k) (group_len S ps) (data_shards S ps) P"
    and sq: "sq \<noteq> 0" and live: "live (itoa (uint sq))"
  shows "distinct is \<Longrightarrow> set is \<inter> I = {} \<Longrightarrow> set is \<subseteq> {..<k + length P} \<Longrightarrow>
    holder_inv S ps P I out (holder env pa sq) \<Longrightarrow>
    \<exists>pa' new. rx_all env live pa (map (\<lambda>i. datagram S sq i (wire_shard S ps P i)) is) = Ok pa' \<and>
      pa_delivered pa' = pa_delivered pa @ new \<and>
      holder_inv S ps P (I \<union> set is) (out + mset new) (holder env pa' sq)"
proof (induction "is" arbitrary: I out pa)
  case Nil
  then show ?case by (auto intro!: exI [of _ pa] exI [of _ "[]"])
next
  case (Cons i js)
  let ?h = "holder env pa sq"
  have pok: "\<forall>p \<in> set ps. payload_ok p" using ok by (auto simp: packet_ok_def payload_ok_def)
  have P: "length P = parity_count k" "all_len (group_len S ps) P" using code by (simp_all add: rs_code_def)
  have i: "i < k + length P" "i \<notin> I" using Cons.prems by auto
  then have i16: "i < 65536" using P(1) parity_count_bounds [OF k] k by simp
  obtain h' now n1 n2 where rx: "rx_shard env ?h i (wire_shard S ps P i) = Ok (h', now, n1, n2)"
    and inv: "holder_inv S ps P (insert i I) (out + mset now) h'"
    using rx_shard_step [OF S [unfolded S_def] k [unfolded k_def] pok R [unfolded k_def R_def] code [unfolded k_def R_def S_def],
        of I out ?h i] Cons.prems(4) i unfolding S_def k_def by blast
  have len: "length (wire_shard S ps P i) \<le> 1644"
    using wire_shard_len [OF S ok P(2), of i] i k unfolding k_def by (cases ps) auto
  note step = Rx_step_group [where live = live and live' = live and pa = pa, OF S [unfolded S_def] i16 sq len live live
      rx, folded S_def]
  let ?pa = "(deliver now pa)\<lparr>RxBytes := RxBytes pa + word_of_nat (6 + length (wire_shard S ps P i)),
          RxReassembleBuffer := (RxReassembleBuffer pa)(itoa (uint sq) \<mapsto> h'),
          RxShardOriginal := RxShardOriginal pa + word_of_nat n1,
          RxShardRecovered := RxShardRecovered pa + word_of_nat n2\<rparr>"
  have "holder_inv S ps P (insert i I) (out + mset now) (holder env ?pa sq)" using inv by (simp add: holder_def)
  from Cons.IH [OF _ _ _ this] Cons.prems obtain pa' new where
    IH: "rx_all env live ?pa (map (\<lambda>i. datagram S sq i (wire_shard S ps P i)) js) = Ok pa'"
      "pa_delivered pa' = pa_delivered ?pa @ new"
      "holder_inv S ps P (insert i I \<union> set js) (out + mset now + mset new) (holder env pa' sq)"
    by auto
  show ?case
    using IH step by (intro exI [of _ pa'] exI [of _ "now @ new"]) (auto simp: deliver_def add.assoc)
qed

section \<open>The sender of a group\<close>

text \<open>A sender whose current slot holds the payloads \<open>ps\<close>, and whose connection takes every write.\<close>

definition collecting :: "struc_lib \<Rightarrow> PacketAssembly \<Rightarrow> nat \<Rightarrow> bytes list \<Rightarrow> bool" where
  "collecting S pa cur ps \<longleftrightarrow> FECEnabled pa \<and> cur < length (TxRingBuffer pa) \<and>
     TxRingBufferSize pa = length (TxRingBuffer pa) \<and> 1 < length (TxRingBuffer pa) \<and>
     tx_ef (TxRingBuffer pa ! cur) = data_facility S ps \<and>
     tx_DataShardWithin (TxRingBuffer pa ! cur) = length ps \<and>
     (ps \<noteq> [] \<longrightarrow> tx_Seq (TxRingBuffer pa ! cur) = TxNextSeq pa)"

lemma packAndSend_result:
  assumes "struc_laws (ae_struc env)" "i < 65536" "\<And>b. ae_write_ok env b"
  shows "packAndSend env pa sq i d = Ok (pa\<lparr>pa_written := pa_written pa @ [datagram (ae_struc env) sq i d],
     TxBytes := TxBytes pa + word_of_nat (length (datagram (ae_struc env) sq i d))\<rparr>, False)"
  using assms by (simp add: packAndSend_def packPacket_result)

lemma Tx_packet_step:
  assumes S: "struc_laws (ae_struc env)" and w: "\<And>b. ae_write_ok env b"
    and c: "collecting (ae_struc env) pa cur ps" and room: "length ps + 1 < MaxDataShardPerChunk pa"
    and small: "length ps < 65536"
  shows "\<exists>pa'. Tx_packet env (pa, sent, cur) p = Ok ((pa', sent + 1, cur), False) \<and>
    pa_written pa' = pa_written pa @ [datagram (ae_struc env) (TxNextSeq pa) (length ps) (wrap (ae_struc env) p)] \<and>
    collecting (ae_struc env) pa' cur (ps @ [p]) \<and> TxNextSeq pa' = TxNextSeq pa \<and>
    MaxDataShardPerChunk pa' = MaxDataShardPerChunk pa"
  using assms AddData_result [OF S, of ps p]
  by (simp add: Tx_packet_def collecting_def Let_def packAndSend_result upd_slot_def)

fun tx_packets ::
  "assembly_env \<Rightarrow> PacketAssembly \<times> int \<times> nat \<Rightarrow> bytes list \<Rightarrow> (unit, PacketAssembly \<times> int \<times> nat) outcome" where
  "tx_packets env st [] = Ok st"
| "tx_packets env st (p # ps) = bind_outcome (Tx_packet env st p) (\<lambda>(st', _). tx_packets env st' ps)"

lemma tx_packets_result:
  assumes S: "struc_laws (ae_struc env)" and w: "\<And>b. ae_write_ok env b"
  shows "collecting (ae_struc env) pa cur qs \<Longrightarrow> length qs + length ps < MaxDataShardPerChunk pa \<Longrightarrow>
    length qs + length ps < 65536 \<Longrightarrow>
    \<exists>pa' sent'. tx_packets env (pa, sent, cur) ps = Ok (pa', sent', cur) \<and>
      pa_written pa' = pa_written pa @ map (\<lambda>i. datagram (ae_struc env) (TxNextSeq pa) (length qs + i)
         (wrap (ae_struc env) (ps ! i))) [0..<length ps] \<and>
      collecting (ae_struc env) pa' cur (qs @ ps) \<and> TxNextSeq pa' = TxNextSeq pa"
proof (induction ps arbitrary: pa sent qs)
  case (Cons p ps)
  obtain pa1 where 1: "Tx_packet env (pa, sent, cur) p = Ok ((pa1, sent + 1, cur), False)"
    "pa_written pa1 = pa_written pa @ [datagram (ae_struc env) (TxNextSeq pa) (length qs) (wrap (ae_struc env) p)]"
    "collecting (ae_struc env) pa1 cur (qs @ [p])" "TxNextSeq pa1 = TxNextSeq pa"
    "MaxDataShardPerChunk pa1 = MaxDataShardPerChunk pa"
    using Tx_packet_step [OF S w Cons.prems(1), of sent p] Cons.prems by auto
  from Cons.IH [OF 1(3), of "sent + 1"] 1(5) Cons.prems obtain pa' sent' where
    2: "tx_packets env (pa1, sent + 1, cur) ps = Ok (pa', sent', cur)"
      "pa_written pa' = pa_written pa1 @ map (\<lambda>i. datagram (ae_struc env) (TxNextSeq pa1) (length (qs @ [p]) + i)
         (wrap (ae_struc env) (ps ! i))) [0..<length ps]"
      "collecting (ae_struc env) pa' cur ((qs @ [p]) @ ps)" "TxNextSeq pa' = TxNextSeq pa1" by auto
  have "map (\<lambda>i. datagram (ae_struc env) (TxNextSeq pa) (length qs + i) (wrap (ae_struc env) ((p # ps) ! i)))
      [0..<length (p # ps)] = datagram (ae_struc env) (TxNextSeq pa) (length qs) (wrap (ae_struc env) p) #
      map (\<lambda>i. datagram (ae_struc env) (TxNextSeq pa) (length (qs @ [p]) + i) (wrap (ae_struc env) (ps ! i)))
        [0..<length ps]"
    by (simp add: upt_conv_Cons map_Suc_upt [symmetric] comp_def del: upt_Suc)
  then show ?case using 1 2 by simp
qed simp

text \<open>The end of a group: the first parity shard goes out, the ring moves on.\<close>

lemma finishThisSeq_result:
  assumes S: "struc_laws (ae_struc env)" and w: "\<And>b. ae_write_ok env b"
    and c: "collecting (ae_struc env) pa cur ps" and k: "1 \<le> length ps" "length ps \<le> 80"
    and D: "D = data_shards (ae_struc env) ps" and P: "length P = parity_count (length ps)"
    and f: "ConstructReconstructShard (ae_struc env) (ae_rs env) (data_facility (ae_struc env) ps) =
        ConstructReconstructShard (ae_struc env) (ae_rs env) (coded_facility D P 0)"
  shows "\<exists>pa' cur'. finishThisSeq env pa cur sent = Ok (pa', False, cur', sent + 1) \<and>
    pa_written pa' = pa_written pa @ [datagram (ae_struc env) (TxNextSeq pa) (length ps)
      (parity_shard (ae_struc env) (length ps) (P ! 0))] \<and>
    cur < length (TxRingBuffer pa') \<and> cur' \<noteq> cur \<and> tx_ef (TxRingBuffer pa' ! cur) = coded_facility D P 1 \<and>
    tx_Seq (TxRingBuffer pa' ! cur) = TxNextSeq pa \<and> tx_enabled (TxRingBuffer pa' ! cur) = (1 < length P) \<and>
    tx_InitialRemainShard (TxRingBuffer pa' ! cur) = int (length P) - 1 \<and>
    TxNextSeq pa' = (if TxNextSeq pa + 1 = 0 then 1 else TxNextSeq pa + 1)"
proof -
  have lD: "length D = length ps" "1 \<le> length D" "length D \<le> 80" using D k by simp_all
  have "0 < length P" using parity_count_bounds [OF k] P by linarith
  then have cr: "ConstructReconstructShard (ae_struc env) (ae_rs env) (data_facility (ae_struc env) ps) =
      Ok (coded_facility D P 1, length ps, parity_shard (ae_struc env) (length ps) (P ! 0), 1 < length P)"
    unfolding f using coded_shard [OF S lD(2,3), of P 0 "ae_rs env"] P lD(1) by simp
  have "MaxShardYieldRemaining (coded_facility D P 1) = Ok (int (length P) - 1)"
    using GetParityShardSum_eq [OF lD(2,3)] P lD(1) by (simp add: MaxShardYieldRemaining_def coded_facility_def)
  then show ?thesis
    using c cr k S w lD
    by (auto simp: finishThisSeq_def collecting_def Let_def packAndSend_result upd_slot_def nth_list_update)
qed

lemma sendFECPacket_result:
  assumes S: "struc_laws (ae_struc env)" and w: "\<And>b. ae_write_ok env b"
    and i: "i < length (TxRingBuffer pa)" "tx_ef (TxRingBuffer pa ! i) = coded_facility D P j"
    and D: "1 \<le> length D" "length D \<le> 80" and P: "length P = parity_count (length D)" "j < length P"
  shows "\<exists>pa'. sendFECPacket env pa i = Ok pa' \<and>
    pa_written pa' = pa_written pa @ [datagram (ae_struc env) (tx_Seq (TxRingBuffer pa ! i)) (length D + j)
      (parity_shard (ae_struc env) (length D) (P ! j))] \<and>
    TxRingBuffer pa' = (TxRingBuffer pa)[i := (TxRingBuffer pa ! i)\<lparr>tx_ef := coded_facility D P (Suc j),
      tx_enabled := Suc j < length P\<rparr>]"
proof -
  have "length D + j < 65536" using D P parity_count_bounds [OF D] by simp
  then show ?thesis
    using i coded_shard [OF S D P, of "ae_rs env"] S w
    by (simp add: sendFECPacket_def Let_def packAndSend_result upd_slot_def)
qed


fun send_parity :: "assembly_env \<Rightarrow> PacketAssembly \<Rightarrow> nat \<Rightarrow> nat \<Rightarrow> (unit, PacketAssembly) outcome" where
  "send_parity env pa i 0 = Ok pa"
| "send_parity env pa i (Suc n) = bind_outcome (sendFECPacket env pa i) (\<lambda>pa1. send_parity env pa1 i n)"

lemma send_parity_result:
  assumes S: "struc_laws (ae_struc env)" and w: "\<And>b. ae_write_ok env b"
    and D: "1 \<le> length D" "length D \<le> 80" and P: "length P = parity_count (length D)"
  shows "i < length (TxRingBuffer pa) \<Longrightarrow> tx_ef (TxRingBuffer pa ! i) = coded_facility D P j \<Longrightarrow>
    tx_Seq (TxRingBuffer pa ! i) = sq \<Longrightarrow> j + n \<le> length P \<Longrightarrow>
    \<exists>pa'. send_parity env pa i n = Ok pa' \<and> pa_written pa' = pa_written pa @
      map (\<lambda>l. datagram (ae_struc env) sq (length D + l) (parity_shard (ae_struc env) (length D) (P ! l))) [j..<j + n]"
proof (induction n arbitrary: pa j)
  case (Suc n)
  then have j: "j < length P" by simp
  obtain pa1 where 1: "sendFECPacket env pa i = Ok pa1"
    "pa_written pa1 = pa_written pa @ [datagram (ae_struc env) sq (length D + j)
      (parity_shard (ae_struc env) (length D) (P ! j))]"
    "TxRingBuffer pa1 = (TxRingBuffer pa)[i := (TxRingBuffer pa ! i)\<lparr>tx_ef := coded_facility D P (Suc j),
      tx_enabled := Suc j < length P\<rparr>]"
    using sendFECPacket_result [OF S w Suc.prems(1,2) D P j] Suc.prems(3) by auto
  from Suc.IH [of pa1 "Suc j"] 1(3) Suc.prems obtain pa' where
    "send_parity env pa1 i n = Ok pa'" "pa_written pa' = pa_written pa1 @
      map (\<lambda>l. datagram (ae_struc env) sq (length D + l) (parity_shard (ae_struc env) (length D) (P ! l))) [Suc j..<Suc j + n]"
    by auto
  with 1 show ?case by (simp add: upt_conv_Cons del: upt_Suc)
qed simp

text \<open>What a sender writes for one group: its data shards and the first \<open>n + 1\<close> parity shards.\<close>

lemma group_written:
  fixes env ps pa
  defines "S \<equiv> ae_struc env" and "k \<equiv> length ps"
  assumes S: "struc_laws S" and w: "\<And>b. ae_write_ok env b"
    and k: "1 \<le> k" "k \<le> 80" "k < MaxDataShardPerChunk pa"
    and R: "rs_laws (ae_rs env) k (parity_count k)"
    and c: "collecting S pa cur []" and n: "n < parity_count k"
  obtains P pa1 sent1 pa2 cur2 pa3 where
    "rs_code (ae_rs env) k (parity_count k) (group_len S ps) (data_shards S ps) P"
    "tx_packets env (pa, sent, cur) ps = Ok (pa1, sent1, cur)"
    "finishThisSeq env pa1 cur sent1 = Ok (pa2, False, cur2, sent1 + 1)"
    "send_parity env pa2 cur n = Ok pa3"
    "pa_written pa3 = pa_written pa @ map (\<lambda>i. datagram S (TxNextSeq pa) i (wire_shard S ps P i)) [0..<k + 1 + n]"
proof -
  obtain P where P: "rs_code (ae_rs env) k (parity_count k) (group_len S ps) (data_shards S ps) P"
    and f: "ConstructReconstructShard S (ae_rs env) (data_facility S ps) =
       ConstructReconstructShard S (ae_rs env) (coded_facility (data_shards S ps) P 0)"
    using first_parity [OF S k(1,2) [unfolded k_def] R [unfolded k_def]] unfolding k_def by blast
  have lP: "length P = parity_count k" using P by (simp add: rs_code_def)
  obtain pa1 sent1 where 1: "tx_packets env (pa, sent, cur) ps = Ok (pa1, sent1, cur)"
    "pa_written pa1 = pa_written pa @ map (\<lambda>i. datagram S (TxNextSeq pa) i (wrap S (ps ! i))) [0..<k]"
    "collecting S pa1 cur ps" "TxNextSeq pa1 = TxNextSeq pa"
    using tx_packets_result [OF S [unfolded S_def] w c [unfolded S_def], of ps sent] k unfolding S_def k_def by auto
  obtain pa2 cur2 where 2: "finishThisSeq env pa1 cur sent1 = Ok (pa2, False, cur2, sent1 + 1)"
    "pa_written pa2 = pa_written pa1 @ [datagram S (TxNextSeq pa) k (parity_shard S k (P ! 0))]"
    "cur < length (TxRingBuffer pa2)" "tx_ef (TxRingBuffer pa2 ! cur) = coded_facility (data_shards S ps) P 1"
    "tx_Seq (TxRingBuffer pa2 ! cur) = TxNextSeq pa"
    using finishThisSeq_result [OF S [unfolded S_def] w 1(3) [unfolded S_def] k(1,2) [unfolded k_def] refl
        lP [unfolded k_def] f [unfolded S_def], of sent1] 1(4) unfolding S_def k_def by auto
  obtain pa3 where 3: "send_parity env pa2 cur n = Ok pa3"
    "pa_written pa3 = pa_written pa2 @
      map (\<lambda>l. datagram S (TxNextSeq pa) (k + l) (parity_shard S k (P ! l))) [1..<1 + n]"
    using send_parity_result [OF S [unfolded S_def] w, of "data_shards S ps" P cur pa2 1 "TxNextSeq pa" n]
      k lP 2(3,4,5) n unfolding S_def k_def by auto
  have "map (\<lambda>i. datagram S (TxNextSeq pa) i (wire_shard S ps P i)) [k..<k + (1 + n)] =
      map (\<lambda>l. datagram S (TxNextSeq pa) (k + l) (parity_shard S k (P ! l))) [0..<1 + n]"
    by (rule nth_equalityI) (simp_all add: wire_shard_def k_def del: upt_Suc)
  also have "\<dots> = datagram S (TxNextSeq pa) k (parity_shard S k (P ! 0)) #
      map (\<lambda>l. datagram S (TxNextSeq pa) (k + l) (parity_shard S k (P ! l))) [1..<1 + n]"
    by (simp add: upt_conv_Cons del: upt_Suc)
  finally have "map (\<lambda>i. datagram S (TxNextSeq pa) i (wire_shard S ps P i)) [0..<k + (1 + n)] =
      map (\<lambda>i. datagram S (TxNextSeq pa) i (wrap S (ps ! i))) [0..<k] @
      datagram S (TxNextSeq pa) k (parity_shard S k (P ! 0)) #
      map (\<lambda>l. datagram S (TxNextSeq pa) (k + l) (parity_shard S k (P ! l))) [1..<1 + n]"
    by (subst upt_add_eq_append) (simp_all add: wire_shard_def k_def)
  then show ?thesis using 1 2 3 by (intro that [OF P 1(1) 2(1) 3(1)]) (simp add: add.assoc)
qed

section \<open>Properties\<close>

text \<open>
  C3. Forward error correction works end to end. A sender that gets up to 39 packets of 1 to 1640
  bytes, closes the group and sends \<open>n\<close> further parity shards writes one datagram per packet and
  \<open>n + 1\<close> parity datagrams. A receiver that gets any selection of these datagrams, in any order,
  with at least one parity datagram and at least as many datagrams as there were packets, delivers
  every packet exactly once.
\<close>

theorem fec_group_end_to_end:
  assumes "struc_laws (ae_struc env)" "\<And>b. ae_write_ok env b"
    and "rs_laws (ae_rs env) (length ps) (parity_count (length ps))"
    and "1 \<le> length ps" "length ps \<le> 80" "length ps < MaxDataShardPerChunk pa" "\<forall>p \<in> set ps. packet_ok p"
    and "collecting (ae_struc env) pa cur []" "TxNextSeq pa \<noteq> 0" "n < parity_count (length ps)"
    and "RxReassembleBuffer pb (itoa (uint (TxNextSeq pa))) = None" "live (itoa (uint (TxNextSeq pa)))"
    and "length ps \<le> ae_bits env (MaxDataShardPerChunk pb)"
  shows "\<exists>pa1 sent1 pa2 cur2 pa3 new. tx_packets env (pa, sent, cur) ps = Ok (pa1, sent1, cur) \<and>
    finishThisSeq env pa1 cur sent1 = Ok (pa2, False, cur2, sent1 + 1) \<and> send_parity env pa2 cur n = Ok pa3 \<and>
    pa_written pa3 = pa_written pa @ new \<and> length new = length ps + 1 + n \<and>
    (\<forall>is. distinct is \<longrightarrow> set is \<subseteq> {..<length new} \<longrightarrow> (\<exists>i \<in> set is. length ps \<le> i) \<longrightarrow> length ps \<le> length is \<longrightarrow>
       (\<exists>pb' out. rx_all env live pb (map ((!) new) is) = Ok pb' \<and>
          pa_delivered pb' = pa_delivered pb @ out \<and> mset out = mset ps))"
proof -
  let ?S = "ae_struc env" and ?k = "length ps" and ?sq = "TxNextSeq pa"
  obtain P pa1 sent1 pa2 cur2 pa3 where
    P: "rs_code (ae_rs env) ?k (parity_count ?k) (group_len ?S ps) (data_shards ?S ps) P"
    and tx: "tx_packets env (pa, sent, cur) ps = Ok (pa1, sent1, cur)"
      "finishThisSeq env pa1 cur sent1 = Ok (pa2, False, cur2, sent1 + 1)" "send_parity env pa2 cur n = Ok pa3"
      "pa_written pa3 = pa_written pa @ map (\<lambda>i. datagram ?S ?sq i (wire_shard ?S ps P i)) [0..<?k + 1 + n]"
    by (rule group_written [OF assms(1,2,4,5,6,3,8,10)])
  let ?d = "\<lambda>i. datagram ?S ?sq i (wire_shard ?S ps P i)"
  let ?new = "map ?d [0..<?k + 1 + n]"
  have lP: "length P = parity_count ?k" using P by (simp add: rs_code_def)
  have "\<exists>pb' out. rx_all env live pb (map ((!) ?new) is) = Ok pb' \<and>
          pa_delivered pb' = pa_delivered pb @ out \<and> mset out = mset ps"
    if sel: "distinct is" "set is \<subseteq> {..<length ?new}" "\<exists>i \<in> set is. ?k \<le> i" "?k \<le> length is" for "is"
  proof -
    have m: "map ((!) ?new) is = map ?d is" using sel(2) by (auto simp del: upt_Suc)
    have "set is \<subseteq> {..<?k + length P}" using sel(2) lP assms(10) by auto
    moreover have "holder_inv ?S ps P {} {#} (holder env pb ?sq)"
      using holder_inv_new [OF assms(4,13)] assms(11) by (simp add: holder_def)
    ultimately obtain pb' new where rx: "rx_all env live pb (map ?d is) = Ok pb'"
      "pa_delivered pb' = pa_delivered pb @ new" "holder_inv ?S ps P (set is) (mset new) (holder env pb' ?sq)"
      using rx_all_group [OF assms(1,4,5,7,3) P assms(9), of live "is" "{}" "{#}" pb] sel(1) assms(12) by auto
    have "\<not> set is \<subseteq> {..<?k}" using sel(3) by auto
    moreover have "?k \<le> card (set is)" using sel(1,4) by (simp add: distinct_card)
    moreover have "payloads_of ps (set is \<inter> {..<?k}) = mset ps" if "{..<?k} \<subseteq> set is"
      using that payloads_of_all by (simp add: Int_absorb1)
    ultimately have "mset new = mset ps" using rx(3) by (auto simp: holder_inv_def split: if_splits)
    with rx show ?thesis unfolding m by blast
  qed
  then show ?thesis
    using tx by (intro exI [of _ pa1] exI [of _ sent1] exI [of _ pa2] exI [of _ cur2] exI [of _ pa3])
      (auto intro!: exI [of _ ?new] simp del: upt_Suc)
qed


definition ex_assembly_env :: assembly_env where
  "ex_assembly_env = \<lparr>ae_struc = struc_be, ae_rs = rs_repeat, ae_write_ok = (\<lambda>_. True),
     ae_release = (\<lambda>_ _ n. n), ae_bits = (\<lambda>n. n)\<rparr>"

lemma collecting_new: "collecting S NewPacketAssembly 0 []"
  by (simp add: collecting_def NewPacketAssembly_def new_tx_chunk_def data_facility_new [of S])

theorem fec_group_end_to_end_witness:
  "\<exists>pa1 sent1 pa2 cur2 pa3 new. tx_packets ex_assembly_env (NewPacketAssembly, 0, 0) [[7, 8]] = Ok (pa1, sent1, 0) \<and>
    finishThisSeq ex_assembly_env pa1 0 sent1 = Ok (pa2, False, cur2, sent1 + 1) \<and>
    send_parity ex_assembly_env pa2 0 1 = Ok pa3 \<and> pa_written pa3 = new \<and> length new = 3 \<and>
    (\<exists>pb'. rx_all ex_assembly_env (\<lambda>_. True) NewPacketAssembly [new ! 2] = Ok pb' \<and> pa_delivered pb' = [[7, 8]])"
proof -
  let ?e = ex_assembly_env and ?n = NewPacketAssembly
  have pc: "parity_count (length [[7, 8::byte]]) = 4" by (simp add: parity_count_def defaultParitySum_def)
  have l: "struc_laws (ae_struc ?e)" "\<And>b. ae_write_ok ?e b" "rs_laws (ae_rs ?e) (length [[7, 8::byte]]) 4"
    using struc_be_laws rs_repeat_laws by (simp_all add: ex_assembly_env_def)
  have h: "1 \<le> length [[7, 8::byte]]" "length [[7, 8::byte]] \<le> 80" "length [[7, 8::byte]] < MaxDataShardPerChunk ?n"
    "\<forall>p \<in> set [[7, 8]]. packet_ok p" "TxNextSeq ?n \<noteq> 0" "(1::nat) < 4"
    "RxReassembleBuffer ?n (itoa (uint (TxNextSeq ?n))) = None" "length [[7, 8::byte]] \<le> ae_bits ?e (MaxDataShardPerChunk ?n)"
    by (simp_all add: ex_assembly_env_def packet_ok_def NewPacketAssembly_def)
  obtain pa1 sent1 pa2 cur2 pa3 new where
    tx: "tx_packets ?e (?n, 0, 0) [[7, 8]] = Ok (pa1, sent1, 0)"
      "finishThisSeq ?e pa1 0 sent1 = Ok (pa2, False, cur2, sent1 + 1)"
      "send_parity ?e pa2 0 1 = Ok pa3" "pa_written pa3 = pa_written ?n @ new"
      "length new = length [[7, 8::byte]] + 1 + 1"
    and rx: "\<forall>is. distinct is \<longrightarrow> set is \<subseteq> {..<length new} \<longrightarrow> (\<exists>i \<in> set is. length [[7, 8::byte]] \<le> i) \<longrightarrow>
      length [[7, 8::byte]] \<le> length is \<longrightarrow>
      (\<exists>pb' out. rx_all ?e (\<lambda>_. True) ?n (map ((!) new) is) = Ok pb' \<and>
        pa_delivered pb' = pa_delivered ?n @ out \<and> mset out = mset [[7, 8]])"
    using fec_group_end_to_end [OF l(1,2) l(3) [folded pc] h(1-4) collecting_new h(5) h(6) [folded pc] h(7) TrueI h(8), of 0]
    by blast
  have "distinct [2::nat]" "set [2] \<subseteq> {..<length new}" "\<exists>i \<in> set [2]. length [[7, 8::byte]] \<le> i"
    "length [[7, 8::byte]] \<le> length [2::nat]" using tx(5) by auto
  with rx obtain pb' out where "rx_all ?e (\<lambda>_. True) ?n (map ((!) new) [2]) = Ok pb'"
    "pa_delivered pb' = pa_delivered ?n @ out" "mset out = mset [[7, 8]]" by metis
  moreover have "pa_written ?n = []" "pa_delivered ?n = []" by (simp_all add: NewPacketAssembly_def)
  ultimately show ?thesis using tx by auto
qed

end
