(* ===== verification/AssemblySafety.thy ===== *)
theory AssemblySafety
  imports AssemblyProperties
begin

text \<open>
  The loop of \<open>Tx\<close> never panics: whatever packets, epochs and mode changes it sees, every facility it
  asks for a parity shard still has one, the tables of shard counts are indexed in range, and the
  sequence number of a group is never 0. The coding library is only assumed to encode shards of
  equal length (\<open>rs_encodes\<close>).
\<close>

section \<open>Facilities\<close>

definition rs_encodes :: "rs_lib \<Rightarrow> nat \<Rightarrow> nat \<Rightarrow> bool" where
  "rs_encodes R k m \<longleftrightarrow> rs_New R k m \<and>
     (\<forall>n sh. 0 < n \<longrightarrow> length sh = k + m \<longrightarrow> all_len n sh \<longrightarrow>
        (\<exists>out. rs_Encode R k m (map Some sh) = Some out \<and> length out = k + m))"

text \<open>A facility with parity shards left, and how many.\<close>

definition yields :: "RSErrorCorrectionFacility \<Rightarrow> nat \<Rightarrow> bool" where
  "yields ef n \<longleftrightarrow> (\<exists>k. 1 \<le> k \<and> k \<le> 80 \<and> rs_TotalDataShards ef = int k \<and>
     length (rs_buffer ef) = k + parity_count k \<and> rs_ShardInput ef + n = parity_count k)"

lemma yields_remaining: "yields ef n \<Longrightarrow> MaxShardYieldRemaining ef = Ok (int n)"
  by (auto simp: yields_def MaxShardYieldRemaining_def GetParityShardSum_eq)

lemma yields_shard:
  assumes "struc_laws S" "yields ef (Suc n)"
  shows "\<exists>ef' i d. ConstructReconstructShard S R ef = Ok (ef', i, d, 0 < n) \<and> yields ef' n \<and> i < 65536"
proof -
  obtain k where k: "1 \<le> k" "k \<le> 80" "rs_TotalDataShards ef = int k"
    "length (rs_buffer ef) = k + parity_count k" "rs_ShardInput ef + Suc n = parity_count k"
    using assms(2) by (auto simp: yields_def)
  have "k + rs_ShardInput ef < 65536" using k parity_count_bounds [OF k(1,2)] by simp
  moreover have "(Suc (rs_ShardInput ef) < parity_count k) = (0 < n)" using k(5) by auto
  moreover have "yields (ef\<lparr>rs_ShardInput := Suc (rs_ShardInput ef)\<rparr>) n"
    using k by (auto simp: yields_def)
  ultimately show ?thesis
    using k assms(1) by (simp add: ConstructReconstructShard_def Let_def GetParityShardSum_eq Pack_packed)
qed

lemma data_facility_shard:
  assumes S: "struc_laws S" and k: "1 \<le> length ps" "length ps \<le> 80"
    and R: "rs_encodes R (length ps) (parity_count (length ps))"
  shows "\<exists>ef i d n. ConstructReconstructShard S R (data_facility S ps) = Ok (ef, i, d, 0 < n) \<and> yields ef n \<and> i < 65536"
proof -
  let ?k = "length ps" and ?m = "parity_count (length ps)" and ?n = "group_len S ps"
  have ne: "ps \<noteq> []" using k by auto
  let ?sh = "data_shards S ps @ replicate ?m (replicate ?n 0)"
  have "length ?sh = ?k + ?m" "all_len ?n ?sh"
    using all_len_data_shards [of S ps] by (auto simp: all_len_def)
  then obtain out where out: "rs_Encode R ?k ?m (map Some ?sh) = Some out" "length out = ?k + ?m"
    using R group_len_pos [OF S ne] unfolding rs_encodes_def by blast
  obtain n where n: "?m = Suc n" using parity_count_bounds [OF k] by (cases "?m") auto
  let ?ef = "\<lparr>rs_buffer = out, rs_DataInput = ?k, rs_ShardInput = 0, rs_TotalDataShards = int ?k\<rparr>"
  have "yields ?ef (Suc n)" using k out(2) n by (auto simp: yields_def intro!: exI [of _ ?k])
  then obtain ef i d where ef: "ConstructReconstructShard S R ?ef = Ok (ef, i, d, 0 < n)" "yields ef n" "i < 65536"
    using yields_shard [OF S] by blast
  have "ConstructReconstructShard S R (data_facility S ps) = ConstructReconstructShard S R ?ef"
    using R ne k out(1) unfolding rs_encodes_def
    by (simp add: ConstructReconstructShard_def data_facility_def Let_def GetParityShardSum_eq
        matchsize_encode [unfolded comp_def] comp_def)
  with ef show ?thesis by auto
qed

section \<open>The invariant of the sender\<close>

text \<open>
  An enabled slot has its parity shards computed (the last one may be gone, when its write failed);
  the current slot is not enabled and collects fewer payloads than a group may hold.
\<close>

definition slot_ok :: "packetAssemblyTxChunkHolder \<Rightarrow> bool" where
  "slot_ok h \<longleftrightarrow> (tx_enabled h \<longrightarrow> (\<exists>n. yields (tx_ef h) n))"

definition tx_inv :: "struc_lib \<Rightarrow> PacketAssembly \<Rightarrow> nat \<Rightarrow> bool" where
  "tx_inv S pa cur \<longleftrightarrow> TxRingBufferSize pa = length (TxRingBuffer pa) \<and> 1 < length (TxRingBuffer pa) \<and>
     cur < length (TxRingBuffer pa) \<and> MaxDataShardPerChunk pa = 40 \<and> TxNextSeq pa \<noteq> 0 \<and>
     (\<forall>h \<in> set (TxRingBuffer pa). slot_ok h) \<and> \<not> tx_enabled (TxRingBuffer pa ! cur) \<and>
     (\<exists>ps. tx_ef (TxRingBuffer pa ! cur) = data_facility S ps \<and>
           tx_DataShardWithin (TxRingBuffer pa ! cur) = length ps \<and> length ps < 40)"

lemma tx_invD:
  assumes "tx_inv S pa cur"
  shows "TxRingBufferSize pa = length (TxRingBuffer pa)" "1 < length (TxRingBuffer pa)" "cur < length (TxRingBuffer pa)"
    "MaxDataShardPerChunk pa = 40" "TxNextSeq pa \<noteq> 0" "\<forall>h \<in> set (TxRingBuffer pa). slot_ok h"
  using assms by (simp_all add: tx_inv_def)

lemma slot_ok_new [simp]: "slot_ok new_tx_chunk" "\<not> tx_enabled new_tx_chunk"
  by (simp_all add: slot_ok_def new_tx_chunk_def)

lemma tx_inv_new: "tx_inv S NewPacketAssembly 0"
  by (auto simp: tx_inv_def NewPacketAssembly_def data_facility_new [of S] new_tx_chunk_def slot_ok_def
      intro!: exI [of _ "[]"])

lemma packAndSend_cases:
  assumes "struc_laws (ae_struc env)" "i < 65536"
  obtains (failed) "packAndSend env pa sq i d = Ok (pa, True)"
  | (sent) w t where "packAndSend env pa sq i d = Ok (pa\<lparr>pa_written := w, TxBytes := t\<rparr>, False)"
proof (cases "ae_write_ok env (datagram (ae_struc env) sq i d)")
  case True
  show ?thesis by (rule sent) (simp add: True packAndSend_def packPacket_result [OF assms])
next
  case False
  show ?thesis by (rule failed) (simp add: False packAndSend_def packPacket_result [OF assms])
qed

lemma set_update_subset: "x \<in> set (xs[i := v]) \<Longrightarrow> x = v \<or> x \<in> set xs"
  using set_update_subset_insert by fastforce

text \<open>A group that is full or whose epoch ends.\<close>

lemma finishThisSeq_safe:
  assumes S: "struc_laws (ae_struc env)" and R: "\<And>k. 1 \<le> k \<Longrightarrow> k \<le> 40 \<Longrightarrow> rs_encodes (ae_rs env) k (parity_count k)"
    and ring: "TxRingBufferSize pa = length (TxRingBuffer pa)" "1 < length (TxRingBuffer pa)" "cur < length (TxRingBuffer pa)"
    and m: "MaxDataShardPerChunk pa = 40" and sq: "TxNextSeq pa \<noteq> 0" and ok: "\<forall>h \<in> set (TxRingBuffer pa). slot_ok h"
    and ef: "tx_ef (TxRingBuffer pa ! cur) = data_facility (ae_struc env) ps" "1 \<le> length ps" "length ps \<le> 40"
  shows "\<exists>pa' fin cur' sent'. finishThisSeq env pa cur sent = Ok (pa', fin, cur', sent') \<and>
    (\<not> fin \<longrightarrow> tx_inv (ae_struc env) pa' cur')"
proof -
  have k: "1 \<le> length ps" "length ps \<le> 80" using ef by auto
  obtain ef' i d n where cr: "ConstructReconstructShard (ae_struc env) (ae_rs env) (data_facility (ae_struc env) ps) =
      Ok (ef', i, d, 0 < n)" "yields ef' n" "i < 65536"
    using data_facility_shard [OF S k R] ef by auto
  define pa1 where "pa1 = upd_slot cur (tx_ef_update (\<lambda>_. ef')) pa"
  consider (failed) "packAndSend env pa1 (TxNextSeq pa1) i d = Ok (pa1, True)"
    | (sent) w t where "packAndSend env pa1 (TxNextSeq pa1) i d = Ok (pa1\<lparr>pa_written := w, TxBytes := t\<rparr>, False)"
    by (rule packAndSend_cases [OF S cr(3), of pa1 "TxNextSeq pa1" d])
  then show ?thesis
  proof cases
    case failed
    then show ?thesis using cr(1) ef(1) by (auto simp: finishThisSeq_def pa1_def [symmetric])
  next
    case (sent w t)
    define cur' where "cur' = (if cur + 1 = length (TxRingBuffer pa) then 0 else cur + 1)"
    have cur': "cur' < length (TxRingBuffer pa)" "cur' \<noteq> cur" using ring by (auto simp: cur'_def)
    define sq' where "sq' = (if TxNextSeq pa + 1 = 0 then 1 else TxNextSeq pa + 1)"
    have sq': "sq' \<noteq> 0" by (simp add: sq'_def)
    let ?h = "(TxRingBuffer pa ! cur)\<lparr>tx_ef := ef', tx_enabled := 0 < n, tx_InitialRemainShard := int n\<rparr>"
    let ?ring = "(TxRingBuffer pa)[cur := ?h, cur' := new_tx_chunk]"
    have "\<exists>pa' s'. finishThisSeq env pa cur sent = Ok (pa', False, cur', s') \<and> TxRingBuffer pa' = ?ring \<and>
        TxRingBufferSize pa' = TxRingBufferSize pa \<and> MaxDataShardPerChunk pa' = MaxDataShardPerChunk pa \<and>
        TxNextSeq pa' = sq'" for sent
      using cr sent ef(1) ring cur'(2) yields_remaining [OF cr(2)]
      by (simp add: finishThisSeq_def Let_def pa1_def upd_slot_def cur'_def sq'_def)
    then obtain pa' s' where pa': "finishThisSeq env pa cur sent = Ok (pa', False, cur', s')" "TxRingBuffer pa' = ?ring"
      "TxRingBufferSize pa' = TxRingBufferSize pa" "MaxDataShardPerChunk pa' = MaxDataShardPerChunk pa" "TxNextSeq pa' = sq'"
      by blast
    have "slot_ok ?h" using cr(2) by (auto simp: slot_ok_def)
    then have "\<forall>h \<in> set ?ring. slot_ok h" using ok by (auto dest!: set_update_subset)
    moreover have "?ring ! cur' = new_tx_chunk" using cur' by simp
    moreover have "tx_ef new_tx_chunk = data_facility (ae_struc env) []" "tx_DataShardWithin new_tx_chunk = 0"
      by (simp_all add: new_tx_chunk_def data_facility_new [of "ae_struc env"])
    ultimately have "tx_inv (ae_struc env) pa' cur'"
      using pa'(2-) ring m sq' cur' unfolding tx_inv_def by (auto intro!: exI [of _ "[]"])
    with pa' show ?thesis by blast
  qed
qed

section \<open>The budget\<close>

lemma round_div_le:
  assumes s: "1 \<le> scale"
  shows "round_div u scale \<le> max 0 u"
proof (cases "0 \<le> u")
  case True
  define q where "q = (2 * u + scale) div (2 * scale)"
  have q: "2 * scale * q \<le> 2 * u + scale"
    using s pos_mod_sign [of "2 * scale" "2 * u + scale"] mult_div_mod_eq [of "2 * scale" "2 * u + scale"]
    unfolding q_def by linarith
  have "q \<le> u"
  proof (rule ccontr)
    assume "\<not> q \<le> u"
    then have "2 * scale * (u + 1) \<le> 2 * scale * q" using s by (intro mult_left_mono) auto
    moreover have "2 * u \<le> 2 * scale * u" using s True by (simp add: mult_le_cancel_right1)
    ultimately show False using q s by (simp add: distrib_left)
  qed
  then show ?thesis using True by (simp add: round_div_def q_def)
next
  case False
  then have "0 \<le> (2 * (- u) + scale) div (2 * scale)" using s by (intro div_int_pos_iff [THEN iffD2]) auto
  then show ?thesis using False by (simp add: round_div_def)
qed

text \<open>
  Guidance a ring can follow: an entry above 0 belongs to an enabled slot with that many shards left.
\<close>

definition guidance_ok :: "PacketAssembly \<Rightarrow> nat \<Rightarrow> int list \<Rightarrow> bool" where
  "guidance_ok pa i gs \<longleftrightarrow> i + length gs \<le> length (TxRingBuffer pa) \<and>
     (\<forall>j < length gs. gs ! j > 0 \<longrightarrow> tx_enabled (TxRingBuffer pa ! (i + j)) \<and>
        (\<exists>n. yields (tx_ef (TxRingBuffer pa ! (i + j))) n \<and> gs ! j \<le> int n))"

lemma unlocks_from_ok:
  assumes "\<forall>i \<in> set is. slot_ok (TxRingBuffer pa ! i)"
  shows "\<exists>us. unlocks_from env pa is = Ok us \<and> length us = length is \<and>
    (\<forall>j < length us. us ! j > 0 \<longrightarrow> tx_enabled (TxRingBuffer pa ! (is ! j)) \<and>
        (\<exists>n. yields (tx_ef (TxRingBuffer pa ! (is ! j))) n \<and> us ! j \<le> int n))"
  using assms
proof (induction "is")
  case (Cons i js)
  then obtain us where us: "unlocks_from env pa js = Ok us" "length us = length js"
    "\<forall>j < length us. us ! j > 0 \<longrightarrow> tx_enabled (TxRingBuffer pa ! (js ! j)) \<and>
        (\<exists>n. yields (tx_ef (TxRingBuffer pa ! (js ! j))) n \<and> us ! j \<le> int n)" by auto
  let ?h = "TxRingBuffer pa ! i"
  have "\<exists>u. unlocks_from env pa (i # js) = Ok (u # us) \<and>
      (u > 0 \<longrightarrow> tx_enabled ?h \<and> (\<exists>n. yields (tx_ef ?h) n \<and> u \<le> int n))"
  proof (cases "tx_enabled ?h")
    case True
    then obtain n where n: "yields (tx_ef ?h) n" using Cons.prems by (auto simp: slot_ok_def)
    then show ?thesis using True us(1) yields_remaining [OF n]
      by (auto simp: GetSentShard_def GetRemainingShard_def Let_def)
  next
    case False
    then show ?thesis using us(1) by (auto simp: GetSentShard_def GetRemainingShard_def GetReleasedShard_def Let_def)
  qed
  then obtain u where u: "unlocks_from env pa (i # js) = Ok (u # us)"
    "u > 0 \<longrightarrow> tx_enabled ?h \<and> (\<exists>n. yields (tx_ef ?h) n \<and> u \<le> int n)" by blast
  with us show ?case by (auto simp: nth_Cons' simp del: unlocks_from.simps)
qed simp

lemma SelectPacketToSend_ok:
  assumes inv: "TxRingBufferSize pa = length (TxRingBuffer pa)" "\<forall>h \<in> set (TxRingBuffer pa). slot_ok h" and q: "0 < quota"
  shows "\<exists>gs. SelectPacketToSend env pa quota = Ok gs \<and> guidance_ok pa 0 gs"
proof -
  have "\<forall>i \<in> set [0..<TxRingBufferSize pa]. slot_ok (TxRingBuffer pa ! i)" using inv by auto
  from unlocks_from_ok [OF this, of env] obtain us where
    us: "unlocks_from env pa [0..<TxRingBufferSize pa] = Ok us" "length us = TxRingBufferSize pa"
    "\<forall>j < length us. us ! j > 0 \<longrightarrow> tx_enabled (TxRingBuffer pa ! j) \<and>
        (\<exists>n. yields (tx_ef (TxRingBuffer pa ! j)) n \<and> us ! j \<le> int n)" by auto
  show ?thesis
  proof (cases "sum_list us \<le> quota")
    case True
    then show ?thesis using us inv(1) by (auto simp: SelectPacketToSend_def guidance_ok_def)
  next
    case False
    define scale where "scale = sum_list us div quota"
    have "quota div quota \<le> scale" unfolding scale_def using False q by (intro zdiv_mono1) auto
    then have "1 \<le> scale" using q by simp
    then have r: "round_div u scale \<le> max 0 u" for u by (rule round_div_le)
    have "guidance_ok pa 0 (map (\<lambda>u. round_div u scale) us)"
      unfolding guidance_ok_def
    proof (intro conjI allI impI)
      fix j assume j: "j < length (map (\<lambda>u. round_div u scale) us)" "map (\<lambda>u. round_div u scale) us ! j > 0"
      then have p: "us ! j > 0" "map (\<lambda>u. round_div u scale) us ! j \<le> us ! j" using r [of "us ! j"] by auto
      moreover obtain n where n: "tx_enabled (TxRingBuffer pa ! j)" "yields (tx_ef (TxRingBuffer pa ! j)) n" "us ! j \<le> int n"
        using us(3) j(1) p(1) by auto
      ultimately have "map (\<lambda>u. round_div u scale) us ! j \<le> int n" by linarith
      with n show "tx_enabled (TxRingBuffer pa ! (0 + j))"
        "\<exists>n. yields (tx_ef (TxRingBuffer pa ! (0 + j))) n \<and> map (\<lambda>u. round_div u scale) us ! j \<le> int n"
        by auto
    qed (use us(2) inv(1) in simp)
    then show ?thesis using us(1) False by (simp add: SelectPacketToSend_def Let_def scale_def)
  qed
qed


section \<open>Sending parity shards\<close>

text \<open>What sending parity shards leaves alone: the sizes, and every slot that is not enabled.\<close>

definition parity_frame :: "PacketAssembly \<Rightarrow> PacketAssembly \<Rightarrow> bool" where
  "parity_frame pa pa' \<longleftrightarrow> length (TxRingBuffer pa') = length (TxRingBuffer pa) \<and>
     (\<forall>j < length (TxRingBuffer pa). \<not> tx_enabled (TxRingBuffer pa ! j) \<longrightarrow> TxRingBuffer pa' ! j = TxRingBuffer pa ! j) \<and>
     ((\<forall>h \<in> set (TxRingBuffer pa). slot_ok h) \<longrightarrow> (\<forall>h \<in> set (TxRingBuffer pa'). slot_ok h)) \<and>
     TxRingBufferSize pa' = TxRingBufferSize pa \<and> MaxDataShardPerChunk pa' = MaxDataShardPerChunk pa \<and>
     TxNextSeq pa' = TxNextSeq pa"

lemma parity_frame_refl: "parity_frame pa pa"
  by (simp add: parity_frame_def)

lemma parity_frame_trans: "parity_frame pa pa1 \<Longrightarrow> parity_frame pa1 pa2 \<Longrightarrow> parity_frame pa pa2"
  by (auto simp: parity_frame_def)

lemma sendFECPacket_safe:
  assumes S: "struc_laws (ae_struc env)" and i: "i < length (TxRingBuffer pa)"
    and h: "tx_enabled (TxRingBuffer pa ! i)" "yields (tx_ef (TxRingBuffer pa ! i)) (Suc n)"
  shows "\<exists>pa' h'. sendFECPacket env pa i = Ok pa' \<and> TxRingBuffer pa' = (TxRingBuffer pa)[i := h'] \<and>
    yields (tx_ef h') n \<and> (0 < n \<longrightarrow> tx_enabled h') \<and> parity_frame pa pa'"
proof -
  obtain ef' l d where cr: "ConstructReconstructShard (ae_struc env) (ae_rs env) (tx_ef (TxRingBuffer pa ! i)) =
      Ok (ef', l, d, 0 < n)" "yields ef' n" "l < 65536"
    using yields_shard [OF S h(2)] by blast
  have fr: "parity_frame pa pa'" if "TxRingBuffer pa' = (TxRingBuffer pa)[i := h']" "slot_ok h'"
      "TxRingBufferSize pa' = TxRingBufferSize pa" "MaxDataShardPerChunk pa' = MaxDataShardPerChunk pa"
      "TxNextSeq pa' = TxNextSeq pa" for pa' h'
    using that h(1) by (auto simp: parity_frame_def dest!: set_update_subset) (metis nth_list_update_neq)
  define pa1 where "pa1 = upd_slot i (tx_ef_update (\<lambda>_. ef')) pa"
  consider (failed) "packAndSend env pa1 (tx_Seq (TxRingBuffer pa ! i)) l d = Ok (pa1, True)"
    | (sent) w t where "packAndSend env pa1 (tx_Seq (TxRingBuffer pa ! i)) l d = Ok (pa1\<lparr>pa_written := w, TxBytes := t\<rparr>, False)"
    by (rule packAndSend_cases [OF S cr(3), of pa1 "tx_Seq (TxRingBuffer pa ! i)" d])
  then show ?thesis
  proof cases
    case failed
    let ?h = "(TxRingBuffer pa ! i)\<lparr>tx_ef := ef'\<rparr>"
    have "sendFECPacket env pa i = Ok pa1" using failed cr(1) by (simp add: sendFECPacket_def Let_def pa1_def)
    moreover have "TxRingBuffer pa1 = (TxRingBuffer pa)[i := ?h]" by (simp add: pa1_def upd_slot_def)
    ultimately show ?thesis using cr(2) h(1) fr [of pa1 ?h]
      by (intro exI [of _ pa1] exI [of _ ?h]) (auto simp: slot_ok_def pa1_def upd_slot_def)
  next
    case (sent w t)
    let ?h = "(TxRingBuffer pa ! i)\<lparr>tx_ef := ef', tx_enabled := 0 < n\<rparr>"
    have "\<exists>pa'. sendFECPacket env pa i = Ok pa' \<and> TxRingBuffer pa' = (TxRingBuffer pa)[i := ?h] \<and>
      TxRingBufferSize pa' = TxRingBufferSize pa \<and> MaxDataShardPerChunk pa' = MaxDataShardPerChunk pa \<and>
      TxNextSeq pa' = TxNextSeq pa"
      using sent cr(1) i by (simp add: sendFECPacket_def Let_def pa1_def upd_slot_def)
    then obtain pa' where pa': "sendFECPacket env pa i = Ok pa'" "TxRingBuffer pa' = (TxRingBuffer pa)[i := ?h]"
      "TxRingBufferSize pa' = TxRingBufferSize pa" "MaxDataShardPerChunk pa' = MaxDataShardPerChunk pa"
      "TxNextSeq pa' = TxNextSeq pa" by blast
    then show ?thesis using cr(2) fr [OF pa'(2)]
      by (intro exI [of _ pa'] exI [of _ ?h]) (auto simp: slot_ok_def)
  qed
qed

lemma guidance_ok_Cons:
  "guidance_ok pa i (g # gs) \<longleftrightarrow> i < length (TxRingBuffer pa) \<and> guidance_ok pa (Suc i) gs \<and>
     (g > 0 \<longrightarrow> tx_enabled (TxRingBuffer pa ! i) \<and> (\<exists>n. yields (tx_ef (TxRingBuffer pa ! i)) n \<and> g \<le> int n))"
  by (auto simp: guidance_ok_def All_less_Suc2)

lemma guidance_ok_cong:
  "guidance_ok pa i gs \<Longrightarrow> length (TxRingBuffer pa') = length (TxRingBuffer pa) \<Longrightarrow>
   (\<And>j. i \<le> j \<Longrightarrow> j < length (TxRingBuffer pa) \<Longrightarrow> TxRingBuffer pa' ! j = TxRingBuffer pa ! j) \<Longrightarrow> guidance_ok pa' i gs"
  by (simp add: guidance_ok_def)

lemma send_round_safe:
  assumes S: "struc_laws (ae_struc env)"
  shows "guidance_ok pa i gs \<Longrightarrow> \<exists>pa' gs'. send_round env pa i gs = Ok (pa', gs') \<and> guidance_ok pa' i gs' \<and>
    parity_frame pa pa' \<and> (\<forall>j < i. TxRingBuffer pa' ! j = TxRingBuffer pa ! j) \<and>
    length gs' = length gs \<and> (\<forall>j < length gs. gs' ! j = (if gs ! j > 0 then gs ! j - 1 else gs ! j))"
proof (induction gs arbitrary: pa i)
  case Nil
  then show ?case by (simp add: parity_frame_refl)
next
  case (Cons g gs)
  have i: "i < length (TxRingBuffer pa)" and rest: "guidance_ok pa (Suc i) gs"
    and g: "g > 0 \<Longrightarrow> tx_enabled (TxRingBuffer pa ! i) \<and> (\<exists>n. yields (tx_ef (TxRingBuffer pa ! i)) n \<and> g \<le> int n)"
    using Cons.prems by (auto simp: guidance_ok_Cons)
  show ?case
  proof (cases "g > 0")
    case True
    then obtain m where m: "yields (tx_ef (TxRingBuffer pa ! i)) m" "g \<le> int m" using g by blast
    then obtain n where n: "yields (tx_ef (TxRingBuffer pa ! i)) (Suc n)" "g - 1 \<le> int n" using True by (cases m) auto
    obtain pa1 h' where 1: "sendFECPacket env pa i = Ok pa1" "TxRingBuffer pa1 = (TxRingBuffer pa)[i := h']"
      "yields (tx_ef h') n" "0 < n \<longrightarrow> tx_enabled h'" "parity_frame pa pa1"
      using sendFECPacket_safe [OF S i _ n(1)] g True by blast
    have "guidance_ok pa1 (Suc i) gs" by (rule guidance_ok_cong [OF rest]) (simp_all add: 1(2))
    from Cons.IH [OF this] obtain pa' gs' where 2: "send_round env pa1 (Suc i) gs = Ok (pa', gs')"
      "guidance_ok pa' (Suc i) gs'" "parity_frame pa1 pa'" "\<forall>j < Suc i. TxRingBuffer pa' ! j = TxRingBuffer pa1 ! j"
      "length gs' = length gs" "\<forall>j < length gs. gs' ! j = (if gs ! j > 0 then gs ! j - 1 else gs ! j)" by blast
    have "TxRingBuffer pa' ! i = h'" "i < length (TxRingBuffer pa')"
      using 2(3,4) 1(2) i by (auto simp: parity_frame_def)
    moreover have "g - 1 > 0 \<longrightarrow> 0 < n" using n(2) by auto
    ultimately have "guidance_ok pa' i ((g - 1) # gs')" using 2(2) 1(3,4) n(2) by (auto simp: guidance_ok_Cons)
    then show ?thesis using True 1 2 parity_frame_trans [OF 1(5) 2(3)]
      by (auto simp: nth_Cons')
  next
    case False
    from Cons.IH [OF rest] obtain pa' gs' where 2: "send_round env pa (Suc i) gs = Ok (pa', gs')"
      "guidance_ok pa' (Suc i) gs'" "parity_frame pa pa'" "\<forall>j < Suc i. TxRingBuffer pa' ! j = TxRingBuffer pa ! j"
      "length gs' = length gs" "\<forall>j < length gs. gs' ! j = (if gs ! j > 0 then gs ! j - 1 else gs ! j)" by blast
    then have "guidance_ok pa' i (g # gs')" using False i by (auto simp: guidance_ok_Cons parity_frame_def)
    then show ?thesis using False 2 by (auto simp: nth_Cons')
  qed
qed

lemma send_rounds_safe:
  assumes S: "struc_laws (ae_struc env)"
  shows "guidance_ok pa 0 gs \<Longrightarrow> \<exists>pa'. send_rounds n env pa gs = Ok pa' \<and> parity_frame pa pa'"
proof (induction n arbitrary: pa gs)
  case 0
  then show ?case by (simp add: parity_frame_refl)
next
  case (Suc n)
  obtain pa1 gs' where 1: "send_round env pa 0 gs = Ok (pa1, gs')" "guidance_ok pa1 0 gs'" "parity_frame pa pa1"
    using send_round_safe [OF S Suc.prems] by blast
  from Suc.IH [OF 1(2)] 1 show ?case using parity_frame_trans parity_frame_refl by fastforce
qed

text \<open>The number of passes is enough: with it, no slot has guidance left.\<close>

lemma send_rounds_enough:
  assumes S: "struc_laws (ae_struc env)"
  shows "guidance_ok pa 0 gs \<Longrightarrow> \<forall>g \<in> set gs. g \<le> int n \<Longrightarrow> n \<le> m \<Longrightarrow>
    send_rounds m env pa gs = send_rounds n env pa gs"
proof (induction n arbitrary: pa gs m)
  case 0
  then have "\<not> list_ex (\<lambda>g. g > 0) gs" by (auto simp: list_ex_iff)
  then show ?case by (cases m) auto
next
  case (Suc n)
  obtain m' where m: "m = Suc m'" using Suc.prems by (cases m) auto
  obtain pa1 gs' where 1: "send_round env pa 0 gs = Ok (pa1, gs')" "guidance_ok pa1 0 gs'" "length gs' = length gs"
    "\<forall>j < length gs. gs' ! j = (if gs ! j > 0 then gs ! j - 1 else gs ! j)"
    using send_round_safe [OF S Suc.prems(1)] by blast
  have "\<forall>g \<in> set gs'. g \<le> int n"
    using 1(3,4) Suc.prems(2) by (auto simp: in_set_conv_nth all_set_conv_all_nth)
  with Suc.IH [OF 1(2), of m'] Suc.prems(3) m 1(1) show ?case by simp
qed


section \<open>The loop\<close>

lemma tx_inv_parity_frame: "tx_inv S pa cur \<Longrightarrow> parity_frame pa pa' \<Longrightarrow> tx_inv S pa' cur"
  by (auto simp: tx_inv_def parity_frame_def)

lemma tx_inv_fields [simp]:
  "tx_inv S (pa\<lparr>pa_written := w, TxBytes := t, TxShardOriginalNoFEC := n\<rparr>) cur = tx_inv S pa cur"
  "tx_inv S (pa\<lparr>TxEpocSeq := e\<rparr>) cur = tx_inv S pa cur" "tx_inv S (pa\<lparr>FECEnabled := b\<rparr>) cur = tx_inv S pa cur"
  by (simp_all add: tx_inv_def)

lemma TxWithoutFEC_safe:
  assumes "struc_laws (ae_struc env)" "tx_inv S pa cur"
  shows "\<exists>pa' r. TxWithoutFEC env pa p = Ok (pa', r) \<and> tx_inv S pa' cur"
  using assms by (auto simp: TxWithoutFEC_def packPacket_result)

lemma Tx_epoch_safe:
  assumes S: "struc_laws (ae_struc env)" and R: "\<And>k. 1 \<le> k \<Longrightarrow> k \<le> 40 \<Longrightarrow> rs_encodes (ae_rs env) k (parity_count k)"
    and inv: "tx_inv (ae_struc env) pa cur"
  shows "\<exists>pa' sent' cur' fin. Tx_epoch env (pa, sent, cur) = Ok ((pa', sent', cur'), fin) \<and>
    (\<not> fin \<longrightarrow> tx_inv (ae_struc env) pa' cur')"
proof -
  obtain ps where ps: "tx_ef (TxRingBuffer pa ! cur) = data_facility (ae_struc env) ps"
    "tx_DataShardWithin (TxRingBuffer pa ! cur) = length ps" "length ps < 40"
    using inv by (auto simp: tx_inv_def)
  let ?f = "if tx_DataShardWithin (TxRingBuffer pa ! cur) \<noteq> 0 then finishThisSeq env pa cur sent else Ok (pa, False, cur, sent)"
  obtain pa1 fin cur1 sent1 where f: "?f = Ok (pa1, fin, cur1, sent1)" "\<not> fin \<longrightarrow> tx_inv (ae_struc env) pa1 cur1"
  proof (cases "ps = []")
    case True
    with ps inv that [of pa False cur sent] show ?thesis by auto
  next
    case False
    then have l: "1 \<le> length ps" "length ps \<le> 40" using ps(3) by (simp_all add: Suc_le_eq)
    obtain pa' fin cur' sent' where "finishThisSeq env pa cur sent = Ok (pa', fin, cur', sent')"
      "\<not> fin \<longrightarrow> tx_inv (ae_struc env) pa' cur'"
      using finishThisSeq_safe [OF S R tx_invD(1-6) [OF inv] ps(1) l, of sent] by blast
    with that [of pa' fin cur' sent'] ps False show ?thesis by auto
  qed
  show ?thesis
  proof (cases fin)
    case True
    then show ?thesis using f by (auto simp: Tx_epoch_def)
  next
    case False
    then have inv1: "tx_inv (ae_struc env) pa1 cur1" using f(2) by simp
    define quota where "quota = TxFECSoftPacketSoftLimitPerEpoch pa1 - sent1"
    let ?g = "if quota > 0 then bind_outcome (SelectPacketToSend env pa1 quota) (\<lambda>gs.
                 send_rounds (nat (foldl max 0 gs)) env pa1 gs) else Ok pa1"
    have "\<exists>pa2. ?g = Ok pa2 \<and> parity_frame pa1 pa2"
    proof (cases "quota > 0")
      case True
      then obtain gs where gs: "SelectPacketToSend env pa1 quota = Ok gs" "guidance_ok pa1 0 gs"
        using SelectPacketToSend_ok inv1 unfolding tx_inv_def by blast
      then show ?thesis using True send_rounds_safe [OF S gs(2)] by simp
    qed (simp add: parity_frame_refl)
    then obtain pa2 where g: "?g = Ok pa2" "tx_inv (ae_struc env) pa2 cur1" using tx_inv_parity_frame [OF inv1] by blast
    have "Tx_epoch env (pa, sent, cur) = Ok ((pa2\<lparr>TxEpocSeq := TxEpocSeq pa2 + 1\<rparr>, 0, cur1), False)"
      by (simp only: Tx_epoch_def prod.case f(1) bind_outcome.simps Let_def if_False False quota_def [symmetric] g(1))
    then show ?thesis using g(2) by auto
  qed
qed

lemma Tx_packet_safe:
  assumes S: "struc_laws (ae_struc env)" and R: "\<And>k. 1 \<le> k \<Longrightarrow> k \<le> 40 \<Longrightarrow> rs_encodes (ae_rs env) k (parity_count k)"
    and inv: "tx_inv (ae_struc env) pa cur"
  shows "\<exists>pa' sent' cur' fin. Tx_packet env (pa, sent, cur) p = Ok ((pa', sent', cur'), fin) \<and>
    (\<not> fin \<longrightarrow> tx_inv (ae_struc env) pa' cur')"
proof (cases "FECEnabled pa")
  case False
  then show ?thesis using TxWithoutFEC_safe [OF S inv, of p] by (auto simp: Tx_packet_def)
next
  case True
  obtain ps where ps: "tx_ef (TxRingBuffer pa ! cur) = data_facility (ae_struc env) ps"
    "tx_DataShardWithin (TxRingBuffer pa ! cur) = length ps" "length ps < 40"
    using inv by (auto simp: tx_inv_def)
  let ?h = "(TxRingBuffer pa ! cur)\<lparr>tx_ef := data_facility (ae_struc env) (ps @ [p]), tx_DataShardWithin := length ps + 1,
      tx_Seq := TxNextSeq pa, tx_InitialSendEpochSeq := TxEpocSeq pa, tx_InitialRemainShard := 0\<rparr>"
  define pa1 where "pa1 = pa\<lparr>TxRingBuffer := (TxRingBuffer pa)[cur := ?h]\<rparr>"
  have i: "length ps < 65536" "cur < length (TxRingBuffer pa)" using ps(3) inv by (auto simp: tx_inv_def)
  have ok: "\<forall>h \<in> set (TxRingBuffer pa1). slot_ok h"
    using inv by (auto simp: pa1_def tx_inv_def slot_ok_def dest!: set_update_subset)
  consider (failed) "packAndSend env pa1 (TxNextSeq pa1) (length ps) (wrap (ae_struc env) p) = Ok (pa1, True)"
    | (sent) w t where "packAndSend env pa1 (TxNextSeq pa1) (length ps) (wrap (ae_struc env) p) =
        Ok (pa1\<lparr>pa_written := w, TxBytes := t\<rparr>, False)"
    by (rule packAndSend_cases [OF S i(1), of pa1 "TxNextSeq pa1" "wrap (ae_struc env) p"])
  then show ?thesis
  proof cases
    case failed
    then show ?thesis using True ps AddData_result [OF S, of ps p]
      by (auto simp: Tx_packet_def Let_def pa1_def upd_slot_def)
  next
    case (sent w t)
    define pa3 where "pa3 = pa1\<lparr>pa_written := w, TxBytes := t, TxShardOriginal := TxShardOriginal pa1 + 1\<rparr>"
    have step: "Tx_packet env (pa, sent', cur) p =
        (if length ps + 1 \<ge> 40 then bind_outcome (finishThisSeq env pa3 cur (sent' + 1)) (\<lambda>(pa4, donez, cur4, sent4).
           Ok ((pa4, sent4, cur4), donez)) else Ok ((pa3, sent' + 1, cur), False))" for sent'
      using True ps AddData_result [OF S, of ps p] sent inv i(2)
      by (simp add: Tx_packet_def Let_def pa1_def pa3_def upd_slot_def tx_inv_def)
    have p3: "TxRingBuffer pa3 ! cur = ?h" "TxRingBufferSize pa3 = length (TxRingBuffer pa3)" "1 < length (TxRingBuffer pa3)"
      "cur < length (TxRingBuffer pa3)" "MaxDataShardPerChunk pa3 = 40" "TxNextSeq pa3 \<noteq> 0"
      "\<forall>h \<in> set (TxRingBuffer pa3). slot_ok h"
      using inv i(2) ok by (auto simp: pa3_def pa1_def tx_inv_def)
    show ?thesis
    proof (cases "length ps + 1 \<ge> 40")
      case full: True
      have "tx_ef (TxRingBuffer pa3 ! cur) = data_facility (ae_struc env) (ps @ [p])" using p3(1) by simp
      from finishThisSeq_safe [OF S R p3(2-7) this, of "sent + 1" for sent] ps(3) full show ?thesis
        unfolding step by fastforce
    next
      case False
      have "tx_inv (ae_struc env) pa3 cur"
        using p3 inv False unfolding tx_inv_def by (auto intro!: exI [of _ "ps @ [p]"])
      then show ?thesis using False step by auto
    qed
  qed
qed


text \<open>Everything the loop of \<open>Tx\<close> can see between two of its iterations.\<close>

datatype tx_event = Epoch | Packet bytes | NoFecPacket bytes | Mode bool

definition tx_handle ::
  "assembly_env \<Rightarrow> PacketAssembly \<times> int \<times> nat \<Rightarrow> tx_event \<Rightarrow> (unit, (PacketAssembly \<times> int \<times> nat) \<times> bool) outcome" where
  "tx_handle env st ev =
     (case ev of Epoch \<Rightarrow> Tx_epoch env st | Packet p \<Rightarrow> Tx_packet env st p | NoFecPacket p \<Rightarrow> Tx_nofec env st p
      | Mode b \<Rightarrow> Ok (((fst st)\<lparr>FECEnabled := b\<rparr>, snd st), False))"

fun tx_run ::
  "assembly_env \<Rightarrow> PacketAssembly \<times> int \<times> nat \<Rightarrow> tx_event list \<Rightarrow> (unit, PacketAssembly \<times> int \<times> nat) outcome" where
  "tx_run env st [] = Ok st"
| "tx_run env st (ev # evs) =
     bind_outcome (tx_handle env st ev) (\<lambda>(st', fin). if fin then Ok st' else tx_run env st' evs)"

lemma tx_handle_safe:
  assumes S: "struc_laws (ae_struc env)" and R: "\<And>k. 1 \<le> k \<Longrightarrow> k \<le> 40 \<Longrightarrow> rs_encodes (ae_rs env) k (parity_count k)"
    and inv: "tx_inv (ae_struc env) pa cur"
  shows "\<exists>pa' sent' cur' fin. tx_handle env (pa, sent, cur) ev = Ok ((pa', sent', cur'), fin) \<and>
    (\<not> fin \<longrightarrow> tx_inv (ae_struc env) pa' cur')"
proof (cases ev)
  case Epoch
  then show ?thesis using Tx_epoch_safe [OF S R inv] by (simp add: tx_handle_def)
next
  case (Packet p)
  then show ?thesis using Tx_packet_safe [OF S R inv] by (simp add: tx_handle_def)
next
  case (NoFecPacket p)
  then show ?thesis using TxWithoutFEC_safe [OF S inv, of p] by (auto simp: tx_handle_def Tx_nofec_def)
next
  case (Mode b)
  then show ?thesis using inv by (auto simp: tx_handle_def)
qed

lemma tx_run_safe:
  assumes S: "struc_laws (ae_struc env)" and R: "\<And>k. 1 \<le> k \<Longrightarrow> k \<le> 40 \<Longrightarrow> rs_encodes (ae_rs env) k (parity_count k)"
  shows "tx_inv (ae_struc env) pa cur \<Longrightarrow> \<exists>st. tx_run env (pa, sent, cur) evs = Ok st"
proof (induction evs arbitrary: pa sent cur)
  case (Cons ev evs)
  obtain pa' sent' cur' fin where "tx_handle env (pa, sent, cur) ev = Ok ((pa', sent', cur'), fin)"
    "\<not> fin \<longrightarrow> tx_inv (ae_struc env) pa' cur'"
    using tx_handle_safe [OF S R Cons.prems, of sent ev] by blast
  with Cons.IH show ?case by auto
qed simp

text \<open>
  C9. The sender never panics. Whatever sequence of packets, epochs, packets without error
  correction and mode changes a new packet assembly sees, and whichever writes its connection
  refuses, the loop of \<open>Tx\<close> goes on or returns; in particular it never asks a group for a parity
  shard that does not exist.
\<close>

theorem fec_sender_never_panics:
  assumes "struc_laws (ae_struc env)"
    and "\<And>k. 1 \<le> k \<Longrightarrow> k \<le> 40 \<Longrightarrow> rs_encodes (ae_rs env) k (parity_count k)"
  shows "\<exists>st. tx_run env (NewPacketAssembly, 0, 0) evs = Ok st"
  using tx_run_safe [OF assms tx_inv_new] .

definition rs_copy :: rs_lib where
  "rs_copy = \<lparr>rs_New = (\<lambda>_ _. True), rs_Encode = (\<lambda>_ _ sh. Some sh), rs_ReconstructData = (\<lambda>_ _ _. None)\<rparr>"

theorem fec_sender_never_panics_witness:
  "(\<forall>k. rs_encodes rs_copy k (parity_count k)) \<and>
   (\<exists>st. tx_run (ex_assembly_env\<lparr>ae_rs := rs_copy\<rparr>) (NewPacketAssembly, 0, 0) [Packet [1], Epoch, Epoch] = Ok st)"
proof -
  have r: "rs_encodes rs_copy k (parity_count k)" for k by (simp add: rs_encodes_def rs_copy_def)
  then show ?thesis
    using fec_sender_never_panics [of "ex_assembly_env\<lparr>ae_rs := rs_copy\<rparr>" "[Packet [1], Epoch, Epoch]"] struc_be_laws
    by (simp add: ex_assembly_env_def)
qed



end
