(* ===== verification/Maskers.thy ===== *)
theory Maskers
  imports Prelude
begin

text \<open>
  The packet maskers of \<^verbatim>\<open>transport/udp/packetMasker\<close>: the constant and the polymorphic exclusive
  or, the prefix, stacks of layers, the presets, and the adapter that puts a masker in front of a
  datagram connection.

  A reader is what its successive \<open>Read\<close> calls return: chunks of bytes, then an error
  (\<open>io.EOF\<close> for a \<open>bytes.Reader\<close>). The writer of every caller is a \<open>bytes.Buffer\<close>, whose
  \<open>Write\<close> never fails; it is modelled by its content. Two libraries are parameters: the extendable
  output function cSHAKE128 of golang.org/x/crypto and the byte stream of a seeded
  \<open>math/rand\<close> generator. The CRC-64 of the standard library is written out.
\<close>

named_theorems mask_facts \<open>what the maskers do on whole packets\<close>

section \<open>Readers\<close>

datatype io_error = EOF | ErrShortBuffer | ReadError | WriteError

record reader =
  rd_chunks :: "bytes list"
  rd_end :: io_error

definition bytes_Reader :: "bytes \<Rightarrow> reader" where
  "bytes_Reader bs = \<lparr>rd_chunks = (if bs = [] then [] else [bs]), rd_end = EOF\<rparr>"

text \<open>\<open>Read\<close> into a buffer of \<open>k\<close> bytes.\<close>

definition Read_into :: "nat \<Rightarrow> reader \<Rightarrow> (io_error + bytes) \<times> reader" where
  "Read_into k r =
     (case rd_chunks r of
        [] \<Rightarrow> (Inl (rd_end r), r)
      | c # cs \<Rightarrow>
          if length c \<le> k then (Inr c, r\<lparr>rd_chunks := cs\<rparr>)
          else (Inr (take k c), r\<lparr>rd_chunks := drop k c # cs\<rparr>))"

text \<open>\<open>ioutil.ReadAll\<close>, and \<open>io.Copy\<close> into a buffer: everything up to the end of the reader.\<close>

definition ReadAll :: "reader \<Rightarrow> bytes \<times> io_error option" where
  "ReadAll r = (concat (rd_chunks r), if rd_end r = EOF then None else Some (rd_end r))"

definition io_Copy :: "bytes \<Rightarrow> reader \<Rightarrow> bytes \<times> reader \<times> io_error option" where
  "io_Copy out r = (out @ fst (ReadAll r), r\<lparr>rd_chunks := []\<rparr>, snd (ReadAll r))"

text \<open>\<open>io.Copy\<close> from an \<open>io.LimitReader\<close>: the first \<open>n\<close> bytes, the rest stays in the reader.\<close>

fun limit_chunks :: "nat \<Rightarrow> bytes list \<Rightarrow> bytes \<times> bytes list" where
  "limit_chunks n [] = ([], [])"
| "limit_chunks n (c # cs) =
     (if n = 0 then ([], c # cs)
      else if length c \<le> n then
        (let (taken, rest) = limit_chunks (n - length c) cs in (c @ taken, rest))
      else (take n c, drop n c # cs))"

section \<open>CRC-64\<close>

definition crc64_table_step :: "u64 \<Rightarrow> u64" where
  "crc64_table_step crc =
     (if bit crc 0 then drop_bit 1 crc XOR 0xC96C5795D7870F42 else drop_bit 1 crc)"

definition crctable :: "u64 \<Rightarrow> u64" where
  "crctable i = (crc64_table_step ^^ 8) i"

definition crc64_Checksum :: "bytes \<Rightarrow> u64" where
  "crc64_Checksum bs =
     NOT (foldl (\<lambda>crc v. crctable ((crc AND 255) XOR ucast v) XOR drop_bit 8 crc) (NOT 0) bs)"

section \<open>The exclusive-or maskers\<close>

record mask_lib =
  cShake128 :: "bytes \<Rightarrow> bytes \<Rightarrow> nat \<Rightarrow> bytes"
  rand_Read :: "u64 \<Rightarrow> nat \<Rightarrow> bytes"

definition mask_laws :: "mask_lib \<Rightarrow> bool" where
  "mask_laws lib \<longleftrightarrow>
     (\<forall>c s n. length (cShake128 lib c s n) = n) \<and> (\<forall>s n. length (rand_Read lib s n) = n)"

text \<open>The customization string \<open>"XORMaskingSeed"\<close>.\<close>

definition XORMaskingSeed :: bytes where
  "XORMaskingSeed = map (\<lambda>c. of_nat (of_char c)) ''XORMaskingSeed''"

record constantXor_XorMasker =
  cx_MaskingPattern :: bytes
  cx_MaskingSeed :: bytes

record polyxor_XorMasker =
  px_MaskingPattern :: bytes
  px_MaskingSeed :: bytes
  px_MaskingPatternPoly :: u64

definition NewXorMasker :: "mask_lib \<Rightarrow> bytes \<Rightarrow> constantXor_XorMasker" where
  "NewXorMasker lib masker =
     \<lparr>cx_MaskingPattern = cShake128 lib XORMaskingSeed masker 65536, cx_MaskingSeed = masker\<rparr>"

definition NewPolyXorMasker :: "mask_lib \<Rightarrow> bytes \<Rightarrow> polyxor_XorMasker" where
  "NewPolyXorMasker lib masker =
     (let pattern = cShake128 lib XORMaskingSeed masker 16
      in \<lparr>px_MaskingPattern = pattern, px_MaskingSeed = masker,
          px_MaskingPatternPoly = crc64_Checksum pattern\<rparr>)"

text \<open>
  The inner loop of both maskers: \<open>n\<close> times \<open>buf[counter] ^= pattern[counter]; counter++\<close>. An
  index out of range panics (\<open>None\<close>).
\<close>

fun xor_loop :: "nat \<Rightarrow> bytes \<Rightarrow> nat \<Rightarrow> bytes \<Rightarrow> (nat \<times> bytes) option" where
  "xor_loop 0 pattern counter buf = Some (counter, buf)"
| "xor_loop (Suc n) pattern counter buf =
     (if counter < length buf \<and> counter < length pattern
      then xor_loop n pattern (Suc counter) (buf[counter := (buf ! counter) XOR (pattern ! counter)])
      else None)"

type_synonym mask_result = "(io_error, io_error option \<times> reader \<times> bytes) outcome"

text \<open>The measure of the read loops: the bytes and the chunks that are left.\<close>

definition reader_left :: "reader \<Rightarrow> nat" where
  "reader_left r = length (concat (rd_chunks r)) + length (rd_chunks r)"

lemma Read_into_left:
  assumes "(Inr c, r') = Read_into k r" and "0 < k"
  shows "reader_left r' < reader_left r"
  using assms
  by (auto simp: Read_into_def reader_left_def split: list.splits if_splits)

function constantXor_maskInternal ::
  "constantXor_XorMasker \<Rightarrow> nat \<Rightarrow> bytes \<Rightarrow> reader \<Rightarrow> bytes \<Rightarrow> mask_result" where
  "constantXor_maskInternal xm counter buf input output =
     (case Read_into 1600 input of
        (Inl e, input') \<Rightarrow> Ok (if e = EOF then None else Some e, input', output)
      | (Inr c, input') \<Rightarrow>
          (case xor_loop (length c) (cx_MaskingPattern xm) counter (go_copy buf c) of
             None \<Rightarrow> Panic
           | Some (counter', buf') \<Rightarrow>
               constantXor_maskInternal xm counter' buf' input' (output @ take (length c) buf')))"
  by pat_completeness auto
termination constantXor_maskInternal
  by (relation "measure (\<lambda>(xm, counter, buf, input, output). reader_left input)")
     (auto dest: Read_into_left)

function polyxor_maskInternal ::
  "mask_lib \<Rightarrow> polyxor_XorMasker \<Rightarrow> nat \<Rightarrow> bytes \<Rightarrow> bytes \<Rightarrow> reader \<Rightarrow> bytes \<Rightarrow> mask_result" where
  "polyxor_maskInternal lib xm counter buf polymask input output =
     (case Read_into 1600 input of
        (Inl e, input') \<Rightarrow> Ok (if e = EOF then None else Some e, input', output)
      | (Inr c, input') \<Rightarrow>
          let n = length c; buf1 = go_copy buf c in
          if n < 16 then Panic
          else
            let maskingseed = drop (n - 16) (take n buf1);
                seed = px_MaskingPatternPoly xm XOR crc64_Checksum maskingseed;
                polymask' = go_copy polymask (rand_Read lib seed n)
            in (case xor_loop (n - 16) polymask' counter buf1 of
                  None \<Rightarrow> Panic
                | Some (counter', buf') \<Rightarrow>
                    polyxor_maskInternal lib xm counter' buf' polymask' input' (output @ take n buf')))"
  by pat_completeness auto
termination polyxor_maskInternal
  by (relation "measure (\<lambda>(lib, xm, counter, buf, polymask, input, output). reader_left input)")
     (auto dest: Read_into_left)

section \<open>Prefix, layers and the masker interface\<close>

text \<open>The prefix masker drops the errors of its writes and copies.\<close>

definition PrependingMasker_Mask :: "bytes \<Rightarrow> reader \<Rightarrow> bytes \<Rightarrow> mask_result" where
  "PrependingMasker_Mask pattern input output =
     (let (out, input', _) = io_Copy (output @ pattern) input in Ok (None, input', out))"

text \<open>A prefix that does not match is reported on the console only.\<close>

definition PrependingMasker_UnMask :: "bytes \<Rightarrow> reader \<Rightarrow> bytes \<Rightarrow> mask_result" where
  "PrependingMasker_UnMask pattern input output =
     (let (_, rest) = limit_chunks (length pattern) (rd_chunks input);
          (out, input', _) = io_Copy output (input\<lparr>rd_chunks := rest\<rparr>)
      in Ok (None, input', out))"

datatype masker =
    ConstantXor constantXor_XorMasker
  | PolyXor polyxor_XorMasker
  | PrependingMasker bytes
  | SyntheticLayerMasker "masker list"

text \<open>
  What a layer loop does with the result of one layer: a panic goes through, an error ends the
  loop, otherwise the written bytes are the content of the following layer.
\<close>

definition layer_content :: "mask_result \<Rightarrow> (io_error, bytes) outcome" where
  "layer_content res =
     bind_outcome res (\<lambda>(err, _, out). case err of None \<Rightarrow> Ok out | Some e \<Rightarrow> Err e)"

text \<open>The frame of both layer methods: read everything, run the layers, copy the content out.\<close>

definition layer_frame ::
  "(bytes \<Rightarrow> (io_error, bytes) outcome) \<Rightarrow> reader \<Rightarrow> bytes \<Rightarrow> mask_result" where
  "layer_frame run input output =
     (let (content, err) = ReadAll input; input' = input\<lparr>rd_chunks := []\<rparr>
      in case err of
           Some e \<Rightarrow> Ok (Some e, input', output)
         | None \<Rightarrow>
             (case run content of
                Ok content' \<Rightarrow> Ok (None, input', output @ content')
              | Err e \<Rightarrow> Ok (Some e, input', output)
              | Panic \<Rightarrow> Panic
              | Blocked \<Rightarrow> Blocked))"

fun Mask :: "mask_lib \<Rightarrow> masker \<Rightarrow> reader \<Rightarrow> bytes \<Rightarrow> mask_result"
  and Mask_layers :: "mask_lib \<Rightarrow> masker list \<Rightarrow> bytes \<Rightarrow> (io_error, bytes) outcome" where
  "Mask lib (ConstantXor xm) input output =
     constantXor_maskInternal xm 0 (replicate 1600 0) input output"
| "Mask lib (PolyXor xm) input output =
     polyxor_maskInternal lib xm 0 (replicate 1600 0) (replicate 1600 0) input output"
| "Mask lib (PrependingMasker pattern) input output = PrependingMasker_Mask pattern input output"
| "Mask lib (SyntheticLayerMasker layers) input output =
     layer_frame (Mask_layers lib layers) input output"
| "Mask_layers lib [] content = Ok content"
| "Mask_layers lib (l # ls) content =
     bind_outcome (layer_content (Mask lib l (bytes_Reader content) [])) (Mask_layers lib ls)"

text \<open>Unmasking runs the layers from the last to the first.\<close>

fun UnMask :: "mask_lib \<Rightarrow> masker \<Rightarrow> reader \<Rightarrow> bytes \<Rightarrow> mask_result"
  and UnMask_layers :: "mask_lib \<Rightarrow> masker list \<Rightarrow> bytes \<Rightarrow> (io_error, bytes) outcome" where
  "UnMask lib (ConstantXor xm) input output =
     constantXor_maskInternal xm 0 (replicate 1600 0) input output"
| "UnMask lib (PolyXor xm) input output =
     polyxor_maskInternal lib xm 0 (replicate 1600 0) (replicate 1600 0) input output"
| "UnMask lib (PrependingMasker pattern) input output = PrependingMasker_UnMask pattern input output"
| "UnMask lib (SyntheticLayerMasker layers) input output =
     layer_frame (UnMask_layers lib layers) input output"
| "UnMask_layers lib [] content = Ok content"
| "UnMask_layers lib (l # ls) content =
     bind_outcome (UnMask_layers lib ls content)
       (\<lambda>content'. layer_content (UnMask lib l (bytes_Reader content') []))"

subsection \<open>Presets\<close>

definition GetPrependAndXorMask :: "mask_lib \<Rightarrow> bytes \<Rightarrow> bytes \<Rightarrow> masker" where
  "GetPrependAndXorMask lib pw prependPattern =
     SyntheticLayerMasker [ConstantXor (NewXorMasker lib pw), PrependingMasker prependPattern]"

definition GetPrependAndPolyXorMask :: "mask_lib \<Rightarrow> bytes \<Rightarrow> bytes \<Rightarrow> masker" where
  "GetPrependAndPolyXorMask lib pw prependPattern =
     SyntheticLayerMasker
       [PolyXor (NewPolyXorMasker lib pw), ConstantXor (NewXorMasker lib pw),
        PrependingMasker prependPattern]"

definition GetRawMask :: masker where
  "GetRawMask = SyntheticLayerMasker []"

section \<open>The connection adapter\<close>

text \<open>
  A datagram connection: what arrives, what was sent, the error a read returns when nothing has
  arrived, the error of a write, and the two deadlines.
\<close>

record dgram_conn =
  dc_in :: "bytes list"
  dc_rderr :: io_error
  dc_out :: "bytes list"
  dc_wrerr :: "io_error option"
  dc_rd_deadline :: int
  dc_wr_deadline :: int
  dc_closed :: bool

text \<open>\<open>Read\<close> of a datagram connection cuts what does not fit.\<close>

definition conn_Read :: "nat \<Rightarrow> dgram_conn \<Rightarrow> (io_error + bytes) \<times> dgram_conn" where
  "conn_Read k c =
     (case dc_in c of [] \<Rightarrow> (Inl (dc_rderr c), c) | d # ds \<Rightarrow> (Inr (take k d), c\<lparr>dc_in := ds\<rparr>))"

definition conn_Write :: "bytes \<Rightarrow> dgram_conn \<Rightarrow> io_error option \<times> dgram_conn" where
  "conn_Write d c =
     (case dc_wrerr c of Some e \<Rightarrow> (Some e, c) | None \<Rightarrow> (None, c\<lparr>dc_out := dc_out c @ [d]\<rparr>))"

definition conn_SetDeadline :: "int \<Rightarrow> dgram_conn \<Rightarrow> dgram_conn" where
  "conn_SetDeadline t c = c\<lparr>dc_rd_deadline := t, dc_wr_deadline := t\<rparr>"

definition conn_SetWriteDeadline :: "int \<Rightarrow> dgram_conn \<Rightarrow> dgram_conn" where
  "conn_SetWriteDeadline t c = c\<lparr>dc_wr_deadline := t\<rparr>"

record MaskerAdopter =
  ma_masker :: masker
  ma_in :: dgram_conn

definition NewMaskerAdopter :: "masker \<Rightarrow> dgram_conn \<Rightarrow> MaskerAdopter" where
  "NewMaskerAdopter m c = \<lparr>ma_masker = m, ma_in = c\<rparr>"

text \<open>
  \<open>Read\<close> into a buffer of \<open>blen\<close> bytes. An error of the masker is printed and what it wrote
  before is used.
\<close>

definition MaskerAdopter_Read ::
  "mask_lib \<Rightarrow> MaskerAdopter \<Rightarrow> nat \<Rightarrow> (io_error, bytes) outcome \<times> MaskerAdopter" where
  "MaskerAdopter_Read lib m blen =
     (case conn_Read 65536 (ma_in m) of
        (Inl e, c) \<Rightarrow> (Err e, m\<lparr>ma_in := c\<rparr>)
      | (Inr d, c) \<Rightarrow>
          (case UnMask lib (ma_masker m) (bytes_Reader d) [] of
             Ok (_, _, out) \<Rightarrow>
               (if length out \<le> blen then Ok out else Err ErrShortBuffer, m\<lparr>ma_in := c\<rparr>)
           | Err e \<Rightarrow> (Err e, m\<lparr>ma_in := c\<rparr>)
           | Panic \<Rightarrow> (Panic, m\<lparr>ma_in := c\<rparr>)
           | Blocked \<Rightarrow> (Blocked, m\<lparr>ma_in := c\<rparr>)))"

definition MaskerAdopter_Write ::
  "mask_lib \<Rightarrow> MaskerAdopter \<Rightarrow> bytes \<Rightarrow> (io_error, nat) outcome \<times> MaskerAdopter" where
  "MaskerAdopter_Write lib m b =
     (case Mask lib (ma_masker m) (bytes_Reader b) [] of
        Ok (_, _, out) \<Rightarrow>
          (let (err, c) = conn_Write out (ma_in m)
           in (case err of None \<Rightarrow> Ok (length b) | Some e \<Rightarrow> Err e, m\<lparr>ma_in := c\<rparr>))
      | Err e \<Rightarrow> (Err e, m)
      | Panic \<Rightarrow> (Panic, m)
      | Blocked \<Rightarrow> (Blocked, m))"

definition MaskerAdopter_Close :: "MaskerAdopter \<Rightarrow> MaskerAdopter" where
  "MaskerAdopter_Close m = m\<lparr>ma_in := (ma_in m)\<lparr>dc_closed := True\<rparr>\<rparr>"

definition MaskerAdopter_SetDeadline :: "int \<Rightarrow> MaskerAdopter \<Rightarrow> MaskerAdopter" where
  "MaskerAdopter_SetDeadline t m = m\<lparr>ma_in := conn_SetDeadline t (ma_in m)\<rparr>"

definition MaskerAdopter_SetReadDeadline :: "int \<Rightarrow> MaskerAdopter \<Rightarrow> MaskerAdopter" where
  "MaskerAdopter_SetReadDeadline t m = m\<lparr>ma_in := conn_SetDeadline t (ma_in m)\<rparr>"

definition MaskerAdopter_SetWriteDeadline :: "int \<Rightarrow> MaskerAdopter \<Rightarrow> MaskerAdopter" where
  "MaskerAdopter_SetWriteDeadline t m = m\<lparr>ma_in := conn_SetWriteDeadline t (ma_in m)\<rparr>"

end
