(* ===== verification/MaskerProperties.thy ===== *)
theory MaskerProperties
  imports Maskers
begin

text \<open>
  Correctness of the packet maskers on whole packets. The contract \<open>packet_masker\<close> (unmasking
  undoes masking, for the lengths a masker accepts, and every other packet panics) is closed under
  composition; every masker the constructors build satisfies it, however its layers are nested,
  and the connection adapter is correct over every masker that does.
\<close>

section \<open>The exclusive-or loops\<close>

text \<open>What the inner loop leaves in the buffer.\<close>

definition xor_range :: "bytes \<Rightarrow> nat \<Rightarrow> nat \<Rightarrow> bytes \<Rightarrow> bytes" where
  "xor_range pattern c n buf =
     map (\<lambda>i. if c \<le> i \<and> i < c + n then (buf ! i) XOR (pattern ! i) else buf ! i) [0..<length buf]"

lemma length_xor_range [simp]: "length (xor_range pattern c n buf) = length buf"
  by (simp add: xor_range_def)

lemma nth_xor_range [simp]:
  "i < length buf \<Longrightarrow> xor_range pattern c n buf ! i =
     (if c \<le> i \<and> i < c + n then (buf ! i) XOR (pattern ! i) else buf ! i)"
  by (simp add: xor_range_def)

lemma xor_range_0 [simp]: "xor_range pattern c 0 buf = buf"
  by (auto intro!: nth_equalityI)

lemma xor_range_Suc:
  "c < length buf \<Longrightarrow>
   xor_range pattern (Suc c) n (buf[c := (buf ! c) XOR (pattern ! c)]) = xor_range pattern c (Suc n) buf"
  by (auto intro!: nth_equalityI simp: nth_list_update)

lemma xor_loop_eq:
  "xor_loop n pattern c buf =
     (if n = 0 \<or> c + n \<le> length buf \<and> c + n \<le> length pattern
      then Some (c + n, xor_range pattern c n buf) else None)"
proof (induction n arbitrary: c buf)
  case 0
  then show ?case by simp
next
  case (Suc n)
  then show ?case by (auto simp: xor_range_Suc)
qed

text \<open>The buffer after a read of at most 1600 bytes.\<close>

lemma take_go_copy [simp, go_bytes]:
  "length c \<le> length buf \<Longrightarrow> take (length c) (go_copy buf c) = c"
  by (simp add: go_copy_def)

lemma nth_go_copy [simp, go_bytes]:
  "i < length c \<Longrightarrow> length c \<le> length buf \<Longrightarrow> go_copy buf c ! i = c ! i"
  by (simp add: go_copy_def nth_append)

lemma take_xor_range_copy:
  assumes "length p \<le> length buf" "n \<le> length p" "n \<le> length pattern"
  shows "take (length p) (xor_range pattern 0 n (go_copy buf p)) = xor_bytes (take n p) pattern @ drop n p"
  using assms by (auto intro!: nth_equalityI simp: nth_append)

lemma take_xor_range_beyond:
  assumes "length p \<le> length buf" "length p \<le> c"
  shows "take (length p) (xor_range pattern c n (go_copy buf p)) = p"
  using assms by (auto intro!: nth_equalityI)

lemma Read_into_chunk [simp]:
  "Read_into k \<lparr>rd_chunks = [], rd_end = e\<rparr> = (Inl e, \<lparr>rd_chunks = [], rd_end = e\<rparr>)"
  "Read_into k \<lparr>rd_chunks = c # cs, rd_end = e\<rparr> =
     (if length c \<le> k then (Inr c, \<lparr>rd_chunks = cs, rd_end = e\<rparr>)
      else (Inr (take k c), \<lparr>rd_chunks = drop k c # cs, rd_end = e\<rparr>))"
  by (simp_all add: Read_into_def)

declare constantXor_maskInternal.simps [simp del] polyxor_maskInternal.simps [simp del]

section \<open>Masking whole packets\<close>

definition mask_packet :: "mask_lib \<Rightarrow> masker \<Rightarrow> bytes \<Rightarrow> (io_error, bytes) outcome" where
  "mask_packet lib m p = layer_content (Mask lib m (bytes_Reader p) [])"

definition unmask_packet :: "mask_lib \<Rightarrow> masker \<Rightarrow> bytes \<Rightarrow> (io_error, bytes) outcome" where
  "unmask_packet lib m p = layer_content (UnMask lib m (bytes_Reader p) [])"

lemma constantXor_packet [mask_facts]:
  assumes "1600 \<le> length (cx_MaskingPattern xm)"
  shows "layer_content (constantXor_maskInternal xm 0 (replicate 1600 0) (bytes_Reader p) []) =
     (if length p \<le> 1600 then Ok (xor_bytes p (cx_MaskingPattern xm)) else Panic)"
proof (cases "p = []")
  case True
  then show ?thesis
    by (simp add: bytes_Reader_def constantXor_maskInternal.simps layer_content_def xor_bytes_def)
next
  case False
  show ?thesis
  proof (cases "length p \<le> 1600")
    case True
    have "take (length p) (xor_range (cx_MaskingPattern xm) 0 (length p) (go_copy (replicate 1600 0) p)) =
        xor_bytes p (cx_MaskingPattern xm)"
      using True assms by (subst take_xor_range_copy) simp_all
    then show ?thesis
      using True False assms
      by (simp add: bytes_Reader_def constantXor_maskInternal.simps xor_loop_eq layer_content_def)
  next
    case over: False
    then have "drop 1600 p \<noteq> []" by simp
    then have "length (drop 1600 p) \<noteq> 0" by simp
    then show ?thesis
      using over False assms
      by (simp add: bytes_Reader_def constantXor_maskInternal.simps [of xm 0]
          constantXor_maskInternal.simps [of xm 1600] xor_loop_eq layer_content_def)
  qed
qed

text \<open>The stream that masks a packet depends on its last 16 bytes only.\<close>

definition poly_stream :: "mask_lib \<Rightarrow> polyxor_XorMasker \<Rightarrow> bytes \<Rightarrow> bytes" where
  "poly_stream lib xm p =
     rand_Read lib (px_MaskingPatternPoly xm XOR crc64_Checksum (drop (length p - 16) p)) (length p)"

definition poly_packet :: "mask_lib \<Rightarrow> polyxor_XorMasker \<Rightarrow> bytes \<Rightarrow> bytes" where
  "poly_packet lib xm p =
     (let c = take 1600 p
      in xor_bytes (take (length c - 16) c) (poly_stream lib xm c) @ drop (length c - 16) c @ drop 1600 p)"

definition poly_accepts :: "nat \<Rightarrow> bool" where
  "poly_accepts n \<longleftrightarrow> n = 0 \<or> 16 \<le> n \<and> n \<le> 1600 \<or> 1616 \<le> n \<and> n \<le> 1632"

lemma length_poly_stream [simp]: "mask_laws lib \<Longrightarrow> length (poly_stream lib xm p) = length p"
  by (simp add: poly_stream_def mask_laws_def)

text \<open>One turn of the read loop on a first chunk.\<close>

lemma polyxor_first_chunk:
  assumes laws: "mask_laws lib" and "16 \<le> length c" "length c \<le> 1600"
    and read: "Read_into 1600 input = (Inr c, input')"
  shows "\<exists>buf' pm'. length buf' = 1600 \<and> length pm' = 1600 \<and>
     polyxor_maskInternal lib xm 0 (replicate 1600 0) (replicate 1600 0) input [] =
     polyxor_maskInternal lib xm (length c - 16) buf' pm' input'
       (xor_bytes (take (length c - 16) c) (poly_stream lib xm c) @ drop (length c - 16) c)"
proof -
  let ?pm = "go_copy (replicate 1600 0) (poly_stream lib xm c)"
  let ?buf = "xor_range ?pm 0 (length c - 16) (go_copy (replicate 1600 0) c)"
  have pm: "xor_bytes (take (length c - 16) c) ?pm =
      xor_bytes (take (length c - 16) c) (poly_stream lib xm c)"
    using assms by (auto intro!: nth_equalityI)
  have "take (length c) ?buf =
      xor_bytes (take (length c - 16) c) (poly_stream lib xm c) @ drop (length c - 16) c"
    using assms by (subst take_xor_range_copy) (auto simp: pm)
  moreover have "length c - 16 \<le> 1600"
    using assms by simp
  ultimately have "polyxor_maskInternal lib xm 0 (replicate 1600 0) (replicate 1600 0) input [] =
     polyxor_maskInternal lib xm (length c - 16) ?buf ?pm input'
       (xor_bytes (take (length c - 16) c) (poly_stream lib xm c) @ drop (length c - 16) c)"
    using assms
    by (subst polyxor_maskInternal.simps) (simp add: xor_loop_eq poly_stream_def Let_def)
  moreover have "length ?buf = 1600" "length ?pm = 1600"
    by simp_all
  ultimately show ?thesis by blast
qed

text \<open>
  A second chunk starts at counter 1584: it is written unchanged when it has 16 to 32 bytes, and
  panics otherwise.
\<close>

lemma polyxor_second_chunk:
  assumes "length buf = 1600" "length pm = 1600" and "length c \<le> 1600"
    and read: "Read_into 1600 input = (Inr c, input')"
    and left: "rd_chunks input' = [] \<or> length c = 1600"
    and eof: "rd_end input' = EOF"
  shows "layer_content (polyxor_maskInternal lib xm 1584 buf pm input out) =
     (if 16 \<le> length c \<and> length c \<le> 32 then Ok (out @ c) else Panic)"
proof (cases "16 \<le> length c \<and> length c \<le> 32")
  case True
  have [simp]: "take (length c) (xor_range pat 1584 (length c - 16) (go_copy buf c)) = c" for pat
    using True assms by (intro take_xor_range_beyond) auto
  have "rd_chunks input' = []"
    using True left by auto
  then have "Read_into 1600 input' = (Inl EOF, input')"
    using eof by (simp add: Read_into_def)
  then show ?thesis
    using True assms
    by (simp add: polyxor_maskInternal.simps [of _ _ _ _ _ input]
        polyxor_maskInternal.simps [of _ _ _ _ _ input'] xor_loop_eq layer_content_def Let_def)
next
  case False
  then consider "length c < 16" | "32 < length c"
    by linarith
  then show ?thesis
    using assms False
    by cases (simp_all add: polyxor_maskInternal.simps [of _ _ _ _ _ input] xor_loop_eq
        layer_content_def Let_def)
qed

lemma polyxor_packet [mask_facts]:
  assumes laws: "mask_laws lib"
  shows "layer_content (polyxor_maskInternal lib xm 0 (replicate 1600 0) (replicate 1600 0) (bytes_Reader p) []) =
     (if poly_accepts (length p) then Ok (poly_packet lib xm p) else Panic)"
proof -
  consider "p = []" | "0 < length p" "length p < 16" | "16 \<le> length p" "length p \<le> 1600"
    | "1600 < length p"
    by (cases p) force+
  then show ?thesis
  proof cases
    case 1
    then show ?thesis
      by (simp add: bytes_Reader_def polyxor_maskInternal.simps layer_content_def poly_accepts_def
          poly_packet_def xor_bytes_def)
  next
    case 2
    then show ?thesis
      by (simp add: bytes_Reader_def polyxor_maskInternal.simps layer_content_def poly_accepts_def)
  next
    case 3
    let ?rest = "\<lparr>rd_chunks = [], rd_end = EOF\<rparr>"
    have "Read_into 1600 (bytes_Reader p) = (Inr p, ?rest)"
      using 3 by (auto simp: bytes_Reader_def)
    with polyxor_first_chunk [OF laws 3 this] show ?thesis
      using 3 by (auto simp: polyxor_maskInternal.simps [of _ _ _ _ _ ?rest] layer_content_def
          poly_accepts_def poly_packet_def)
  next
    case 4
    let ?c = "take 1600 p"
    let ?rest = "\<lparr>rd_chunks = [drop 1600 p], rd_end = EOF\<rparr>"
    have "Read_into 1600 (bytes_Reader p) = (Inr ?c, ?rest)"
      using 4 by (auto simp: bytes_Reader_def)
    with polyxor_first_chunk [OF laws _ _ this] 4 obtain buf pm where
      len: "length buf = 1600" "length pm = 1600" and
      turn: "polyxor_maskInternal lib xm 0 (replicate 1600 0) (replicate 1600 0) (bytes_Reader p) [] =
        polyxor_maskInternal lib xm 1584 buf pm ?rest
          (xor_bytes (take 1584 ?c) (poly_stream lib xm ?c) @ drop 1584 ?c)"
      by fastforce
    let ?c2 = "take 1600 (drop 1600 p)"
    let ?rest2 = "\<lparr>rd_chunks = if length p \<le> 3200 then [] else [drop 3200 p], rd_end = EOF\<rparr>"
    have "Read_into 1600 ?rest = (Inr ?c2, ?rest2)"
      by auto
    note second = polyxor_second_chunk [OF len _ this, of lib xm]
    have "length ?c2 \<le> 1600" "rd_chunks ?rest2 = [] \<or> length ?c2 = 1600"
      by auto
    with second show ?thesis
      using 4 unfolding turn
      by (auto simp: poly_accepts_def poly_packet_def Let_def)
  qed
qed

text \<open>Masking twice with the same stream gives the packet back: the last 16 bytes stay.\<close>

lemma length_poly_packet [simp]:
  "mask_laws lib \<Longrightarrow> length (poly_packet lib xm p) = length p"
  by (auto simp: poly_packet_def Let_def min_def simp flip: length_0_conv)

lemma poly_stream_cong:
  "length q = length c \<Longrightarrow> drop (length c - 16) q = drop (length c - 16) c \<Longrightarrow>
   poly_stream lib xm q = poly_stream lib xm c"
  by (simp add: poly_stream_def)

lemma poly_packet_involutive:
  assumes laws: "mask_laws lib" and acc: "poly_accepts (length p)"
  shows "poly_packet lib xm (poly_packet lib xm p) = p"
proof -
  let ?c = "take 1600 p"
  let ?n = "length ?c - 16"
  let ?s = "poly_stream lib xm ?c"
  let ?q = "xor_bytes (take ?n ?c) ?s @ drop ?n ?c"
  have len_q: "length ?q = length ?c"
    using laws by (auto simp: min_def simp flip: length_0_conv)
  have whole: "poly_packet lib xm p = ?q @ drop 1600 p"
    by (simp add: poly_packet_def Let_def)
  have q: "take 1600 (poly_packet lib xm p) = ?q" "drop 1600 (poly_packet lib xm p) = drop 1600 p"
    using len_q by (cases "length p \<le> 1600"; simp only: whole take_append drop_append; simp)+
  have seed: "drop ?n ?q = drop ?n ?c"
    using laws by simp
  have stream: "poly_stream lib xm ?q = ?s"
    using len_q seed by (rule poly_stream_cong)
  have "take ?n ?q = xor_bytes (take ?n ?c) ?s"
    using laws by simp
  moreover have "length (take ?n ?c) \<le> length ?s"
    using laws by (auto simp: min_def)
  ultimately have "xor_bytes (take ?n ?q) ?s = take ?n ?c"
    by (simp only: xor_bytes_cancel)
  then have "poly_packet lib xm (poly_packet lib xm p) = take ?n ?c @ drop ?n ?c @ drop 1600 p"
    by (subst poly_packet_def) (simp only: Let_def q len_q stream seed)
  then show ?thesis
    by (simp only: append_assoc [symmetric] append_take_drop_id)
qed

lemma concat_bytes_Reader [simp]: "concat (rd_chunks (bytes_Reader p)) = p"
  by (simp add: bytes_Reader_def)

lemma rd_end_bytes_Reader [simp]: "rd_end (bytes_Reader p) = EOF"
  by (simp add: bytes_Reader_def)

lemma limit_chunks_concat [simp]:
  "concat (snd (limit_chunks n cs)) = drop n (concat cs)"
  by (induction n cs rule: limit_chunks.induct) (auto split: prod.splits)

lemma Prepending_packet [mask_facts]:
  "layer_content (PrependingMasker_Mask pat (bytes_Reader p) []) = Ok (pat @ p)"
  "layer_content (PrependingMasker_UnMask pat (bytes_Reader p) []) = Ok (drop (length pat) p)"
  by (simp_all add: PrependingMasker_Mask_def PrependingMasker_UnMask_def io_Copy_def ReadAll_def
      layer_content_def case_prod_beta)

lemma layer_frame_packet [mask_facts]:
  "layer_content (layer_frame run (bytes_Reader p) []) = run p"
  by (cases "run p") (simp_all add: layer_frame_def layer_content_def ReadAll_def)

lemma mask_packet_simps [mask_facts]:
  "mask_packet lib (PrependingMasker pat) p = Ok (pat @ p)"
  "unmask_packet lib (PrependingMasker pat) p = Ok (drop (length pat) p)"
  "mask_packet lib (SyntheticLayerMasker ls) p = Mask_layers lib ls p"
  "unmask_packet lib (SyntheticLayerMasker ls) p = UnMask_layers lib ls p"
  "Mask_layers lib (l # ls) p = bind_outcome (mask_packet lib l p) (Mask_layers lib ls)"
  "UnMask_layers lib (l # ls) p = bind_outcome (UnMask_layers lib ls p) (unmask_packet lib l)"
  by (simp_all add: mask_packet_def unmask_packet_def Prepending_packet layer_frame_packet
      fun_eq_iff cong: bind_outcome_cong)

section \<open>The contract of a masker\<close>

text \<open>
  A masker that accepts packets of some lengths: it masks them to packets whose length depends on
  the length only and unmasking gives them back; every other packet makes it panic.
\<close>

locale packet_masker =
  fixes mask unmask :: "bytes \<Rightarrow> (io_error, bytes) outcome"
    and accepts :: "nat \<Rightarrow> bool"
    and grown :: "nat \<Rightarrow> nat"
  assumes mask_accepted:
    "accepts (length p) \<Longrightarrow> \<exists>q. mask p = Ok q \<and> length q = grown (length p) \<and> unmask q = Ok p"
    and mask_refused: "\<not> accepts (length p) \<Longrightarrow> mask p = Panic"
begin

lemma mask_returns_iff: "(\<exists>q. mask p = Ok q) \<longleftrightarrow> accepts (length p)"
  using mask_accepted mask_refused by fastforce

lemma unmask_mask: "mask p = Ok q \<Longrightarrow> unmask q = Ok p"
  using mask_accepted [of p] mask_refused [of p] by fastforce

lemma mask_inj: "mask p = Ok q \<Longrightarrow> mask p' = Ok q \<Longrightarrow> p = p'"
  by (metis unmask_mask outcome.inject(1))

end

text \<open>Two maskers one after the other.\<close>

locale packet_masker_pair =
  fst: packet_masker mask1 unmask1 accepts1 grown1 +
  snd: packet_masker mask2 unmask2 accepts2 grown2
  for mask1 unmask1 accepts1 grown1 mask2 unmask2 accepts2 grown2
begin

lemma pair_contract:
  "packet_masker (\<lambda>p. bind_outcome (mask1 p) mask2) (\<lambda>q. bind_outcome (unmask2 q) unmask1)
     (\<lambda>n. accepts1 n \<and> accepts2 (grown1 n)) (\<lambda>n. grown2 (grown1 n))"
proof
  fix p :: bytes
  assume acc: "accepts1 (length p) \<and> accepts2 (grown1 (length p))"
  then obtain q where q: "mask1 p = Ok q" "length q = grown1 (length p)" "unmask1 q = Ok p"
    using fst.mask_accepted by blast
  then obtain r where "mask2 q = Ok r" "length r = grown2 (length q)" "unmask2 r = Ok q"
    using acc snd.mask_accepted [of q] by auto
  with q show "\<exists>q. bind_outcome (mask1 p) mask2 = Ok q \<and> length q = grown2 (grown1 (length p)) \<and>
      bind_outcome (unmask2 q) unmask1 = Ok p"
    by auto
next
  fix p :: bytes
  assume "\<not> (accepts1 (length p) \<and> accepts2 (grown1 (length p)))"
  then consider "\<not> accepts1 (length p)" | "accepts1 (length p)" "\<not> accepts2 (grown1 (length p))"
    by blast
  then show "bind_outcome (mask1 p) mask2 = Panic"
  proof cases
    case 1
    then show ?thesis by (simp add: fst.mask_refused)
  next
    case 2
    with fst.mask_accepted obtain q where "mask1 p = Ok q" "length q = grown1 (length p)"
      by blast
    with 2 show ?thesis by (simp add: snd.mask_refused)
  qed
qed

end

section \<open>Every masker satisfies the contract\<close>

text \<open>The lengths a masker accepts and the length of the masked packet.\<close>

fun masker_accepts :: "masker \<Rightarrow> nat \<Rightarrow> bool"
  and layers_accept :: "masker list \<Rightarrow> nat \<Rightarrow> bool"
  and masked_length :: "masker \<Rightarrow> nat \<Rightarrow> nat"
  and layers_length :: "masker list \<Rightarrow> nat \<Rightarrow> nat" where
  "masker_accepts (ConstantXor xm) n \<longleftrightarrow> n \<le> 1600"
| "masker_accepts (PolyXor xm) n \<longleftrightarrow> poly_accepts n"
| "masker_accepts (PrependingMasker pat) n \<longleftrightarrow> True"
| "masker_accepts (SyntheticLayerMasker ls) n \<longleftrightarrow> layers_accept ls n"
| "layers_accept [] n \<longleftrightarrow> True"
| "layers_accept (l # ls) n \<longleftrightarrow> masker_accepts l n \<and> layers_accept ls (masked_length l n)"
| "masked_length (ConstantXor xm) n = n"
| "masked_length (PolyXor xm) n = n"
| "masked_length (PrependingMasker pat) n = length pat + n"
| "masked_length (SyntheticLayerMasker ls) n = layers_length ls n"
| "layers_length [] n = n"
| "layers_length (l # ls) n = layers_length ls (masked_length l n)"

text \<open>The maskers the constructors of the packages return.\<close>

fun masker_built :: "mask_lib \<Rightarrow> masker \<Rightarrow> bool" where
  "masker_built lib (ConstantXor xm) \<longleftrightarrow> xm = NewXorMasker lib (cx_MaskingSeed xm)"
| "masker_built lib (PolyXor xm) \<longleftrightarrow> xm = NewPolyXorMasker lib (px_MaskingSeed xm)"
| "masker_built lib (PrependingMasker pat) \<longleftrightarrow> True"
| "masker_built lib (SyntheticLayerMasker ls) \<longleftrightarrow> (\<forall>l\<in>set ls. masker_built lib l)"

lemma constantXor_contract:
  assumes "1600 \<le> length (cx_MaskingPattern xm)"
  shows "packet_masker (mask_packet lib (ConstantXor xm)) (unmask_packet lib (ConstantXor xm))
     (\<lambda>n. n \<le> 1600) (\<lambda>n. n)"
  using assms
  by unfold_locales
     (simp_all add: mask_packet_def unmask_packet_def constantXor_packet min_absorb1)

lemma polyxor_contract:
  assumes "mask_laws lib"
  shows "packet_masker (mask_packet lib (PolyXor xm)) (unmask_packet lib (PolyXor xm))
     poly_accepts (\<lambda>n. n)"
  using assms
  by unfold_locales
     (simp_all add: mask_packet_def unmask_packet_def polyxor_packet poly_packet_involutive)

interpretation prepend: packet_masker
  "mask_packet lib (PrependingMasker pat)" "unmask_packet lib (PrependingMasker pat)"
  "\<lambda>n. True" "\<lambda>n. length pat + n" for lib pat
  by unfold_locales (simp_all add: mask_packet_simps)

interpretation raw: packet_masker
  "mask_packet lib GetRawMask" "unmask_packet lib GetRawMask" "\<lambda>n. True" "\<lambda>n. n" for lib
  by unfold_locales (simp_all add: mask_packet_simps GetRawMask_def)

text \<open>A stack of two prefixes, the smallest pair.\<close>

interpretation prepend_twice: packet_masker_pair
  "mask_packet lib (PrependingMasker pat)" "unmask_packet lib (PrependingMasker pat)"
  "\<lambda>n. True" "\<lambda>n. length pat + n"
  "mask_packet lib (PrependingMasker pat')" "unmask_packet lib (PrependingMasker pat')"
  "\<lambda>n. True" "\<lambda>n. length pat' + n" for lib pat pat'
  by unfold_locales

lemma layers_contract:
  assumes "\<And>l. l \<in> set ls \<Longrightarrow>
     packet_masker (mask_packet lib l) (unmask_packet lib l) (masker_accepts l) (masked_length l)"
  shows "packet_masker (Mask_layers lib ls) (UnMask_layers lib ls) (layers_accept ls) (layers_length ls)"
  using assms
proof (induction ls)
  case Nil
  then show ?case by unfold_locales simp_all
next
  case (Cons l ls)
  then have "packet_masker_pair (mask_packet lib l) (unmask_packet lib l) (masker_accepts l) (masked_length l)
      (Mask_layers lib ls) (UnMask_layers lib ls) (layers_accept ls) (layers_length ls)"
    by (simp add: packet_masker_pair_def)
  note pair = packet_masker_pair.pair_contract [OF this]
  have "Mask_layers lib (l # ls) = (\<lambda>p. bind_outcome (mask_packet lib l p) (Mask_layers lib ls))"
    "UnMask_layers lib (l # ls) = (\<lambda>q. bind_outcome (UnMask_layers lib ls q) (unmask_packet lib l))"
    "layers_accept (l # ls) = (\<lambda>n. masker_accepts l n \<and> layers_accept ls (masked_length l n))"
    "layers_length (l # ls) = (\<lambda>n. layers_length ls (masked_length l n))"
    by (simp_all add: fun_eq_iff mask_packet_def unmask_packet_def [abs_def])
  with pair show ?case by simp
qed

lemma masker_contract:
  assumes "mask_laws lib" and "masker_built lib m"
  shows "packet_masker (mask_packet lib m) (unmask_packet lib m) (masker_accepts m) (masked_length m)"
  using assms(2)
proof (induction m)
  case (ConstantXor xm)
  then have "length (cx_MaskingPattern xm) = 65536"
    using assms(1) by (metis NewXorMasker_def constantXor_XorMasker.select_convs(1) mask_laws_def masker_built.simps(1))
  then show ?case
    using constantXor_contract [of xm lib] by (simp add: packet_masker_def)
next
  case (PolyXor xm)
  then show ?case
    using polyxor_contract [OF assms(1), of xm] by (simp add: packet_masker_def)
next
  case (PrependingMasker pat)
  then show ?case
    using prepend.packet_masker_axioms [of lib pat] by (simp add: packet_masker_def)
next
  case (SyntheticLayerMasker ls)
  then show ?case
    using layers_contract [of ls lib] by (simp add: packet_masker_def mask_packet_simps)
qed

lemma layer_content_Ok_iff [simp]:
  "layer_content res = Ok q \<longleftrightarrow> (\<exists>r. res = Ok (None, r, q))"
  by (cases res) (auto simp: layer_content_def split: option.splits)

lemma layer_content_Panic_iff [simp]: "layer_content res = Panic \<longleftrightarrow> res = Panic"
  by (cases res) (auto simp: layer_content_def split: option.splits)

lemma built_preset [simp]:
  "masker_built lib (GetPrependAndXorMask lib pw pat)"
  "masker_built lib (GetPrependAndPolyXorMask lib pw pat)"
  "masker_built lib GetRawMask"
  by (simp_all add: GetPrependAndXorMask_def GetPrependAndPolyXorMask_def GetRawMask_def
      NewXorMasker_def NewPolyXorMasker_def Let_def)

text \<open>A concrete library, for the witnesses.\<close>

definition ex_mask_lib :: mask_lib where
  "ex_mask_lib =
     \<lparr>cShake128 = (\<lambda>c s n. replicate n (of_nat (length s))), rand_Read = (\<lambda>s n. replicate n (ucast s))\<rparr>"

lemma ex_mask_lib_laws: "mask_laws ex_mask_lib"
  by (simp add: mask_laws_def ex_mask_lib_def)

text \<open>C7.
  For every masker the constructors build, with layers nested in any way, and every packet of a
  length it accepts, \<open>Mask\<close> returns without error a packet of the predicted length, and
  \<open>UnMask\<close> of that packet returns the original.
\<close>

theorem masker_round_trip:
  assumes "mask_laws lib" and "masker_built lib m" and "masker_accepts m (length p)"
  shows "\<exists>q r r'. Mask lib m (bytes_Reader p) [] = Ok (None, r, q) \<and> length q = masked_length m (length p) \<and>
     UnMask lib m (bytes_Reader q) [] = Ok (None, r', p)"
  using packet_masker.mask_accepted [OF masker_contract [OF assms(1,2)] assms(3)]
  by (auto simp: mask_packet_def unmask_packet_def)

theorem masker_round_trip_witness:
  "\<exists>q r r'. Mask ex_mask_lib (GetPrependAndPolyXorMask ex_mask_lib [1, 2] [22, 3]) (bytes_Reader (replicate 20 5)) []
       = Ok (None, r, q) \<and> length q = 22 \<and>
     UnMask ex_mask_lib (GetPrependAndPolyXorMask ex_mask_lib [1, 2] [22, 3]) (bytes_Reader q) []
       = Ok (None, r', replicate 20 5)"
  using masker_round_trip [OF ex_mask_lib_laws built_preset(2), of "[1, 2]" "[22, 3]" "replicate 20 5"]
  by (simp add: GetPrependAndPolyXorMask_def poly_accepts_def)

text \<open>C37.
  \<open>Mask\<close> panics on exactly the packets whose length the masker does not accept: more than 1600
  bytes for a constant exclusive or; 1 to 15, 1601 to 1615 or more than 1632 bytes for the
  polymorphic one; layers fail where one of their layers does. It never returns an error.
\<close>

theorem mask_panics_exactly:
  assumes "mask_laws lib" and "masker_built lib m"
  shows "Mask lib m (bytes_Reader p) [] = Panic \<longleftrightarrow> \<not> masker_accepts m (length p)"
  using packet_masker.mask_accepted [OF masker_contract [OF assms], of p]
    packet_masker.mask_refused [OF masker_contract [OF assms], of p]
  by (cases "masker_accepts m (length p)") (auto simp: mask_packet_def)

theorem mask_panics_exactly_witness:
  "Mask ex_mask_lib (GetPrependAndPolyXorMask ex_mask_lib [1, 2] []) (bytes_Reader (replicate 15 5)) [] = Panic"
  using mask_panics_exactly [OF ex_mask_lib_laws built_preset(2), of "[1, 2]" "[]" "replicate 15 5"]
  by (simp add: GetPrependAndPolyXorMask_def poly_accepts_def)

section \<open>The connection adapter\<close>

text \<open>
  What one adapter writes and the peer reads, over any masker with the contract; the datagram is
  not cut on its way.
\<close>

lemma adopter_Write_sends:
  assumes "mask_packet lib m p = Ok q" and "dc_wrerr c = None"
  shows "MaskerAdopter_Write lib (NewMaskerAdopter m c) p =
     (Ok (length p), NewMaskerAdopter m (c\<lparr>dc_out := dc_out c @ [q]\<rparr>))"
  using assms by (auto simp: MaskerAdopter_Write_def NewMaskerAdopter_def conn_Write_def mask_packet_def)

lemma adopter_Read_gets:
  assumes "unmask_packet lib m q = Ok p" and "dc_in c = q # ds" and "length q \<le> 65536"
    and "length p \<le> blen"
  shows "MaskerAdopter_Read lib (NewMaskerAdopter m c) blen = (Ok p, NewMaskerAdopter m (c\<lparr>dc_in := ds\<rparr>))"
  using assms by (auto simp: MaskerAdopter_Read_def NewMaskerAdopter_def conn_Read_def unmask_packet_def)

text \<open>
  Two adapters with the same masker on the two ends of a datagram connection: what one writes, of
  a length the masker accepts, is one datagram, and the other reads the same bytes from it, as
  long as the masked packet fits the adapter's buffer of 65536 bytes and the packet the caller's.
\<close>

theorem masked_connection_delivers:
  assumes "mask_laws lib" and "masker_built lib m" and "masker_accepts m (length p)"
    and "masked_length m (length p) \<le> 65536" and "length p \<le> blen"
    and "dc_wrerr c = None" and "dc_out c = []"
  shows "\<exists>c' d. MaskerAdopter_Write lib (NewMaskerAdopter m c) p = (Ok (length p), NewMaskerAdopter m c') \<and>
     dc_out c' = [d] \<and>
     (\<forall>peer. MaskerAdopter_Read lib (NewMaskerAdopter m (peer\<lparr>dc_in := dc_out c'\<rparr>)) blen =
        (Ok p, NewMaskerAdopter m (peer\<lparr>dc_in := []\<rparr>)))"
proof -
  obtain q where q: "mask_packet lib m p = Ok q" "length q = masked_length m (length p)"
      "unmask_packet lib m q = Ok p"
    using packet_masker.mask_accepted [OF masker_contract [OF assms(1,2)] assms(3)] by blast
  have "MaskerAdopter_Write lib (NewMaskerAdopter m c) p =
      (Ok (length p), NewMaskerAdopter m (c\<lparr>dc_out := [q]\<rparr>))"
    using adopter_Write_sends [OF q(1) assms(6)] assms(7) by simp
  moreover have "MaskerAdopter_Read lib (NewMaskerAdopter m (peer\<lparr>dc_in := [q]\<rparr>)) blen =
      (Ok p, NewMaskerAdopter m (peer\<lparr>dc_in := []\<rparr>))" for peer
    using adopter_Read_gets [OF q(3), of "peer\<lparr>dc_in := [q]\<rparr>" "[]" blen] q assms(4,5) by simp
  ultimately show ?thesis by force
qed

definition ex_conn :: dgram_conn where
  "ex_conn = \<lparr>dc_in = [], dc_rderr = ReadError, dc_out = [], dc_wrerr = None,
     dc_rd_deadline = 0, dc_wr_deadline = 0, dc_closed = False\<rparr>"

theorem masked_connection_delivers_witness:
  "\<exists>c' d. MaskerAdopter_Write ex_mask_lib (NewMaskerAdopter (GetPrependAndXorMask ex_mask_lib [9] [22, 3]) ex_conn) [1, 2, 3]
       = (Ok 3, NewMaskerAdopter (GetPrependAndXorMask ex_mask_lib [9] [22, 3]) c') \<and> dc_out c' = [d] \<and>
     fst (MaskerAdopter_Read ex_mask_lib
       (NewMaskerAdopter (GetPrependAndXorMask ex_mask_lib [9] [22, 3]) (ex_conn\<lparr>dc_in := dc_out c'\<rparr>)) 1500) = Ok [1, 2, 3]"
proof -
  have "masker_accepts (GetPrependAndXorMask ex_mask_lib [9] [22, 3]) (length ([1, 2, 3] :: bytes))"
    "masked_length (GetPrependAndXorMask ex_mask_lib [9] [22, 3]) (length ([1, 2, 3] :: bytes)) \<le> 65536"
    "length ([1, 2, 3] :: bytes) \<le> 1500" "dc_wrerr ex_conn = None" "dc_out ex_conn = []"
    by (simp_all add: GetPrependAndXorMask_def ex_conn_def)
  from masked_connection_delivers [OF ex_mask_lib_laws built_preset(1) this] show ?thesis
    by (fastforce simp: numeral_3_eq_3)
qed

text \<open>
  A datagram of more than 1600 bytes behind the prefix, whatever it contains, makes the reading
  side of both exclusive-or presets panic: \<open>UnMask\<close> runs the exclusive-or layer on it and its
  counter leaves the 1600 byte buffer on the second chunk.
\<close>

theorem oversized_datagram_panics:
  assumes "mask_laws lib"
    and "m = GetPrependAndXorMask lib pw pat \<or> m = GetPrependAndPolyXorMask lib pw pat"
    and "dc_in c = d # ds" and "1600 + length pat < length d" and "length d \<le> 65536"
  shows "fst (MaskerAdopter_Read lib (NewMaskerAdopter m c) blen) = Panic"
proof -
  have "length (cx_MaskingPattern (NewXorMasker lib pw)) = 65536"
    using assms(1) by (simp add: NewXorMasker_def mask_laws_def)
  then have "unmask_packet lib m d = Panic"
    using assms(2,4) constantXor_packet [of "NewXorMasker lib pw" "drop (length pat) d"]
    by (auto simp: GetPrependAndXorMask_def GetPrependAndPolyXorMask_def unmask_packet_def
        layer_frame_packet Prepending_packet simp del: layer_content_Panic_iff)
  then show ?thesis
    using assms(3,5)
    by (simp add: MaskerAdopter_Read_def NewMaskerAdopter_def conn_Read_def unmask_packet_def)
qed

theorem oversized_datagram_panics_witness:
  "fst (MaskerAdopter_Read ex_mask_lib
     (NewMaskerAdopter (GetPrependAndXorMask ex_mask_lib [9] []) (ex_conn\<lparr>dc_in := [replicate 1601 0]\<rparr>)) 1500) = Panic"
  by (rule oversized_datagram_panics [OF ex_mask_lib_laws disjI1 [OF refl],
        where d = "replicate 1601 0" and ds = "[]"]) simp_all

text \<open>Setting the read deadline of the adapter moves the write deadline too.\<close>

lemma SetReadDeadline_moves_both:
  "MaskerAdopter_SetReadDeadline t m = MaskerAdopter_SetDeadline t m"
  "dc_wr_deadline (ma_in (MaskerAdopter_SetReadDeadline t m)) = t"
  by (simp_all add: MaskerAdopter_SetReadDeadline_def MaskerAdopter_SetDeadline_def conn_SetDeadline_def)

end
