(* ===== verification/UdpServer.thy ===== *)
theory UdpServer
  imports MaskerProperties
begin

text \<open>
  The datagram listener \<^verbatim>\<open>transport/udp/udpServer/udpServer.go\<close>: one socket, a table from remote
  addresses to connections, and a queue of 32 datagrams per connection. The listener above is a
  parameter: whether it takes a connection, from the address and the first (unmasked) datagram.
  Connections are objects the upper layers hold on to after they have left the table, so they live
  in a heap and the table has their addresses. \<open>srv_received\<close> records every datagram of the socket.
\<close>

section \<open>State\<close>

record connImpl =
  ci_remoteAddr :: bytes
  ci_readchan :: "bytes chan"

record udpServer =
  srv_conns :: "nat \<rightharpoonup> connImpl"
  srv_next :: nat
  srv_tracker :: "bytes \<rightharpoonup> nat"
  srv_shouldMask :: bool
  srv_masking :: bytes
  srv_sent :: "(bytes \<times> bytes) list"
  srv_received :: "(bytes \<times> bytes) list"

definition NewUDPServer :: "bool \<Rightarrow> bytes \<Rightarrow> udpServer" where
  "NewUDPServer shouldMask masking =
     \<lparr>srv_conns = Map.empty, srv_next = 0, srv_tracker = Map.empty, srv_shouldMask = shouldMask,
      srv_masking = masking, srv_sent = [], srv_received = []\<rparr>"

section \<open>Operations\<close>

text \<open>
  The context of a new connection: its first datagram, unmasked when the server masks. An error of
  the masker is dropped and what it wrote is used.
\<close>

definition PrepareIncomingUDPConnection ::
  "mask_lib \<Rightarrow> bool \<Rightarrow> bytes \<Rightarrow> bytes \<Rightarrow> (io_error, bytes) outcome" where
  "PrepareIncomingUDPConnection lib shouldMask masking initialData =
     (if shouldMask then
        bind_outcome (UnMask lib (GetPrependAndPolyXorMask lib masking []) (bytes_Reader initialData) [])
          (\<lambda>(err, _, demaskbuf). Ok demaskbuf)
      else Ok initialData)"

text \<open>
  One round of \<open>Listener\<close>. A read that fails has no address, and taking its string panics. The
  buffer has 2000 bytes. The datagram goes to the queue of its connection if there is room, also
  when the listener above has just refused the connection.
\<close>

definition Listener_step ::
  "mask_lib \<Rightarrow> (bytes \<Rightarrow> bytes \<Rightarrow> bool) \<Rightarrow> (io_error + bytes \<times> bytes) \<Rightarrow> udpServer \<Rightarrow>
   (io_error, udpServer) outcome" where
  "Listener_step lib upper event s =
     (case event of
        Inl e \<Rightarrow> Panic
      | Inr (a, datagram) \<Rightarrow>
          (let bm = take 2000 datagram; conn = \<lparr>ci_remoteAddr = a, ci_readchan = make_chan 32\<rparr>;
               s0 = s\<lparr>srv_received := srv_received s @ [(a, bm)]\<rparr>;
               (tracker, i, loaded) = LoadOrStore (srv_tracker s) a (srv_next s);
               s1 = (if loaded then s0
                     else s0\<lparr>srv_tracker := tracker, srv_conns := (srv_conns s)(i \<mapsto> conn), srv_next := Suc i\<rparr>);
               deliver = (\<lambda>t. t\<lparr>srv_conns := (srv_conns t)(i :=
                  map_option (\<lambda>c. c\<lparr>ci_readchan := fst (chan_try_send (ci_readchan c) bm)\<rparr>) (srv_conns t i))\<rparr>)
           in if loaded then Ok (deliver s1)
              else bind_outcome (PrepareIncomingUDPConnection lib (srv_shouldMask s) (srv_masking s) bm)
                (\<lambda>initialData.
                   Ok (deliver (if upper a initialData then s1
                                else s1\<lparr>srv_tracker := Delete tracker a\<rparr>)))))"

text \<open>
  \<open>Read\<close> of a connection with a queued datagram: the copy fits the buffer, the length returned is
  that of the datagram. With an empty queue it ends with \<open>ErrClosedPipe\<close> after 400 seconds.
\<close>

definition connImpl_Read :: "nat \<Rightarrow> nat \<Rightarrow> udpServer \<Rightarrow> ((bytes \<times> nat) option \<times> udpServer) option" where
  "connImpl_Read i blen s =
     (case srv_conns s i of
        None \<Rightarrow> None
      | Some c \<Rightarrow>
          (case chan_recv (ci_readchan c) of
             None \<Rightarrow> Some (None, s)
           | Some (by, ch) \<Rightarrow>
               Some (Some (take blen by, length by), s\<lparr>srv_conns := (srv_conns s)(i \<mapsto> c\<lparr>ci_readchan := ch\<rparr>)\<rparr>)))"

definition connImpl_Write :: "nat \<Rightarrow> bytes \<Rightarrow> udpServer \<Rightarrow> udpServer" where
  "connImpl_Write i b s =
     (case srv_conns s i of None \<Rightarrow> s | Some c \<Rightarrow> s\<lparr>srv_sent := srv_sent s @ [(ci_remoteAddr c, b)]\<rparr>)"

definition connImpl_Close :: "nat \<Rightarrow> udpServer \<Rightarrow> udpServer" where
  "connImpl_Close i s =
     (case srv_conns s i of
        None \<Rightarrow> s | Some c \<Rightarrow> s\<lparr>srv_tracker := Delete (srv_tracker s) (ci_remoteAddr c)\<rparr>)"

section \<open>The server as a transition system\<close>

inductive udp_server_step :: "mask_lib \<Rightarrow> (bytes \<Rightarrow> bytes \<Rightarrow> bool) \<Rightarrow> udpServer \<Rightarrow> udpServer \<Rightarrow> bool"
  for lib upper where
  step_listen: "Listener_step lib upper event s = Ok s' \<Longrightarrow> udp_server_step lib upper s s'"
| step_read: "connImpl_Read i blen s = Some (r, s') \<Longrightarrow> udp_server_step lib upper s s'"
| step_write: "udp_server_step lib upper s (connImpl_Write i b s)"
| step_close: "udp_server_step lib upper s (connImpl_Close i s)"

inductive udp_server_reachable ::
  "mask_lib \<Rightarrow> (bytes \<Rightarrow> bytes \<Rightarrow> bool) \<Rightarrow> bool \<Rightarrow> bytes \<Rightarrow> udpServer \<Rightarrow> bool"
  for lib upper shouldMask masking where
  reach_init: "udp_server_reachable lib upper shouldMask masking (NewUDPServer shouldMask masking)"
| reach_step: "udp_server_reachable lib upper shouldMask masking s \<Longrightarrow> udp_server_step lib upper s s' \<Longrightarrow>
    udp_server_reachable lib upper shouldMask masking s'"

inductive_cases udp_server_stepE: "udp_server_step lib upper s s'"

text \<open>
  The table leads to a connection of the same address, queues stay within their bound, and what is
  queued was received from the address of its connection.
\<close>

definition conn_ok :: "udpServer \<Rightarrow> connImpl \<Rightarrow> bool" where
  "conn_ok s c \<longleftrightarrow> ch_cap (ci_readchan c) = 32 \<and> length (ch_buf (ci_readchan c)) \<le> 32 \<and>
     (\<forall>d\<in>set (ch_buf (ci_readchan c)). (ci_remoteAddr c, d) \<in> set (srv_received s))"

definition udp_server_inv :: "udpServer \<Rightarrow> bool" where
  "udp_server_inv s \<longleftrightarrow>
     (\<forall>a i. srv_tracker s a = Some i \<longrightarrow> (\<exists>c. srv_conns s i = Some c \<and> ci_remoteAddr c = a)) \<and>
     (\<forall>i c. srv_conns s i = Some c \<longrightarrow> i < srv_next s \<and> conn_ok s c)"

lemma inv_init: "udp_server_inv (NewUDPServer m k)"
  by (simp add: udp_server_inv_def NewUDPServer_def)

lemma conn_ok_mono:
  "conn_ok s c \<Longrightarrow> set (srv_received s) \<subseteq> set (srv_received s') \<Longrightarrow> conn_ok s' c"
  by (auto simp: conn_ok_def)

lemma conn_ok_deliver:
  assumes "conn_ok s c" and "(ci_remoteAddr c, d) \<in> set (srv_received s)"
  shows "conn_ok s (c\<lparr>ci_readchan := fst (chan_try_send (ci_readchan c) d)\<rparr>)"
  using assms by (auto simp: conn_ok_def chan_try_send_def)

lemma conn_ok_new: "conn_ok s \<lparr>ci_remoteAddr = a, ci_readchan = make_chan 32\<rparr>"
  by (simp add: conn_ok_def)

text \<open>The outcome of a round for a known and for an unknown address.\<close>

lemma Listener_known:
  assumes "srv_tracker s a = Some i" and "srv_conns s i = Some c"
  shows "Listener_step lib upper (Inr (a, d)) s =
     Ok (s\<lparr>srv_received := srv_received s @ [(a, take 2000 d)],
           srv_conns := (srv_conns s)(i \<mapsto>
             c\<lparr>ci_readchan := fst (chan_try_send (ci_readchan c) (take 2000 d))\<rparr>)\<rparr>)"
  using assms by (cases s) (simp add: Listener_step_def LoadOrStore_def Let_def)

lemma Listener_unknown:
  assumes "srv_tracker s a = None"
    and "Listener_step lib upper (Inr (a, d)) s = Ok s'"
  shows "srv_received s' = srv_received s @ [(a, take 2000 d)] \<and> srv_next s' = Suc (srv_next s) \<and>
     srv_conns s' = (srv_conns s)(srv_next s \<mapsto> \<lparr>ci_remoteAddr = a,
       ci_readchan = fst (chan_try_send (make_chan 32) (take 2000 d))\<rparr>) \<and>
     (srv_tracker s' = (srv_tracker s)(a \<mapsto> srv_next s) \<or> srv_tracker s' = srv_tracker s)"
  using assms
  by (auto simp: Listener_step_def LoadOrStore_def Let_def Delete_def fun_upd_idem_iff)

lemma inv_listen:
  assumes "udp_server_inv s" and "Listener_step lib upper event s = Ok s'"
  shows "udp_server_inv s'"
proof -
  obtain a d where ev: "event = Inr (a, d)"
    using assms(2) by (cases event) (auto simp: Listener_step_def)
  show ?thesis
  proof (cases "srv_tracker s a")
    case None
    note out = Listener_unknown [OF None assms(2) [unfolded ev]]
    let ?new = "\<lparr>ci_remoteAddr = a, ci_readchan = fst (chan_try_send (make_chan 32) (take 2000 d))\<rparr>"
    have "conn_ok s' ?new"
      using conn_ok_deliver [OF conn_ok_new, of a "take 2000 d" s'] out by simp
    moreover have "conn_ok s' c" if "srv_conns s i = Some c" for i c
      using assms(1) out that conn_ok_mono [of s c s'] by (auto simp: udp_server_inv_def)
    ultimately show ?thesis
      using assms(1) out by (fastforce simp: udp_server_inv_def split: if_splits)
  next
    case (Some i)
    then obtain c where c: "srv_conns s i = Some c" "ci_remoteAddr c = a"
      using assms(1) by (auto simp: udp_server_inv_def)
    let ?s' = "s\<lparr>srv_received := srv_received s @ [(a, take 2000 d)],
        srv_conns := (srv_conns s)(i \<mapsto> c\<lparr>ci_readchan := fst (chan_try_send (ci_readchan c) (take 2000 d))\<rparr>)\<rparr>"
    have s': "s' = ?s'"
      using Listener_known [OF Some c(1)] assms(2) ev by simp
    have old: "conn_ok ?s' c'" if "srv_conns s j = Some c'" for j c'
      using assms(1) that conn_ok_mono [of s c' ?s'] by (auto simp: udp_server_inv_def)
    have "conn_ok ?s' (c\<lparr>ci_readchan := fst (chan_try_send (ci_readchan c) (take 2000 d))\<rparr>)"
      using conn_ok_deliver [OF old [OF c(1)]] c(2) by simp
    then show ?thesis
      unfolding s' using assms(1) old c
      by (auto simp: udp_server_inv_def split: if_splits) fastforce+
  qed
qed

lemma inv_read:
  assumes "udp_server_inv s" and "connImpl_Read i blen s = Some (r, s')"
  shows "udp_server_inv s'"
proof -
  obtain c where c: "srv_conns s i = Some c"
    using assms(2) by (auto simp: connImpl_Read_def split: option.splits)
  then have "conn_ok s c"
    using assms(1) by (simp add: udp_server_inv_def)
  then have "conn_ok s (c\<lparr>ci_readchan := ch\<rparr>)" if "chan_recv (ci_readchan c) = Some (v, ch)" for v ch
    using that by (auto simp: conn_ok_def chan_recv_def split: list.splits)
  then show ?thesis
    using assms c
    by (auto simp: connImpl_Read_def udp_server_inv_def conn_ok_def split: option.splits if_splits) fastforce+
qed

lemma inv_write_close:
  assumes "udp_server_inv s"
  shows "udp_server_inv (connImpl_Write i b s)" "udp_server_inv (connImpl_Close i s)"
  using assms
  by (auto simp: udp_server_inv_def conn_ok_def connImpl_Write_def connImpl_Close_def Delete_def
      split: option.splits if_splits)

lemma udp_server_reachable_inv: "udp_server_reachable lib upper m k s \<Longrightarrow> udp_server_inv s"
proof (induction rule: udp_server_reachable.induct)
  case reach_init
  then show ?case by (rule inv_init)
next
  case (reach_step s s')
  then show ?case
    by (auto elim!: udp_server_stepE intro: inv_listen inv_read inv_write_close)
qed

text \<open>C24.
  In every state the server reaches, an address in the table leads to a connection of that
  address, whose queue has at most 32 datagrams, all of them received from that address; and a
  datagram from a known address goes to that connection and to no other.
\<close>

theorem udp_server_routes_by_address:
  assumes "udp_server_reachable lib upper shouldMask masking s" and "srv_tracker s a = Some i"
  shows "\<exists>c s'. srv_conns s i = Some c \<and> ci_remoteAddr c = a \<and> length (ch_buf (ci_readchan c)) \<le> 32 \<and>
     (\<forall>d\<in>set (ch_buf (ci_readchan c)). (a, d) \<in> set (srv_received s)) \<and>
     Listener_step lib upper (Inr (a, datagram)) s = Ok s' \<and>
     (\<forall>j. j \<noteq> i \<longrightarrow> srv_conns s' j = srv_conns s j) \<and>
     ch_buf (ci_readchan (the (srv_conns s' i))) =
       (if length (ch_buf (ci_readchan c)) < 32 then ch_buf (ci_readchan c) @ [take 2000 datagram]
        else ch_buf (ci_readchan c))"
proof -
  have inv: "udp_server_inv s"
    using assms(1) by (rule udp_server_reachable_inv)
  then obtain c where c: "srv_conns s i = Some c" "ci_remoteAddr c = a" "conn_ok s c"
    using assms(2) unfolding udp_server_inv_def by blast
  then show ?thesis
    using Listener_known [OF assms(2) c(1), of lib upper datagram]
    by (auto simp: conn_ok_def chan_try_send_def)
qed

text \<open>A server that has heard from one address.\<close>

definition ex_server :: udpServer where
  "ex_server =
     \<lparr>srv_conns = [0 \<mapsto> \<lparr>ci_remoteAddr = [9], ci_readchan = \<lparr>ch_cap = 32, ch_buf = [[1, 2]]\<rparr>\<rparr>], srv_next = 1,
      srv_tracker = [[9] \<mapsto> 0], srv_shouldMask = False, srv_masking = [], srv_sent = [],
      srv_received = [([9], [1, 2])]\<rparr>"

lemma ex_server_reachable: "udp_server_reachable ex_mask_lib (\<lambda>a d. True) False [] ex_server"
proof (rule reach_step [OF reach_init step_listen])
  show "Listener_step ex_mask_lib (\<lambda>a d. True) (Inr ([9], [1, 2])) (NewUDPServer False []) = Ok ex_server"
    by (simp add: Listener_step_def NewUDPServer_def ex_server_def LoadOrStore_def Let_def
        PrepareIncomingUDPConnection_def chan_try_send_def make_chan_def chan_send_def)
qed

theorem udp_server_routes_by_address_witness:
  "\<exists>s'. Listener_step ex_mask_lib (\<lambda>a d. True) (Inr ([9], [3])) ex_server = Ok s' \<and>
     ch_buf (ci_readchan (the (srv_conns s' 0))) = [[1, 2], [3]]"
  using udp_server_routes_by_address [OF ex_server_reachable, of "[9]" 0 "[3]"]
  by (auto simp: ex_server_def)

text \<open>
  A server with masking is killed by one datagram from an unknown address: 1 to 15 bytes, or more
  than 1600 of the 2000 it reads, make the unmasking of the first datagram panic in the listener.
\<close>

theorem masked_server_killed_by_datagram:
  assumes "mask_laws lib" and "srv_shouldMask s" and "srv_tracker s a = None"
    and "0 < length d \<and> length d < 16 \<or> 1600 < length d"
  shows "Listener_step lib upper (Inr (a, d)) s = Panic"
proof -
  let ?m = "GetPrependAndPolyXorMask lib (srv_masking s) []"
  have pat: "1600 \<le> length (cx_MaskingPattern (NewXorMasker lib pw))" for pw
    using assms(1) by (simp add: NewXorMasker_def mask_laws_def)
  note cx = constantXor_packet [OF pat, of "srv_masking s" "take 2000 d"]
  have unfolded: "unmask_packet lib ?m p = bind_outcome
      (layer_content (constantXor_maskInternal (NewXorMasker lib (srv_masking s)) 0 (replicate 1600 0) (bytes_Reader p) []))
      (\<lambda>q. layer_content (polyxor_maskInternal lib (NewPolyXorMasker lib (srv_masking s)) 0 (replicate 1600 0)
         (replicate 1600 0) (bytes_Reader q) []))" for p
    by (simp add: GetPrependAndPolyXorMask_def unmask_packet_def layer_frame_packet Prepending_packet)
  have "unmask_packet lib ?m (take 2000 d) = Panic"
  proof (cases "1600 < length d")
    case True
    then show ?thesis by (simp add: unfolded cx min_def)
  next
    case False
    let ?q = "xor_bytes d (cx_MaskingPattern (NewXorMasker lib (srv_masking s)))"
    have "length ?q = length d"
      using False pat [of "srv_masking s"] by simp
    then have "\<not> poly_accepts (length ?q)"
      using False assms(4) by (auto simp: poly_accepts_def)
    then show ?thesis
      using False
      by (simp add: unfolded constantXor_packet [OF pat, of "srv_masking s" d] polyxor_packet [OF assms(1)])
  qed
  then have "UnMask lib ?m (bytes_Reader (take 2000 d)) [] = Panic"
    by (simp add: unmask_packet_def)
  then show ?thesis
    using assms(2,3)
    by (simp add: Listener_step_def PrepareIncomingUDPConnection_def LoadOrStore_def Let_def)
qed

theorem masked_server_killed_by_datagram_witness:
  "Listener_step ex_mask_lib (\<lambda>a d. True) (Inr ([9], [0])) (NewUDPServer True [5]) = Panic"
  by (rule masked_server_killed_by_datagram [OF ex_mask_lib_laws]) (simp_all add: NewUDPServer_def)

text \<open>
  Closing a connection removes the table entry of its address also when that entry already
  belongs to a newer connection.
\<close>

lemma stale_close_untracks:
  assumes "srv_conns s i = Some c" and "srv_tracker s (ci_remoteAddr c) = Some j" and "i \<noteq> j"
  shows "srv_tracker (connImpl_Close i s) (ci_remoteAddr c) = None"
  using assms by (simp add: connImpl_Close_def Delete_def)

text \<open>A read into a buffer that is too small returns more than the size of the buffer.\<close>

lemma read_reports_datagram_length:
  assumes "srv_conns s i = Some c" and "ch_buf (ci_readchan c) = d # ds" and "blen < length d"
  shows "\<exists>s'. connImpl_Read i blen s = Some (Some (take blen d, length d), s')"
  using assms by (simp add: connImpl_Read_def chan_recv_def)

end
