(* ===== verification/AntiReplay.thy ===== *)
theory AntiReplay
  imports Prelude
begin

text \<open>
  The replay window of \<^verbatim>\<open>transport/antiReplayWindow/noReplay.go\<close>: two cuckoo filters, one of which is
  emptied at most every \<open>AntiReplayTime\<close> seconds. The filter package is outside the repository;
  the locale \<open>cuckoo\<close> states what the window relies on, in terms of a membership test without
  false negatives, and the main property is proved once in it.
\<close>

section \<open>The filter\<close>

text \<open>
  \<open>InsertUnique\<close> refuses a sum that is there; otherwise it inserts it, or fails for lack of room,
  in which case an entry may have been evicted.
\<close>

record 'f cuckoo_lib =
  NewFilter :: "nat \<Rightarrow> 'f"
  Reset :: "'f \<Rightarrow> 'f"
  Lookup :: "'f \<Rightarrow> bytes \<Rightarrow> bool"
  InsertUnique :: "'f \<Rightarrow> bytes \<Rightarrow> bool \<times> 'f"

section \<open>The window\<close>

record 'f AntiReplayWindow =
  poolA :: "'f option"
  poolB :: "'f option"
  lastSwapTime :: int
  PoolSwap :: bool
  AntiReplayTime :: int

definition NewAntiReplayWindow :: "int \<Rightarrow> 'f AntiReplayWindow" where
  "NewAntiReplayWindow t =
     \<lparr>poolA = None, poolB = None, lastSwapTime = 0, PoolSwap = False, AntiReplayTime = t\<rparr>"

text \<open>The first use: \<open>t0\<close> is the clock at that moment. The pools are nil before.\<close>

definition window_init :: "'f cuckoo_lib \<Rightarrow> int \<Rightarrow> 'f AntiReplayWindow \<Rightarrow> 'f AntiReplayWindow" where
  "window_init C t0 aw =
     (if lastSwapTime aw = 0
      then aw\<lparr>lastSwapTime := t0, poolA := Some (NewFilter C 10000), poolB := Some (NewFilter C 10000)\<rparr>
      else aw)"

definition window_rotate :: "'f cuckoo_lib \<Rightarrow> int \<Rightarrow> 'f AntiReplayWindow \<Rightarrow> 'f AntiReplayWindow" where
  "window_rotate C tnow aw =
     (if tnow - lastSwapTime aw \<ge> AntiReplayTime aw
      then (if PoolSwap aw
            then aw\<lparr>PoolSwap := False, poolA := map_option (Reset C) (poolA aw)\<rparr>
            else aw\<lparr>PoolSwap := True, poolB := map_option (Reset C) (poolB aw)\<rparr>)
             \<lparr>lastSwapTime := tnow\<rparr>
      else aw)"

text \<open>
  \<open>a.InsertUnique(sum) && b.InsertUnique(sum)\<close>: the second pool is left alone when the first
  refuses. A nil pool would be a nil pointer dereference.
\<close>

definition window_insert ::
  "'f cuckoo_lib \<Rightarrow> bytes \<Rightarrow> 'f AntiReplayWindow \<Rightarrow> (unit, bool \<times> 'f AntiReplayWindow) outcome" where
  "window_insert C digest aw =
     (case (poolA aw, poolB aw) of
        (Some a, Some b) \<Rightarrow>
          (let (okA, a') = InsertUnique C a digest
           in if okA
              then (let (okB, b') = InsertUnique C b digest
                    in Ok (okB, aw\<lparr>poolA := Some a', poolB := Some b'\<rparr>))
              else Ok (False, aw\<lparr>poolA := Some a'\<rparr>))
      | _ \<Rightarrow> Panic)"

definition Check ::
  "'f cuckoo_lib \<Rightarrow> int \<Rightarrow> int \<Rightarrow> bytes \<Rightarrow> 'f AntiReplayWindow \<Rightarrow> (unit, bool \<times> 'f AntiReplayWindow) outcome" where
  "Check C t0 tnow digest aw = window_insert C digest (window_rotate C tnow (window_init C t0 aw))"

text \<open>Whether a pool had room for what a check inserted into it.\<close>

definition has_room :: "'f cuckoo_lib \<Rightarrow> bytes \<Rightarrow> 'f option \<Rightarrow> bool" where
  "has_room C digest f = (case f of None \<Rightarrow> True | Some f \<Rightarrow> Lookup C f digest \<or> fst (InsertUnique C f digest))"

definition check_has_room :: "'f cuckoo_lib \<Rightarrow> int \<Rightarrow> int \<Rightarrow> bytes \<Rightarrow> 'f AntiReplayWindow \<Rightarrow> bool" where
  "check_has_room C t0 tnow digest aw =
     (let aw' = window_rotate C tnow (window_init C t0 aw)
      in has_room C digest (poolA aw') \<and> has_room C digest (poolB aw'))"

text \<open>A sequence of checks at given times, each with room in the pools.\<close>

inductive checks :: "'f cuckoo_lib \<Rightarrow> int \<Rightarrow> 'f AntiReplayWindow \<Rightarrow> int \<Rightarrow> 'f AntiReplayWindow \<Rightarrow> bool"
  for C :: "'f cuckoo_lib" where
  checks_refl: "checks C t aw t aw"
| checks_step:
    "checks C t aw t' aw' \<Longrightarrow> t' \<le> now \<Longrightarrow> check_has_room C now now digest aw' \<Longrightarrow>
     Check C now now digest aw' = Ok (ok, aw'') \<Longrightarrow> checks C t aw now aw''"

inductive_cases checks_stepE: "checks C t aw now aw'"

section \<open>A window over a filter without false negatives\<close>

locale cuckoo =
  fixes C :: "'f cuckoo_lib"
  assumes new_empty: "\<not> Lookup C (NewFilter C n) s"
    and known_refused: "Lookup C f s \<Longrightarrow> InsertUnique C f s = (False, f)"
    and inserted: "InsertUnique C f s = (True, f') \<Longrightarrow> Lookup C f' s"
    and kept: "InsertUnique C f s = (True, f') \<Longrightarrow> Lookup C f s' \<Longrightarrow> Lookup C f' s'"
begin

definition knows :: "'f option \<Rightarrow> bytes \<Rightarrow> bool" where
  "knows f s = (case f of None \<Rightarrow> False | Some f \<Rightarrow> Lookup C f s)"

lemma knows_Some [simp]: "knows (Some f) s = Lookup C f s"
  by (simp add: knows_def)

lemma insert_keeps:
  assumes "has_room C digest (Some f)" and "InsertUnique C f digest = (ok, f')" and "Lookup C f s"
  shows "Lookup C f' s"
  using assms known_refused [of f digest] kept [of f digest f' s]
  by (cases "Lookup C f digest") (auto simp: has_room_def)

text \<open>A sum one of the pools knows is refused; with room, what a pool knows it goes on to know.\<close>

lemma insert_known:
  assumes "window_insert C s aw = Ok (ok, aw')" and "knows (poolA aw) s \<or> knows (poolB aw) s"
  shows "\<not> ok"
  using assms known_refused
  by (auto simp: window_insert_def Let_def split: option.splits prod.splits if_splits)

lemma insert_fresh:
  assumes "window_insert C s aw = Ok (True, aw')"
  shows "knows (poolA aw') s \<and> knows (poolB aw') s"
  using assms inserted
  by (auto simp: window_insert_def Let_def split: option.splits prod.splits if_splits)

lemma insert_frame:
  assumes "window_insert C digest aw = Ok (ok, aw')"
  shows "lastSwapTime aw' = lastSwapTime aw \<and> PoolSwap aw' = PoolSwap aw \<and>
     AntiReplayTime aw' = AntiReplayTime aw"
  using assms by (auto simp: window_insert_def Let_def split: option.splits prod.splits if_splits)

lemma insert_pools:
  assumes "window_insert C digest aw = Ok (ok, aw')"
    and "has_room C digest (poolA aw)" and "has_room C digest (poolB aw)"
  shows "(knows (poolA aw) s \<longrightarrow> knows (poolA aw') s) \<and> (knows (poolB aw) s \<longrightarrow> knows (poolB aw') s)"
  using assms insert_keeps
  by (auto simp: window_insert_def Let_def split: option.splits prod.splits if_splits)

text \<open>
  The window protects \<open>s\<close> accepted at \<open>t\<close>: either nothing was rotated out since, or only the
  rotation of one pool happened, at \<open>t\<close> or later, and the pool that is left is not the one the
  coming rotation empties.
\<close>

definition protects :: "int \<Rightarrow> bytes \<Rightarrow> 'f AntiReplayWindow \<Rightarrow> bool" where
  "protects t s aw \<longleftrightarrow> lastSwapTime aw \<noteq> 0 \<and>
     (knows (poolA aw) s \<and> knows (poolB aw) s \<or>
      t \<le> lastSwapTime aw \<and> (if PoolSwap aw then knows (poolA aw) s else knows (poolB aw) s))"

lemma rotate_protects:
  assumes "protects t s aw" and "t \<le> now" and "0 < t" and "now < t + AntiReplayTime aw"
  shows "protects t s (window_rotate C now aw) \<and>
     (knows (poolA (window_rotate C now aw)) s \<or> knows (poolB (window_rotate C now aw)) s)"
  using assms by (auto simp: protects_def window_rotate_def)

lemma init_protected [simp]: "protects t s aw \<Longrightarrow> window_init C t0 aw = aw"
  by (simp add: protects_def window_init_def)

lemma check_protects:
  assumes "protects t s aw" and "t \<le> now" and "0 < t" and "now < t + AntiReplayTime aw"
    and "check_has_room C now now digest aw" and "Check C now now digest aw = Ok (ok, aw')"
  shows "protects t s aw' \<and> AntiReplayTime aw' = AntiReplayTime aw"
proof -
  let ?r = "window_rotate C now aw"
  have r: "protects t s ?r"
    using rotate_protects [OF assms(1-4)] by simp
  have ins: "window_insert C digest ?r = Ok (ok, aw')"
    using assms(1,6) by (simp add: Check_def)
  have room: "has_room C digest (poolA ?r)" "has_room C digest (poolB ?r)"
    using assms(1,5) by (simp_all add: check_has_room_def Let_def)
  have "AntiReplayTime ?r = AntiReplayTime aw"
    by (simp add: window_rotate_def)
  with r insert_frame [OF ins] insert_pools [OF ins room, of s] show ?thesis
    by (auto simp: protects_def split: if_splits)
qed

lemma checks_time: "checks C t aw now aw' \<Longrightarrow> t \<le> now"
  by (induction rule: checks.induct) auto

lemma checks_protect:
  assumes "checks C t aw now aw'" and "protects t s aw" and "0 < t" and "now < t + AntiReplayTime aw"
  shows "protects t s aw' \<and> AntiReplayTime aw' = AntiReplayTime aw"
  using assms
proof (induction rule: checks.induct)
  case (checks_step t aw t' aw' now digest ok aw'')
  then have ih: "protects t s aw'" "AntiReplayTime aw' = AntiReplayTime aw"
    by simp_all
  have "t \<le> now"
    using checks_time [OF checks_step.hyps(1)] checks_step.hyps(2) by simp
  from check_protects [OF ih(1) this] checks_step ih show ?case by auto
qed simp

lemma accepted_protects:
  assumes "Check C t0 t s aw = Ok (True, aw')" and "0 < t0" and "t0 \<le> t"
  shows "protects t s aw'"
  using assms insert_fresh [of s "window_rotate C t (window_init C t0 aw)" aw']
    insert_frame [of s "window_rotate C t (window_init C t0 aw)" True aw']
  by (auto simp: Check_def protects_def window_init_def window_rotate_def split: if_splits)

lemma replay_refused:
  assumes "Check C t0 t s aw = Ok (True, aw1)" and "0 < t0" and "t0 \<le> t"
    and "checks C t aw1 t' aw2" and "t' \<le> now" and "now < t + AntiReplayTime aw1"
    and "Check C now now s aw2 = Ok (ok, aw3)"
  shows "\<not> ok"
proof -
  have "0 < t" using assms by simp
  have p: "protects t s aw2" "AntiReplayTime aw2 = AntiReplayTime aw1"
    using checks_protect [OF assms(4) accepted_protects [OF assms(1-3)] \<open>0 < t\<close>] assms(5,6) by auto
  have "t \<le> now"
    using checks_time [OF assms(4)] assms(5) by simp
  from rotate_protects [OF p(1) this \<open>0 < t\<close>] p assms(6)
  have "knows (poolA (window_rotate C now aw2)) s \<or> knows (poolB (window_rotate C now aw2)) s"
    by simp
  then show ?thesis
    using insert_known [of s "window_rotate C now aw2"] assms(7) p(1) by (simp add: Check_def)
qed

end

section \<open>The window refuses replays\<close>

text \<open>An exact filter of bounded size, the instance of the examples.\<close>

definition list_filter :: "(nat \<times> bytes list) cuckoo_lib" where
  "list_filter =
     \<lparr>NewFilter = (\<lambda>n. (n, [])), Reset = (\<lambda>f. (fst f, [])), Lookup = (\<lambda>f s. s \<in> set (snd f)),
      InsertUnique = (\<lambda>f s. if s \<in> set (snd f) then (False, f)
         else if length (snd f) < fst f then (True, (fst f, s # snd f)) else (False, f))\<rparr>"

interpretation lf: cuckoo list_filter
  by unfold_locales (auto simp: list_filter_def split: if_splits)

text \<open>C21.
  The replay window: a sum accepted at time \<open>t\<close> is refused by every later check before
  \<open>t + AntiReplayTime\<close>, whatever was checked between, as long as the pools had room. One
  rotation of the pools may fall into that time, a second cannot.
\<close>

theorem replay_refused_within_window:
  assumes "cuckoo C"
    and "Check C t0 t s aw = Ok (True, aw1)" and "0 < t0" and "t0 \<le> t"
    and "checks C t aw1 t' aw2" and "t' \<le> now" and "now < t + AntiReplayTime aw1"
    and "Check C now now s aw2 = Ok (ok, aw3)"
  shows "\<not> ok"
  by (rule cuckoo.replay_refused [OF assms])

definition ex_window :: "(nat \<times> bytes list) AntiReplayWindow" where
  "ex_window = \<lparr>poolA = Some (10000, [[1]]), poolB = Some (10000, [[1]]), lastSwapTime = 5,
     PoolSwap = False, AntiReplayTime = 120\<rparr>"

definition ex_window' :: "(nat \<times> bytes list) AntiReplayWindow" where
  "ex_window' = \<lparr>poolA = Some (10000, [[2], [1]]), poolB = Some (10000, [[2]]), lastSwapTime = 125,
     PoolSwap = True, AntiReplayTime = 120\<rparr>"

lemmas window_defs = Check_def window_init_def window_rotate_def window_insert_def list_filter_def
  check_has_room_def has_room_def

text \<open>
  The sum \<open>[1]\<close> is accepted at time 6, the sum \<open>[2]\<close> rotates the pools at time 125, and \<open>[1]\<close> is
  refused at time 125.
\<close>

theorem replay_refused_within_window_witness:
  "Check list_filter 5 6 [1] (NewAntiReplayWindow 120) = Ok (True, ex_window) \<and>
   Check list_filter 125 125 [2] ex_window = Ok (True, ex_window') \<and>
   Check list_filter 125 125 [1] ex_window' = Ok (False, ex_window')"
proof -
  have first: "Check list_filter 5 6 [1] (NewAntiReplayWindow 120) = Ok (True, ex_window)"
    and second: "Check list_filter 125 125 [2] ex_window = Ok (True, ex_window')"
    and third: "\<exists>ok. Check list_filter 125 125 [1] ex_window' = Ok (ok, ex_window')"
    by (auto simp: window_defs NewAntiReplayWindow_def ex_window_def ex_window'_def)
  have "checks list_filter 6 ex_window 125 ex_window'"
    by (rule checks_step [OF checks_refl _ _ second])
       (simp_all add: window_defs ex_window_def)
  moreover obtain ok where "Check list_filter 125 125 [1] ex_window' = Ok (ok, ex_window')"
    using third by blast
  moreover from this have "\<not> ok"
    using replay_refused_within_window [OF lf.cuckoo_axioms first _ _ calculation(1), of 125 ok ex_window']
    by (simp add: ex_window_def)
  ultimately show ?thesis
    using first second by simp
qed

end
