(* ===== verification/Armor.thy ===== *)
theory Armor
  imports Wire
begin

text \<open>
  The two sealed containers of the program: \<^verbatim>\<open>transport/udp/packetarmor\<close>, which turns a packet into an
  encrypted datagram of a chosen length, and \<^verbatim>\<open>transport/http/headerHolder\<close>, which turns the
  connection header into a base64 token. The AES-SIV cipher and the cSHAKE128 function are
  packages outside the repository and parameters of the model; \<open>aead_laws\<close> states what their
  documentation promises. The base64 codec of the standard library is written out.
\<close>

section \<open>The cipher\<close>

record aead_lib =
  shake_out :: "bytes \<Rightarrow> bytes \<Rightarrow> nat \<Rightarrow> bytes"
  siv_NewCMAC :: "bytes \<Rightarrow> bool"
  siv_Overhead :: nat
  siv_NonceSize :: nat
  siv_Seal :: "bytes \<Rightarrow> bytes \<Rightarrow> bytes \<Rightarrow> bytes"
  siv_Open :: "bytes \<Rightarrow> bytes \<Rightarrow> bytes \<Rightarrow> bytes option"

text \<open>
  A key of 64 bytes is valid, tag and nonce have 16 bytes, sealing adds the tag, and opening with
  the key and nonce of the sealing returns the plain text. A missing nonce is \<open>[]\<close>.
\<close>

definition aead_laws :: "aead_lib \<Rightarrow> bool" where
  "aead_laws A \<longleftrightarrow>
     (\<forall>c s n. length (shake_out A c s n) = n) \<and>
     (\<forall>k. length k = 64 \<longrightarrow> siv_NewCMAC A k) \<and>
     siv_Overhead A = 16 \<and> siv_NonceSize A = 16 \<and>
     (\<forall>k n p. length k = 64 \<longrightarrow> n = [] \<or> length n = 16 \<longrightarrow>
        length (siv_Seal A k n p) = length p + 16 \<and> siv_Open A k n (siv_Seal A k n p) = Some p)"

text \<open>Go string literals as bytes.\<close>

definition str_bytes :: "string \<Rightarrow> bytes" where
  "str_bytes s = map (\<lambda>c. of_nat (of_char c)) s"

section \<open>The packet armor\<close>

record PacketArmor =
  pa_password :: bytes
  pa_salt :: bytes
  pa_isClient :: bool

definition NewPacketArmor :: "bytes \<Rightarrow> bytes \<Rightarrow> bool \<Rightarrow> PacketArmor" where
  "NewPacketArmor password salt isClient =
     \<lparr>pa_password = password, pa_salt = salt, pa_isClient = isClient\<rparr>"

datatype armor_error = KeyError | StrucError | RandError | OpenError | errLengthTooShort

text \<open>The key material of one direction; \<open>NewCMAC\<close> decides whether it is a key.\<close>

definition armor_key :: "aead_lib \<Rightarrow> PacketArmor \<Rightarrow> bool \<Rightarrow> bytes" where
  "armor_key A a isUp =
     shake_out A (pa_salt a)
       (pa_password a @ (if isUp = pa_isClient a then str_bytes ''U'' else str_bytes ''D'')) 64"

definition getKey :: "aead_lib \<Rightarrow> PacketArmor \<Rightarrow> bool \<Rightarrow> (armor_error, bytes) outcome" where
  "getKey A a isUp =
     (let keyin = armor_key A a isUp in if siv_NewCMAC A keyin then Ok keyin else Err KeyError)"

record armoredPacket =
  ap_Data :: bytes
  ap_Padding :: bytes

definition armoredPacket_layout :: layout where
  "armoredPacket_layout = [F_sized, F_sized]"

definition armoredPacket_vals :: "armoredPacket \<Rightarrow> fval list" where
  "armoredPacket_vals p = [V_bytes (ap_Data p), V_bytes (ap_Padding p)]"

definition armoredPacket_of :: "fval list \<Rightarrow> armoredPacket" where
  "armoredPacket_of vs = \<lparr>ap_Data = get_bytes (vs ! 0), ap_Padding = get_bytes (vs ! 1)\<rparr>"

text \<open>
  \<open>Pack\<close>: \<open>nonce\<close> is what the system random source delivers, \<open>None\<close> for its error. A packet that
  does not fit is answered with \<open>nil, err\<close>, where \<open>err\<close> is the nil of the key: no bytes and no
  error. The padding is cut from an array of 1600 bytes.
\<close>

definition Pack ::
  "struc_lib \<Rightarrow> aead_lib \<Rightarrow> bytes option \<Rightarrow> PacketArmor \<Rightarrow> bytes \<Rightarrow> int \<Rightarrow> (armor_error, bytes) outcome" where
  "Pack S A nonce a input len =
     bind_outcome (getKey A a True) (\<lambda>key.
       let padding = len - int (siv_Overhead A) - int (siv_NonceSize A) - int (length input) - 4 in
       if padding < 0 then Ok []
       else if 1600 < padding then Panic
       else
         (case struc_Pack S armoredPacket_layout
                 (armoredPacket_vals \<lparr>ap_Data = input, ap_Padding = replicate (nat padding) 0\<rparr>) of
            None \<Rightarrow> Err StrucError
          | Some outdata \<Rightarrow>
              (case nonce of
                 None \<Rightarrow> Err RandError
               | Some n \<Rightarrow> Ok (n @ siv_Seal A key n outdata))))"

definition Unpack :: "struc_lib \<Rightarrow> aead_lib \<Rightarrow> PacketArmor \<Rightarrow> bytes \<Rightarrow> (armor_error, bytes) outcome" where
  "Unpack S A a encryptedInput =
     bind_outcome (getKey A a False) (\<lambda>key.
       if length encryptedInput \<le> 17 then Err errLengthTooShort
       else
         (case siv_Open A key (take 16 encryptedInput) (drop 16 encryptedInput) of
            None \<Rightarrow> Err OpenError
          | Some decryptedData \<Rightarrow>
              (let (ok, vs, _) = struc_Unpack S armoredPacket_layout decryptedData
               in if ok then Ok (ap_Data (armoredPacket_of vs)) else Err StrucError)))"

section \<open>base64, URL alphabet\<close>

text \<open>The alphabet \<open>A-Za-z0-9-_\<close>, by position.\<close>

definition b64_char :: "nat \<Rightarrow> byte" where
  "b64_char d = of_nat
     (if d < 26 then 65 + d else if d < 52 then 71 + d else if d < 62 then d - 4
      else if d = 62 then 45 else 95)"

definition b64_pad :: byte where
  "b64_pad = 61"

text \<open>The position of a character in the alphabet.\<close>

definition b64_digit :: "byte \<Rightarrow> nat option" where
  "b64_digit c =
     (let n = unat c
      in if 65 \<le> n \<and> n \<le> 90 then Some (n - 65) else if 97 \<le> n \<and> n \<le> 122 then Some (n - 71)
         else if 48 \<le> n \<and> n \<le> 57 then Some (n + 4) else if n = 45 then Some 62
         else if n = 95 then Some 63 else None)"

definition b64_quad :: "nat \<Rightarrow> bytes" where
  "b64_quad v = [b64_char (v div 262144), b64_char (v div 4096 mod 64), b64_char (v div 64 mod 64),
     b64_char (v mod 64)]"

fun b64_encode :: "bytes \<Rightarrow> bytes" where
  "b64_encode [] = []"
| "b64_encode [a] = take 2 (b64_quad (unat a * 65536)) @ [b64_pad, b64_pad]"
| "b64_encode [a, b] = take 3 (b64_quad (unat a * 65536 + unat b * 256)) @ [b64_pad]"
| "b64_encode (a # b # c # rest) =
     b64_quad (unat a * 65536 + unat b * 256 + unat c) @ b64_encode rest"

definition byte_at :: "nat \<Rightarrow> nat \<Rightarrow> byte" where
  "byte_at v k = of_nat (v div k mod 256)"

text \<open>
  Decoding in groups of four. Line ends are skipped, nothing may follow the padding, and an
  incomplete group is an error (\<open>None\<close>).
\<close>

fun b64_groups :: "bytes \<Rightarrow> bytes option" where
  "b64_groups [] = Some []"
| "b64_groups (a # b # c # d # rest) =
     (case (b64_digit a, b64_digit b) of
        (Some x, Some y) \<Rightarrow>
          (if c = b64_pad then
             (if d = b64_pad \<and> rest = []
              then Some [byte_at (x * 262144 + y * 4096) 65536] else None)
           else
             (case b64_digit c of
                None \<Rightarrow> None
              | Some z \<Rightarrow>
                  (if d = b64_pad then
                     (if rest = [] then
                        let v = x * 262144 + y * 4096 + z * 64
                        in Some [byte_at v 65536, byte_at v 256] else None)
                   else
                     (case b64_digit d of
                        None \<Rightarrow> None
                      | Some w \<Rightarrow>
                          let v = x * 262144 + y * 4096 + z * 64 + w
                          in map_option (\<lambda>r. byte_at v 65536 # byte_at v 256 # byte_at v 1 # r)
                               (b64_groups rest)))))
      | _ \<Rightarrow> None)"
| "b64_groups _ = None"

definition b64_decode :: "bytes \<Rightarrow> bytes option" where
  "b64_decode s = b64_groups (filter (\<lambda>c. c \<noteq> 10 \<and> c \<noteq> 13) s)"

section \<open>The header token\<close>

record HttpHeaderHolderProcessor =
  hp_password :: bytes
  hp_salt :: bytes

definition NewHttpHeaderHolderProcessor :: "bytes \<Rightarrow> HttpHeaderHolderProcessor" where
  "NewHttpHeaderHolderProcessor password =
     \<lparr>hp_password = password, hp_salt = str_bytes ''HTTPHeaderSecret''\<rparr>"

definition NewHttpHeaderHolderProcessor2 :: "bytes \<Rightarrow> bytes \<Rightarrow> HttpHeaderHolderProcessor" where
  "NewHttpHeaderHolderProcessor2 password salt = \<lparr>hp_password = password, hp_salt = salt\<rparr>"

text \<open>A key the cipher refuses is only printed; the calls on the nil cipher then panic.\<close>

definition prepare :: "aead_lib \<Rightarrow> HttpHeaderHolderProcessor \<Rightarrow> bytes option" where
  "prepare A pc =
     (let keyin = shake_out A (hp_salt pc) (hp_password pc) 64
      in if siv_NewCMAC A keyin then Some keyin else None)"

definition Open ::
  "struc_lib \<Rightarrow> aead_lib \<Rightarrow> HttpHeaderHolderProcessor \<Rightarrow> bytes \<Rightarrow> (armor_error, HttpHeaderHolder option) outcome" where
  "Open S A pc input =
     (case b64_decode input of
        None \<Rightarrow> Ok None
      | Some cont \<Rightarrow>
          (case prepare A pc of
             None \<Rightarrow> Panic
           | Some key \<Rightarrow>
               (case siv_Open A key [] cont of
                  None \<Rightarrow> Ok None
                | Some opened \<Rightarrow>
                    (let (ok, vs, _) = struc_Unpack S HttpHeaderHolder_layout opened
                     in Ok (if ok then Some (HttpHeaderHolder_of vs) else None)))))"

definition Seal ::
  "struc_lib \<Rightarrow> aead_lib \<Rightarrow> HttpHeaderHolderProcessor \<Rightarrow> HttpHeaderHolder \<Rightarrow> (armor_error, bytes) outcome" where
  "Seal S A pc src =
     (case struc_Pack S HttpHeaderHolder_layout (HttpHeaderHolder_vals src) of
        None \<Rightarrow> Ok []
      | Some buf \<Rightarrow>
          (case prepare A pc of
             None \<Rightarrow> Panic
           | Some key \<Rightarrow> Ok (b64_encode (siv_Seal A key [] buf))))"

section \<open>The packet armor is a lossless channel of exact length\<close>

text \<open>What one side packs with the client flag the peer unpacks without it, and the reverse.\<close>

lemma armor_key_peer:
  "armor_key A (NewPacketArmor pw salt c) True = armor_key A (NewPacketArmor pw salt (\<not> c)) False"
  by (simp add: armor_key_def NewPacketArmor_def)

lemma length_armor_key [simp]: "aead_laws A \<Longrightarrow> length (armor_key A a up) = 64"
  by (simp add: armor_key_def aead_laws_def)

lemma getKey_ok [simp]: "aead_laws A \<Longrightarrow> getKey A a up = Ok (armor_key A a up)"
  using length_armor_key [of A a up] by (simp add: getKey_def Let_def aead_laws_def)

lemma siv_laws:
  assumes "aead_laws A" and "length k = 64" and "n = [] \<or> length n = 16"
  shows "length (siv_Seal A k n p) = length p + 16" "siv_Open A k n (siv_Seal A k n p) = Some p"
  using assms unfolding aead_laws_def by blast+

lemma siv_sizes [simp]: "aead_laws A \<Longrightarrow> siv_Overhead A = 16" "aead_laws A \<Longrightarrow> siv_NonceSize A = 16"
  by (simp_all add: aead_laws_def)

lemma armoredPacket_codec [simp]:
  "vals_ok armoredPacket_layout (armoredPacket_vals p) \<longleftrightarrow>
     length (ap_Data p) < 65536 \<and> length (ap_Padding p) < 65536"
  "packed_size armoredPacket_layout (armoredPacket_vals p) = 4 + length (ap_Data p) + length (ap_Padding p)"
  "armoredPacket_of (armoredPacket_vals p) = p"
  by (simp_all add: armoredPacket_layout_def armoredPacket_vals_def armoredPacket_of_def)

text \<open>A cipher for the witnesses: the nonce and the key length are checked, nothing is hidden.\<close>

definition ex_aead :: aead_lib where
  "ex_aead =
     \<lparr>shake_out = (\<lambda>c s n. replicate n (of_nat (length s))),
      siv_NewCMAC = (\<lambda>k. length k = 64), siv_Overhead = 16, siv_NonceSize = 16,
      siv_Seal = (\<lambda>k n p. take 16 k @ p),
      siv_Open = (\<lambda>k n c. if take 16 c = take 16 k then Some (drop 16 c) else None)\<rparr>"

lemma ex_aead_laws: "aead_laws ex_aead"
  by (auto simp: aead_laws_def ex_aead_def)

lemma Pack_Unpack:
  assumes "struc_laws S" and "aead_laws A" and "length n = 16"
    and "36 + int (length input) \<le> len" and "len \<le> 1636 + int (length input)"
    and "length input < 65536"
  shows "\<exists>out. Pack S A (Some n) (NewPacketArmor pw salt c) input len = Ok out \<and> int (length out) = len \<and>
     Unpack S A (NewPacketArmor pw salt (\<not> c)) out = Ok input"
proof -
  let ?key = "armor_key A (NewPacketArmor pw salt c) True"
  let ?pad = "len - 36 - int (length input)"
  let ?pkt = "\<lparr>ap_Data = input, ap_Padding = replicate (nat ?pad) 0\<rparr>"
  let ?plain = "packed S armoredPacket_layout (armoredPacket_vals ?pkt)"
  let ?out = "n @ siv_Seal A ?key n ?plain"
  have ok: "vals_ok armoredPacket_layout (armoredPacket_vals ?pkt)"
    using assms(4-6) by simp
  note seal = siv_laws [OF assms(2) length_armor_key [OF assms(2)] disjI2 [OF assms(3)]]
  have "Pack S A (Some n) (NewPacketArmor pw salt c) input len = Ok ?out"
    using assms ok by (simp add: Pack_def Pack_packed algebra_simps)
  moreover have "int (length ?out) = len"
    using assms ok by (simp add: seal)
  moreover have "Unpack S A (NewPacketArmor pw salt (\<not> c)) ?out = Ok input"
    using assms ok seal by (simp add: Unpack_def armor_key_peer)
  ultimately show ?thesis by blast
qed

text \<open>
  A packet armored to a length that leaves room for it (36 bytes of overhead, at most 1600 bytes
  of padding) becomes a datagram of exactly that length, and the peer's \<open>Unpack\<close> returns the
  packet: the direction letters of the two sides agree on the key.
\<close>

theorem armor_round_trip:
  assumes "struc_laws S" and "aead_laws A" and "length n = 16"
    and "36 + int (length input) \<le> len" and "len \<le> 1636 + int (length input)"
    and "length input < 65536"
  shows "\<exists>out. Pack S A (Some n) (NewPacketArmor pw salt c) input len = Ok out \<and> int (length out) = len \<and>
     Unpack S A (NewPacketArmor pw salt (\<not> c)) out = Ok input"
  by (rule Pack_Unpack [OF assms])

theorem armor_round_trip_witness:
  "\<exists>out. Pack struc_be ex_aead (Some (replicate 16 7)) (NewPacketArmor [1] [2] True) [1, 2, 3] 60 = Ok out \<and>
     int (length out) = 60 \<and> Unpack struc_be ex_aead (NewPacketArmor [1] [2] False) out = Ok [1, 2, 3]"
  using armor_round_trip [OF struc_be_laws ex_aead_laws, of "replicate 16 7" "[1, 2, 3]" 60 "[1]" "[2]" True]
  by simp

text \<open>
  A packet that does not fit the requested length is not reported: \<open>Pack\<close> returns no bytes and no
  error, although the package has \<open>errLengthTooShort\<close> for it, and the datagram of no bytes that is
  sent then is the one the peer refuses with \<open>errLengthTooShort\<close>.
\<close>

theorem armor_too_long_is_silent:
  assumes "aead_laws A" and "len < 36 + int (length input)"
  shows "Pack S A nonce (NewPacketArmor pw salt c) input len = Ok [] \<and>
     Unpack S A (NewPacketArmor pw salt (\<not> c)) [] = Err errLengthTooShort"
  using assms by (simp add: Pack_def Unpack_def)

theorem armor_too_long_is_silent_witness:
  "Pack struc_be ex_aead (Some (replicate 16 7)) (NewPacketArmor [1] [2] True) [1, 2, 3] 38 = Ok []"
  using armor_too_long_is_silent [OF ex_aead_laws, of 38 "[1, 2, 3]"] by simp

section \<open>The header token\<close>

lemma unat_b64_char:
  "d < 64 \<Longrightarrow> unat (b64_char d) =
     (if d < 26 then 65 + d else if d < 52 then 71 + d else if d < 62 then d - 4
      else if d = 62 then 45 else 95)"
  by (simp add: b64_char_def unat_of_nat)

lemma b64_digit_char [simp]: "d < 64 \<Longrightarrow> b64_digit (b64_char d) = Some d"
  by (auto simp: b64_digit_def unat_b64_char Let_def)

lemma b64_char_plain [simp]:
  "d < 64 \<Longrightarrow> b64_char d \<noteq> b64_pad" "d < 64 \<Longrightarrow> b64_char d \<noteq> 10" "d < 64 \<Longrightarrow> b64_char d \<noteq> 13"
  using unat_b64_char [of d] by (auto simp: b64_pad_def split: if_splits)

lemma b64_quad_digits:
  fixes v :: nat
  shows "(v div 262144) * 262144 + (v div 4096 mod 64) * 4096 + (v div 64 mod 64) * 64 + v mod 64 = v"
proof -
  have d: "v div 4096 = v div 64 div 64" "v div 262144 = v div 64 div 64 div 64"
    by (simp_all add: div_mult2_eq [symmetric])
  have "v = 64 * (v div 64) + v mod 64"
    "v div 64 = 64 * (v div 64 div 64) + v div 64 mod 64"
    "v div 64 div 64 = 64 * (v div 64 div 64 div 64) + v div 64 div 64 mod 64"
    by (simp_all only: mult_div_mod_eq)
  then show ?thesis unfolding d by linarith
qed

lemma b64_quad_bounds: "v < 16777216 \<Longrightarrow> v div 262144 < (64 :: nat)"
  by (simp add: less_mult_imp_div_less)

lemma byte_at_pack:
  assumes "v = unat a * 65536 + unat b * 256 + unat c"
  shows "byte_at v 65536 = a" "byte_at v 256 = b" "byte_at v 1 = c" "v < 16777216"
proof -
  have bd: "unat a < 256" "unat b < 256" "unat c < 256"
    using unsigned_less [of a] unsigned_less [of b] unsigned_less [of c] by simp_all
  have v: "v = 65536 * unat a + (unat b * 256 + unat c)" "v = 256 * (unat a * 256 + unat b) + unat c"
    using assms by simp_all
  then have "v div 65536 = unat a" "v div 256 = unat a * 256 + unat b"
    using bd by (simp_all add: div_nat_eqI)
  moreover have "v mod 256 = unat c"
    unfolding v(2) mod_mult_self4 using bd by simp
  ultimately have "v div 65536 mod 256 = unat a" "v div 256 mod 256 = unat b" "v div 1 mod 256 = unat c"
    using bd by simp_all
  then show "byte_at v 65536 = a" "byte_at v 256 = b" "byte_at v 1 = c"
    by (simp_all add: byte_at_def)
  show "v < 16777216"
    using bd assms by linarith
qed

lemma b64_quad_groups:
  assumes "v < 16777216"
  shows "b64_groups (b64_quad v @ rest) =
     map_option (\<lambda>r. byte_at v 65536 # byte_at v 256 # byte_at v 1 # r) (b64_groups rest)"
  using b64_quad_bounds [OF assms] by (simp add: b64_quad_def b64_quad_digits)

lemma b64_quad_plain: "v < 16777216 \<Longrightarrow> x \<in> set (b64_quad v) \<Longrightarrow> x \<noteq> 10 \<and> x \<noteq> 13"
  using b64_quad_bounds [of v] by (auto simp: b64_quad_def)

lemma b64_encode_plain: "x \<in> set (b64_encode bs) \<Longrightarrow> x \<noteq> 10 \<and> x \<noteq> 13"
proof (induction bs rule: b64_encode.induct)
  case (2 a)
  then show ?case
    using b64_quad_plain [OF byte_at_pack(4) [of _ a 0 0]]
    by (auto simp: b64_pad_def dest: in_set_takeD)
next
  case (3 a b)
  then show ?case
    using b64_quad_plain [OF byte_at_pack(4) [of _ a b 0]]
    by (auto simp: b64_pad_def dest: in_set_takeD)
next
  case (4 a b c rest)
  then show ?case
    using b64_quad_plain [OF byte_at_pack(4) [of _ a b c]] by auto
qed simp

lemma b64_groups_encode: "b64_groups (b64_encode bs) = Some bs"
proof (induction bs rule: b64_encode.induct)
  case (2 a)
  let ?v = "unat a * 65536"
  have v: "byte_at ?v 65536 = a" "?v < 16777216"
    using byte_at_pack [of ?v a 0 0] by simp_all
  have "?v div 64 mod 64 = 0" "?v mod 64 = 0" by simp_all
  with b64_quad_digits [of ?v] have "(?v div 262144) * 262144 + (?v div 4096 mod 64) * 4096 = ?v"
    by linarith
  then show ?case
    using b64_quad_bounds [OF v(2)] v by (simp add: b64_quad_def)
next
  case (3 a b)
  let ?v = "unat a * 65536 + unat b * 256"
  have v: "byte_at ?v 65536 = a" "byte_at ?v 256 = b" "?v < 16777216"
    using byte_at_pack [of ?v a b 0] by simp_all
  have "?v mod 64 = 0" by simp
  with b64_quad_digits [of ?v]
  have "(?v div 262144) * 262144 + (?v div 4096 mod 64) * 4096 + (?v div 64 mod 64) * 64 = ?v"
    by linarith
  then show ?case
    using b64_quad_bounds [OF v(3)] v by (simp add: b64_quad_def Let_def)
next
  case (4 a b c rest)
  note v = byte_at_pack [OF refl, of a b c]
  show ?case
    using 4 v by (simp add: b64_quad_groups)
qed simp

lemma b64_decode_encode [simp]: "b64_decode (b64_encode bs) = Some bs"
proof -
  have "filter (\<lambda>c. c \<noteq> 10 \<and> c \<noteq> 13) (b64_encode bs) = b64_encode bs"
    using b64_encode_plain by (auto intro: filter_True)
  then show ?thesis by (simp add: b64_decode_def b64_groups_encode)
qed

lemma length_b64_encode: "length (b64_encode bs) = 4 * ((length bs + 2) div 3)"
proof (induction bs rule: b64_encode.induct)
  case (4 a b c rest)
  have "length (a # b # c # rest) + 2 = length rest + 2 + 3" by simp
  then have "(length (a # b # c # rest) + 2) div 3 = Suc ((length rest + 2) div 3)"
    by (simp only: div_add_self2)
  with 4 show ?case by (simp add: b64_quad_def)
qed (simp_all add: b64_quad_def)

lemma prepare_ok:
  assumes "aead_laws A"
  shows "\<exists>key. prepare A pc = Some key \<and> length key = 64"
proof -
  have "length (shake_out A (hp_salt pc) (hp_password pc) 64) = 64"
    using assms unfolding aead_laws_def by blast
  moreover from this have "siv_NewCMAC A (shake_out A (hp_salt pc) (hp_password pc) 64)"
    using assms unfolding aead_laws_def by blast
  ultimately show ?thesis by (simp add: prepare_def)
qed

lemma Seal_Open:
  assumes "struc_laws S" and "aead_laws A" and "length (hh_ConnID h) = 24" and "length (hh_Rand h) = 24"
  shows "\<exists>t. Seal S A pc h = Ok t \<and> length t = 124 \<and> Open S A pc t = Ok (Some h)"
proof -
  obtain key where key: "prepare A pc = Some key" "length key = 64"
    using prepare_ok [OF assms(2)] by blast
  let ?plain = "packed S HttpHeaderHolder_layout (HttpHeaderHolder_vals h)"
  have ok: "vals_ok HttpHeaderHolder_layout (HttpHeaderHolder_vals h)"
    using assms(3,4) by simp
  note seal = siv_laws [OF assms(2) key(2) disjI1 [OF refl], of ?plain]
  have "Seal S A pc h = Ok (b64_encode (siv_Seal A key [] ?plain))"
    using assms(1) ok key by (simp add: Seal_def Pack_packed)
  moreover have "length (b64_encode (siv_Seal A key [] ?plain)) = 124"
    using assms(1) ok by (simp add: length_b64_encode seal)
  moreover have "Open S A pc (b64_encode (siv_Seal A key [] ?plain)) = Ok (Some h)"
    using assms(1) ok key by (simp add: Open_def seal)
  ultimately show ?thesis by blast
qed

text \<open>
  Every connection header is sealed into a token of 124 characters, and the processor of the other
  side, with the same password and salt, opens the token to the same header.
\<close>

theorem header_token_round_trip:
  assumes "struc_laws S" and "aead_laws A" and "length (hh_ConnID h) = 24" and "length (hh_Rand h) = 24"
  shows "\<exists>t. Seal S A (NewHttpHeaderHolderProcessor2 pw salt) h = Ok t \<and> length t = 124 \<and>
     Open S A (NewHttpHeaderHolderProcessor2 pw salt) t = Ok (Some h)"
  by (rule Seal_Open [OF assms])

theorem header_token_round_trip_witness:
  "\<exists>t. Seal struc_be ex_aead (NewHttpHeaderHolderProcessor2 [1] [2])
         \<lparr>hh_Masker = 5, hh_ConnID = replicate 24 1, hh_Rand = replicate 24 2, hh_Time = 9, hh_Flags = 1,
          hh_ConnIter = - 3\<rparr> = Ok t \<and> length t = 124 \<and>
       Open struc_be ex_aead (NewHttpHeaderHolderProcessor2 [1] [2]) t = Ok (Some
         \<lparr>hh_Masker = 5, hh_ConnID = replicate 24 1, hh_Rand = replicate 24 2, hh_Time = 9, hh_Flags = 1,
          hh_ConnIter = - 3\<rparr>)"
  by (rule header_token_round_trip [OF struc_be_laws ex_aead_laws]) simp_all

end
