(* ===== verification/UdpUni.thy ===== *)
theory UdpUni
  imports Armor Maskers
begin

text \<open>
  The handshake that binds a datagram connection to a unified connection:
  \<^verbatim>\<open>transport/udp/udpuni/udpunic\<close> (client) and \<^verbatim>\<open>transport/udp/udpuni/udpunis\<close> (server). The client sends
  a sealed header token every quarter of a second until something comes back; the server opens the
  token, passes the identity upwards and echoes every further copy of the token.

  The connection below is a datagram connection of \<open>Maskers\<close>. The random bytes, the clock and the
  nonces of the armor are arguments. The goroutine that repeats the token and the loop that waits
  for the answer are separate definitions: one tick, and the loop.
\<close>

section \<open>Connection attributes\<close>

record ExtraOptionsUniConnAttribValue =
  ua_ID :: bytes
  ua_Rand :: bytes
  ua_Iter :: u32

section \<open>Client\<close>

record UdpUniClient =
  uuc_password :: bytes
  uuc_hh :: HttpHeaderHolderProcessor
  uuc_armor :: PacketArmor

definition NewUdpUniClient :: "bytes \<Rightarrow> UdpUniClient" where
  "NewUdpUniClient password =
     \<lparr>uuc_password = password,
      uuc_hh = NewHttpHeaderHolderProcessor2 password (str_bytes ''UdpUniSecret''),
      uuc_armor = NewPacketArmor password (str_bytes ''UdpUniPacketArmor'') True\<rparr>"

record udpUniClientProxy =
  up_initBuf :: "bytes option"
  up_token :: bytes
  up_conn :: dgram_conn
  up_armor :: PacketArmor
  up_shouldUseArmor :: bool
  up_recvCount :: nat

text \<open>The header: a random identity overlaid by the one of the unified connection.\<close>

definition uni_header ::
  "bytes \<Rightarrow> bytes \<Rightarrow> u64 \<Rightarrow> ExtraOptionsUniConnAttribValue option \<Rightarrow> HttpHeaderHolder" where
  "uni_header randid rnd now unival =
     \<lparr>hh_Masker = 0,
      hh_ConnID = go_copy (replicate 24 0)
        (case unival of None \<Rightarrow> randid | Some att \<Rightarrow> go_copy randid (ua_ID att)),
      hh_Rand = go_copy (replicate 24 0) rnd, hh_Time = now, hh_Flags = 0,
      hh_ConnIter = (case unival of None \<Rightarrow> 0 | Some att \<Rightarrow> ua_Iter att)\<rparr>"

text \<open>One tick of the sending goroutine.\<close>

definition UniHandShake_tick ::
  "struc_lib \<Rightarrow> aead_lib \<Rightarrow> bytes option \<Rightarrow> int \<Rightarrow> udpUniClientProxy \<Rightarrow> (armor_error, udpUniClientProxy) outcome" where
  "UniHandShake_tick S A nonce paddingTo p =
     (if paddingTo \<noteq> 0 then
        (case Pack S A nonce (up_armor p) (up_token p) paddingTo of
           Ok pack \<Rightarrow> Ok (p\<lparr>up_conn := snd (conn_Write pack (up_conn p))\<rparr>)
         | Err e \<Rightarrow> Ok (p\<lparr>up_conn := snd (conn_Write [] (up_conn p))\<rparr>)
         | Panic \<Rightarrow> Panic
         | Blocked \<Rightarrow> Blocked)
      else Ok (p\<lparr>up_conn := snd (conn_Write (up_token p) (up_conn p))\<rparr>))"

text \<open>
  The waiting loop, with the number of rounds left and the error of the last read. Every answer
  that can be read (with the armor: decrypted) ends it; a plain answer that is not the token is
  kept as the first data.
\<close>

fun UniHandShake_loop ::
  "struc_lib \<Rightarrow> aead_lib \<Rightarrow> int \<Rightarrow> nat \<Rightarrow> io_error option \<Rightarrow> udpUniClientProxy \<Rightarrow>
   (armor_error, io_error option \<times> udpUniClientProxy) outcome" where
  "UniHandShake_loop S A paddingTo 0 err p = Ok (err, p)"
| "UniHandShake_loop S A paddingTo (Suc i) err p =
     (case conn_Read 1600 (up_conn p) of
        (Inl e, c) \<Rightarrow> UniHandShake_loop S A paddingTo i (Some e) (p\<lparr>up_conn := c\<rparr>)
      | (Inr d, c) \<Rightarrow>
          (let p' = p\<lparr>up_conn := c\<rparr> in
           if paddingTo = 0 then
             Ok (None, if d \<noteq> up_token p then p'\<lparr>up_initBuf := Some d\<rparr> else p')
           else
             (case Unpack S A (up_armor p) d of
                Ok decrypted \<Rightarrow> Ok (None, p')
              | Err e \<Rightarrow> UniHandShake_loop S A paddingTo i None p'
              | Panic \<Rightarrow> Panic
              | Blocked \<Rightarrow> Blocked)))"

definition UniHandShake_start :: "bytes \<Rightarrow> int \<Rightarrow> udpUniClientProxy \<Rightarrow> udpUniClientProxy" where
  "UniHandShake_start token paddingTo p =
     (if paddingTo \<noteq> 0 then p\<lparr>up_token := token, up_shouldUseArmor := True\<rparr> else p\<lparr>up_token := token\<rparr>)"

definition UniHandShake ::
  "struc_lib \<Rightarrow> aead_lib \<Rightarrow> bytes \<Rightarrow> int \<Rightarrow> udpUniClientProxy \<Rightarrow>
   (armor_error, io_error option \<times> udpUniClientProxy) outcome" where
  "UniHandShake S A token paddingTo p =
     UniHandShake_loop S A paddingTo 300 None (UniHandShake_start token paddingTo p)"

text \<open>
  \<open>Connect\<close>: the connection below, or its error, is an argument; \<open>armorOpt\<close> is the armor option of
  the context (whether to use it, and the length to pad to).
\<close>

definition UdpUniClient_Connect ::
  "struc_lib \<Rightarrow> aead_lib \<Rightarrow> UdpUniClient \<Rightarrow> (io_error + dgram_conn) \<Rightarrow> bytes \<Rightarrow> bytes \<Rightarrow> u64 \<Rightarrow>
   ExtraOptionsUniConnAttribValue option \<Rightarrow> (bool \<times> int) option \<Rightarrow>
   (armor_error, io_error + udpUniClientProxy) outcome" where
  "UdpUniClient_Connect S A uuc underRes randid rnd now unival armorOpt =
     (case underRes of
        Inl e \<Rightarrow> Ok (Inl e)
      | Inr conn \<Rightarrow>
          bind_outcome (Seal S A (uuc_hh uuc) (uni_header randid rnd now unival)) (\<lambda>w.
            let paddingTo = (case armorOpt of Some (True, n) \<Rightarrow> n | _ \<Rightarrow> 0);
                uc = \<lparr>up_initBuf = None, up_token = [], up_conn = conn, up_armor = uuc_armor uuc,
                      up_shouldUseArmor = False, up_recvCount = 0\<rparr>
            in bind_outcome (UniHandShake S A w paddingTo uc) (\<lambda>(err, uc').
                 Ok (case err of Some e \<Rightarrow> Inl e | None \<Rightarrow> Inr uc'))))"

text \<open>
  \<open>Read\<close> into a buffer of \<open>blen\<close> bytes: the kept first data, then the datagrams of the connection;
  of the first 300 those that are copies of the handshake are skipped.
\<close>

function udpUniClientProxy_Read_loop ::
  "struc_lib \<Rightarrow> aead_lib \<Rightarrow> nat \<Rightarrow> udpUniClientProxy \<Rightarrow>
   (armor_error, (io_error + bytes) \<times> udpUniClientProxy) outcome" where
  "udpUniClientProxy_Read_loop S A blen p =
     (let (res, c) = conn_Read blen (up_conn p);
          data = (case res of Inl _ \<Rightarrow> [] | Inr d \<Rightarrow> d);
          p' = p\<lparr>up_conn := c, up_recvCount := up_recvCount p + 1\<rparr>
      in if up_recvCount p' \<le> 300 then
           (if up_shouldUseArmor p then
              (case Unpack S A (up_armor p) data of
                 Ok _ \<Rightarrow> udpUniClientProxy_Read_loop S A blen p'
               | Err e \<Rightarrow> Ok (res, p')
               | Panic \<Rightarrow> Panic
               | Blocked \<Rightarrow> Blocked)
            else if data = up_token p then udpUniClientProxy_Read_loop S A blen p'
            else Ok (res, p'))
         else Ok (res, p'))"
  by pat_completeness auto
termination udpUniClientProxy_Read_loop
  by (relation "measure (\<lambda>(S, A, blen, p). 301 - up_recvCount p)") auto

definition udpUniClientProxy_Read ::
  "struc_lib \<Rightarrow> aead_lib \<Rightarrow> nat \<Rightarrow> udpUniClientProxy \<Rightarrow>
   (armor_error, (io_error + bytes) \<times> udpUniClientProxy) outcome" where
  "udpUniClientProxy_Read S A blen p =
     (case up_initBuf p of
        Some d \<Rightarrow> Ok (Inr (take blen d), p\<lparr>up_initBuf := None\<rparr>)
      | None \<Rightarrow> udpUniClientProxy_Read_loop S A blen p)"

definition udpUniClientProxy_Write :: "bytes \<Rightarrow> udpUniClientProxy \<Rightarrow> (io_error + nat) \<times> udpUniClientProxy" where
  "udpUniClientProxy_Write b p =
     (let (err, c) = conn_Write b (up_conn p)
      in (case err of None \<Rightarrow> Inr (length b) | Some e \<Rightarrow> Inl e, p\<lparr>up_conn := c\<rparr>))"

section \<open>Server\<close>

record UdpUniServer =
  uus_password :: bytes
  uus_hh :: HttpHeaderHolderProcessor
  uus_armor :: PacketArmor

definition NewUdpUniServer :: "bytes \<Rightarrow> UdpUniServer" where
  "NewUdpUniServer password =
     \<lparr>uus_password = password,
      uus_hh = NewHttpHeaderHolderProcessor2 password (str_bytes ''UdpUniSecret''),
      uus_armor = NewPacketArmor password (str_bytes ''UdpUniPacketArmor'') False\<rparr>"

record udpUniServerProxy =
  us_initBuf :: bytes
  us_conn :: dgram_conn
  us_useArmoredPacket :: bool
  us_armor :: PacketArmor
  us_recvCount :: nat

text \<open>
  \<open>Connection\<close> with the first datagram of the context: \<open>None\<close> when the datagram is refused,
  otherwise the proxy and the attributes handed to the upper listener.
\<close>

definition UdpUniServer_Connection ::
  "struc_lib \<Rightarrow> aead_lib \<Rightarrow> UdpUniServer \<Rightarrow> dgram_conn \<Rightarrow> bytes \<Rightarrow> bool option \<Rightarrow>
   (armor_error, (udpUniServerProxy \<times> ExtraOptionsUniConnAttribValue) option) outcome" where
  "UdpUniServer_Connection S A uus conn InitialData armorOpt =
     (let usePacketArmor = (armorOpt = Some True);
          finish = (\<lambda>initdata.
            bind_outcome (Open S A (uus_hh uus) initdata) (\<lambda>phv.
              Ok (case phv of
                    None \<Rightarrow> None
                  | Some ph \<Rightarrow>
                      Some (\<lparr>us_initBuf = initdata, us_conn = conn, us_useArmoredPacket = usePacketArmor,
                             us_armor = uus_armor uus, us_recvCount = 0\<rparr>,
                            \<lparr>ua_ID = hh_ConnID ph, ua_Rand = hh_Rand ph, ua_Iter = hh_ConnIter ph\<rparr>))))
      in if usePacketArmor then
           (case Unpack S A (uus_armor uus) InitialData of
              Ok data \<Rightarrow> finish data
            | Err e \<Rightarrow> Ok None
            | Panic \<Rightarrow> Panic
            | Blocked \<Rightarrow> Blocked)
         else finish InitialData)"

definition udpUniServerProxy_Write :: "bytes \<Rightarrow> udpUniServerProxy \<Rightarrow> (io_error + nat) \<times> udpUniServerProxy" where
  "udpUniServerProxy_Write b p =
     (let (err, c) = conn_Write b (us_conn p)
      in (case err of None \<Rightarrow> Inr (length b) | Some e \<Rightarrow> Inl e, p\<lparr>us_conn := c\<rparr>))"

text \<open>
  \<open>Read\<close>: of the first 300 datagrams every copy of the handshake is answered with an echo. With
  the armor, a datagram that cannot be unpacked is returned without the error of the read.
  \<open>nonces\<close> gives the nonce for each answer.
\<close>

function udpUniServerProxy_Read ::
  "struc_lib \<Rightarrow> aead_lib \<Rightarrow> (nat \<Rightarrow> bytes option) \<Rightarrow> nat \<Rightarrow> udpUniServerProxy \<Rightarrow>
   (armor_error, (io_error + bytes) \<times> udpUniServerProxy) outcome" where
  "udpUniServerProxy_Read S A nonces blen p =
     (let (res, c) = conn_Read blen (us_conn p);
          d = (case res of Inl _ \<Rightarrow> [] | Inr d \<Rightarrow> d);
          p' = p\<lparr>us_conn := c, us_recvCount := us_recvCount p + 1\<rparr>
      in if us_recvCount p' \<le> 300 then
           (if us_useArmoredPacket p then
              (case Unpack S A (us_armor p) d of
                 Ok data \<Rightarrow>
                   (if data = us_initBuf p then
                      (case Pack S A (nonces (us_recvCount p)) (us_armor p) data (int (length d)) of
                         Ok echo \<Rightarrow>
                           udpUniServerProxy_Read S A nonces blen (snd (udpUniServerProxy_Write echo p'))
                       | Err e \<Rightarrow> udpUniServerProxy_Read S A nonces blen p'
                       | Panic \<Rightarrow> Panic
                       | Blocked \<Rightarrow> Blocked)
                    else Ok (res, p'))
               | Err e \<Rightarrow> Ok (Inr d, p')
               | Panic \<Rightarrow> Panic
               | Blocked \<Rightarrow> Blocked)
            else if d = us_initBuf p then
              udpUniServerProxy_Read S A nonces blen (snd (udpUniServerProxy_Write (us_initBuf p) p'))
            else Ok (res, p'))
         else Ok (res, p'))"
  by pat_completeness auto

lemma recvCount_Write [simp]:
  "us_recvCount (snd (udpUniServerProxy_Write b p)) = us_recvCount p"
  by (simp add: udpUniServerProxy_Write_def case_prod_beta)

termination udpUniServerProxy_Read
  by (relation "measure (\<lambda>(S, A, nonces, blen, p). 301 - us_recvCount p)") auto

declare udpUniServerProxy_Read.simps [simp del] udpUniClientProxy_Read_loop.simps [simp del]

section \<open>The handshake\<close>

text \<open>A token fits the armor and the read buffers.\<close>

definition good_padding :: "int \<Rightarrow> bool" where
  "good_padding n \<longleftrightarrow> n = 0 \<or> 160 \<le> n \<and> n \<le> 1600"

text \<open>The datagram that carries a token, plain or armored.\<close>

definition carries :: "struc_lib \<Rightarrow> aead_lib \<Rightarrow> PacketArmor \<Rightarrow> int \<Rightarrow> bytes \<Rightarrow> bytes \<Rightarrow> bool" where
  "carries S A a n tok d \<longleftrightarrow>
     (if n = 0 then d = tok else \<exists>nonce. length nonce = 16 \<and> Pack S A (Some nonce) a tok n = Ok d)"

lemma armored_datagram:
  assumes "struc_laws S" "aead_laws A" "length nonce = 16" "length tok = 124" "160 \<le> n" "n \<le> 1600"
  shows "\<exists>d. Pack S A (Some nonce) (NewPacketArmor pw salt c) tok n = Ok d \<and> length d = nat n \<and>
    Unpack S A (NewPacketArmor pw salt (\<not> c)) d = Ok tok"
  using Pack_Unpack [OF assms(1-3), of tok n pw salt c] assms(4-6) by fastforce

lemma carries_unpack:
  assumes "struc_laws S" "aead_laws A" "length tok = 124" "good_padding n" "n \<noteq> 0"
    and "carries S A (NewPacketArmor pw salt c) n tok d"
  shows "length d = nat n" "Unpack S A (NewPacketArmor pw salt (\<not> c)) d = Ok tok"
proof -
  obtain nonce where "length nonce = 16" "Pack S A (Some nonce) (NewPacketArmor pw salt c) tok n = Ok d"
    using assms(5,6) by (auto simp: carries_def)
  moreover have "160 \<le> n" "n \<le> 1600"
    using assms(4,5) by (auto simp: good_padding_def)
  ultimately show "length d = nat n" "Unpack S A (NewPacketArmor pw salt (\<not> c)) d = Ok tok"
    using armored_datagram [OF assms(1,2) _ assms(3), of nonce n pw salt c] by auto
qed

lemma tick_sends:
  assumes "struc_laws S" "aead_laws A" "length nonce = 16" "length (up_token p) = 124" "good_padding n"
    and "up_armor p = NewPacketArmor pw salt True" and "dc_wrerr (up_conn p) = None"
  shows "\<exists>d. UniHandShake_tick S A (Some nonce) n p =
       Ok (p\<lparr>up_conn := (up_conn p)\<lparr>dc_out := dc_out (up_conn p) @ [d]\<rparr>\<rparr>) \<and>
     carries S A (up_armor p) n (up_token p) d"
proof (cases "n = 0")
  case True
  then show ?thesis
    using assms(7) by (auto simp: UniHandShake_tick_def carries_def conn_Write_def)
next
  case False
  with assms(5) have "160 \<le> n" "n \<le> 1600"
    by (auto simp: good_padding_def)
  then obtain d where "Pack S A (Some nonce) (up_armor p) (up_token p) n = Ok d"
    using armored_datagram [OF assms(1-4), of n pw salt True] assms(6) by auto
  then show ?thesis
    using False assms(3,7) by (auto simp: UniHandShake_tick_def carries_def conn_Write_def)
qed

lemma Unpack_empty [simp]: "aead_laws A \<Longrightarrow> Unpack S A a [] = Err errLengthTooShort"
  by (simp add: Unpack_def)

text \<open>The server opens what carries a token, and takes the identity from its header.\<close>

lemma server_accepts:
  assumes "struc_laws S" "aead_laws A" "good_padding n" "length tok = 124"
    and "carries S A (NewPacketArmor pw (str_bytes ''UdpUniPacketArmor'') True) n tok d"
    and "Open S A (NewHttpHeaderHolderProcessor2 pw (str_bytes ''UdpUniSecret'')) tok = Ok (Some h)"
  shows "UdpUniServer_Connection S A (NewUdpUniServer pw) conn d (if n = 0 then None else Some True) =
     Ok (Some (\<lparr>us_initBuf = tok, us_conn = conn, us_useArmoredPacket = (n \<noteq> 0),
                us_armor = NewPacketArmor pw (str_bytes ''UdpUniPacketArmor'') False, us_recvCount = 0\<rparr>,
               \<lparr>ua_ID = hh_ConnID h, ua_Rand = hh_Rand h, ua_Iter = hh_ConnIter h\<rparr>))"
proof (cases "n = 0")
  case True
  then show ?thesis
    using assms(5,6) by (simp add: UdpUniServer_Connection_def NewUdpUniServer_def carries_def)
next
  case False
  then have "Unpack S A (NewPacketArmor pw (str_bytes ''UdpUniPacketArmor'') False) d = Ok tok"
    using carries_unpack(2) [OF assms(1,2,4,3) _ assms(5)] by simp
  then show ?thesis
    using False assms(6) by (simp add: UdpUniServer_Connection_def NewUdpUniServer_def)
qed

text \<open>A copy of the token is answered with a datagram of the same length, and the read goes on.\<close>

lemma server_echoes:
  assumes "struc_laws S" "aead_laws A" "good_padding n" "length (us_initBuf p) = 124"
    and "carries S A (NewPacketArmor pw salt True) n (us_initBuf p) d"
    and "us_armor p = NewPacketArmor pw salt False" and "us_useArmoredPacket p = (n \<noteq> 0)"
    and "us_recvCount p < 300" and "1600 \<le> blen" and "dc_wrerr (us_conn p) = None"
    and "dc_in (us_conn p) = d # ds" and "nonces (us_recvCount p) = Some nonce" and "length nonce = 16"
  shows "\<exists>e. carries S A (NewPacketArmor pw salt False) n (us_initBuf p) e \<and> length e = length d \<and>
     udpUniServerProxy_Read S A nonces blen p =
     udpUniServerProxy_Read S A nonces blen
       (p\<lparr>us_conn := (us_conn p)\<lparr>dc_in := ds, dc_out := dc_out (us_conn p) @ [e]\<rparr>,
          us_recvCount := us_recvCount p + 1\<rparr>)"
proof (cases "n = 0")
  case True
  have "take blen d = d"
    using True assms(4,5,9) by (simp add: carries_def)
  then have "udpUniServerProxy_Read S A nonces blen p =
     udpUniServerProxy_Read S A nonces blen
       (p\<lparr>us_conn := (us_conn p)\<lparr>dc_in := ds, dc_out := dc_out (us_conn p) @ [d]\<rparr>,
          us_recvCount := us_recvCount p + 1\<rparr>)"
    using True assms
    by (subst udpUniServerProxy_Read.simps)
       (simp add: conn_Read_def conn_Write_def udpUniServerProxy_Write_def carries_def, cases p, simp)
  then show ?thesis
    using True assms(5) by (auto simp: carries_def)
next
  case False
  note d = carries_unpack [OF assms(1-2,4,3) False assms(5)]
  have n: "160 \<le> n" "n \<le> 1600"
    using False assms(3) by (auto simp: good_padding_def)
  obtain e where e: "Pack S A (Some nonce) (NewPacketArmor pw salt False) (us_initBuf p) n = Ok e" "length e = nat n"
    using armored_datagram [OF assms(1,2,13,4) n, of pw salt False] by auto
  have "take blen d = d" "int (length d) = n"
    using d n assms(9) by simp_all
  then have "udpUniServerProxy_Read S A nonces blen p =
     udpUniServerProxy_Read S A nonces blen
       (p\<lparr>us_conn := (us_conn p)\<lparr>dc_in := ds, dc_out := dc_out (us_conn p) @ [e]\<rparr>,
          us_recvCount := us_recvCount p + 1\<rparr>)"
    using False assms(6-13) d(2) e(1)
    by (subst udpUniServerProxy_Read.simps)
       (simp add: conn_Read_def conn_Write_def udpUniServerProxy_Write_def, cases p, simp)
  then show ?thesis
    using False e d assms(13) by (auto simp: carries_def)
qed

text \<open>The echo ends the waiting of the client.\<close>

lemma client_done:
  assumes "struc_laws S" "aead_laws A" "good_padding n" "length (up_token p) = 124"
    and "carries S A (NewPacketArmor pw salt False) n (up_token p) e"
    and "up_armor p = NewPacketArmor pw salt True" and "dc_in (up_conn p) = e # ds" and "0 < i"
  shows "UniHandShake_loop S A n i err p = Ok (None, p\<lparr>up_conn := (up_conn p)\<lparr>dc_in := ds\<rparr>\<rparr>)"
proof (cases "n = 0")
  case True
  then show ?thesis
    using assms(4,5,7,8) by (cases i) (simp_all add: carries_def conn_Read_def)
next
  case False
  note e = carries_unpack [OF assms(1,2,4,3) False assms(5)]
  have "take 1600 e = e"
    using e(1) assms(3) by (auto simp: good_padding_def)
  then show ?thesis
    using False e(2) assms(6-8) by (cases i) (simp_all add: conn_Read_def)
qed

lemma uni_header_lengths:
  "length (hh_ConnID (uni_header randid rnd now unival)) = 24"
  "length (hh_Rand (uni_header randid rnd now unival)) = 24"
  by (simp_all add: uni_header_def)

lemma uni_header_identity:
  assumes "length (ua_ID att) = 24" "length rnd = 24" "length randid = 24"
  shows "hh_ConnID (uni_header randid rnd now (Some att)) = ua_ID att"
    "hh_Rand (uni_header randid rnd now (Some att)) = rnd"
    "hh_ConnIter (uni_header randid rnd now (Some att)) = ua_Iter att"
  using assms by (simp_all add: uni_header_def)

definition fresh_proxy :: "bytes \<Rightarrow> dgram_conn \<Rightarrow> udpUniClientProxy" where
  "fresh_proxy pw c =
     \<lparr>up_initBuf = None, up_token = [], up_conn = c, up_armor = uuc_armor (NewUdpUniClient pw),
      up_shouldUseArmor = False, up_recvCount = 0\<rparr>"

lemma UniHandShake_start_simps [simp]:
  "up_token (UniHandShake_start tok n p) = tok"
  "up_armor (UniHandShake_start tok n p) = up_armor p"
  "up_conn (UniHandShake_start tok n p) = up_conn p"
  "up_initBuf (UniHandShake_start tok n p) = up_initBuf p"
  by (simp_all add: UniHandShake_start_def)

lemma fresh_proxy_simps [simp]:
  "up_armor (fresh_proxy pw c) = NewPacketArmor pw (str_bytes ''UdpUniPacketArmor'') True"
  "up_conn (fresh_proxy pw c) = c"
  "up_initBuf (fresh_proxy pw c) = None"
  by (simp_all add: fresh_proxy_def NewUdpUniClient_def)

text \<open>C4.
  The handshake end to end, with and without the armor. The client seals a header with the
  identity of its unified connection and sends it; from that datagram the server, with the same
  password, hands the same identity, iteration and random value to the hub. The server's first
  read answers a repeated copy of the datagram with one of the same length, does not pass it on,
  and when that answer reaches the client its handshake returns without error and without
  taking the answer for data.
\<close>

theorem uni_handshake_end_to_end:
  assumes "struc_laws S" and "aead_laws A" and "good_padding n" and "length nonce = 16"
    and "\<And>k. \<exists>m. nonces k = Some m \<and> length m = 16"
    and "length (ua_ID att) = 24" and "length rnd = 24" and "length randid = 24"
    and "dc_wrerr cconn = None" and "dc_wrerr sconn = None" and "1600 \<le> blen"
  shows "\<exists>tok d sp e.
     Seal S A (uuc_hh (NewUdpUniClient pw)) (uni_header randid rnd now (Some att)) = Ok tok \<and>
     UniHandShake_tick S A (Some nonce) n (UniHandShake_start tok n (fresh_proxy pw cconn)) =
       Ok ((UniHandShake_start tok n (fresh_proxy pw cconn))\<lparr>up_conn := cconn\<lparr>dc_out := dc_out cconn @ [d]\<rparr>\<rparr>) \<and>
     UdpUniServer_Connection S A (NewUdpUniServer pw) (sconn\<lparr>dc_in := d # rest\<rparr>) d
         (if n = 0 then None else Some True) =
       Ok (Some (sp, \<lparr>ua_ID = ua_ID att, ua_Rand = rnd, ua_Iter = ua_Iter att\<rparr>)) \<and>
     length e = length d \<and>
     udpUniServerProxy_Read S A nonces blen sp =
       udpUniServerProxy_Read S A nonces blen
         (sp\<lparr>us_conn := sconn\<lparr>dc_in := rest, dc_out := dc_out sconn @ [e]\<rparr>, us_recvCount := 1\<rparr>) \<and>
     (\<forall>cs. \<exists>p. UniHandShake S A tok n (fresh_proxy pw (cconn\<lparr>dc_in := e # cs\<rparr>)) = Ok (None, p) \<and>
        up_initBuf p = None \<and> dc_in (up_conn p) = cs)"
proof -
  let ?salt = "str_bytes ''UdpUniPacketArmor''"
  let ?h = "uni_header randid rnd now (Some att)"
  obtain tok where tok: "Seal S A (uuc_hh (NewUdpUniClient pw)) ?h = Ok tok" "length tok = 124"
      "Open S A (NewHttpHeaderHolderProcessor2 pw (str_bytes ''UdpUniSecret'')) tok = Ok (Some ?h)"
    using Seal_Open [OF assms(1,2), of ?h "NewHttpHeaderHolderProcessor2 pw (str_bytes ''UdpUniSecret'')"]
    by (auto simp: NewUdpUniClient_def uni_header_lengths)
  let ?p = "UniHandShake_start tok n (fresh_proxy pw cconn)"
  have p: "up_token ?p = tok" "up_armor ?p = NewPacketArmor pw ?salt True" "up_conn ?p = cconn"
    by simp_all
  obtain d where d: "UniHandShake_tick S A (Some nonce) n ?p = Ok (?p\<lparr>up_conn := cconn\<lparr>dc_out := dc_out cconn @ [d]\<rparr>\<rparr>)"
      "carries S A (NewPacketArmor pw ?salt True) n tok d"
    using tick_sends [OF assms(1,2,4) _ assms(3), of ?p pw ?salt] p tok(2) assms(9) by auto
  let ?sp = "\<lparr>us_initBuf = tok, us_conn = sconn\<lparr>dc_in := d # rest\<rparr>, us_useArmoredPacket = (n \<noteq> 0),
      us_armor = NewPacketArmor pw ?salt False, us_recvCount = 0\<rparr>"
  have conn: "UdpUniServer_Connection S A (NewUdpUniServer pw) (sconn\<lparr>dc_in := d # rest\<rparr>) d (if n = 0 then None else Some True) =
      Ok (Some (?sp, \<lparr>ua_ID = ua_ID att, ua_Rand = rnd, ua_Iter = ua_Iter att\<rparr>))"
    using server_accepts [OF assms(1-3) tok(2) d(2) tok(3)] uni_header_identity [OF assms(6-8)] by simp
  obtain m where m: "nonces 0 = Some m" "length m = 16"
    using assms(5) by blast
  obtain e where e: "carries S A (NewPacketArmor pw ?salt False) n tok e" "length e = length d"
      "udpUniServerProxy_Read S A nonces blen ?sp = udpUniServerProxy_Read S A nonces blen
         (?sp\<lparr>us_conn := sconn\<lparr>dc_in := rest, dc_out := dc_out sconn @ [e]\<rparr>, us_recvCount := 1\<rparr>)"
    using server_echoes [OF assms(1-3), of ?sp pw ?salt d blen rest nonces m] d(2) tok(2) assms(10,11) m by auto
  have "\<exists>p. UniHandShake S A tok n (fresh_proxy pw (cconn\<lparr>dc_in := e # cs\<rparr>)) = Ok (None, p) \<and>
      up_initBuf p = None \<and> dc_in (up_conn p) = cs" for cs
    using client_done [OF assms(1-3), of "UniHandShake_start tok n (fresh_proxy pw (cconn\<lparr>dc_in := e # cs\<rparr>))" pw ?salt e cs 300 None]
      e(1) tok(2)
    by (simp add: UniHandShake_def)
  with tok(1) d(1) conn e(2,3) show ?thesis by blast
qed

definition ex_attr :: ExtraOptionsUniConnAttribValue where
  "ex_attr = \<lparr>ua_ID = replicate 24 3, ua_Rand = [], ua_Iter = 2\<rparr>"

definition ex_udp :: dgram_conn where
  "ex_udp = \<lparr>dc_in = [], dc_rderr = ReadError, dc_out = [], dc_wrerr = None,
     dc_rd_deadline = 0, dc_wr_deadline = 0, dc_closed = False\<rparr>"

theorem uni_handshake_end_to_end_witness:
  "\<exists>tok d sp.
     Seal struc_be ex_aead (uuc_hh (NewUdpUniClient [1])) (uni_header (replicate 24 8) (replicate 24 9) 100 (Some ex_attr)) = Ok tok \<and>
     UdpUniServer_Connection struc_be ex_aead (NewUdpUniServer [1]) (ex_udp\<lparr>dc_in := [d]\<rparr>) d (Some True) =
       Ok (Some (sp, \<lparr>ua_ID = replicate 24 3, ua_Rand = replicate 24 9, ua_Iter = 2\<rparr>))"
proof -
  have "good_padding 1200" "length (replicate 16 7 :: bytes) = 16"
    "\<exists>m. (\<lambda>k. Some (replicate 16 7) :: bytes option) k = Some m \<and> length m = 16"
    "length (ua_ID ex_attr) = 24" "length (replicate 24 9 :: bytes) = 24" "length (replicate 24 8 :: bytes) = 24"
    "dc_wrerr ex_udp = None" "dc_wrerr ex_udp = None" "(1600::nat) \<le> 65536" for k :: nat
    by (simp_all add: good_padding_def ex_attr_def ex_udp_def)
  from uni_handshake_end_to_end [OF struc_be_laws ex_aead_laws this, of "[1]" 100 "[]"] show ?thesis
    by (fastforce simp: ex_attr_def)
qed

text \<open>Packets the armor refuses use up the rounds of the waiting loop and clear its error.\<close>

lemma loop_refused:
  assumes "n \<noteq> 0" and "length ds = i" and "dc_in (up_conn p) = ds @ rest"
    and "\<And>d. d \<in> set ds \<Longrightarrow> \<exists>e. Unpack S A (up_armor p) (take 1600 d) = Err e"
  shows "\<exists>p'. UniHandShake_loop S A n i None p = Ok (None, p') \<and> dc_in (up_conn p') = rest"
  using assms
proof (induction i arbitrary: ds p)
  case 0
  then show ?case by simp
next
  case (Suc i)
  then obtain d ds' where ds: "ds = d # ds'" by (cases ds) auto
  then obtain e where "Unpack S A (up_armor p) (take 1600 d) = Err e"
    using Suc.prems(4) by auto
  moreover have "\<exists>p'. UniHandShake_loop S A n i None (p\<lparr>up_conn := (up_conn p)\<lparr>dc_in := ds' @ rest\<rparr>\<rparr>) =
      Ok (None, p') \<and> dc_in (up_conn p') = rest"
    using Suc.IH [of ds' "p\<lparr>up_conn := (up_conn p)\<lparr>dc_in := ds' @ rest\<rparr>\<rparr>"] Suc.prems ds by simp
  ultimately show ?case
    using Suc.prems(1,3) ds by (simp add: conn_Read_def)
qed

text \<open>
  With the armor, a client that receives 300 datagrams none of which it can unpack still returns
  a connection without error: the loop is left by its bound and the error it returns is that of
  the last read, which succeeded.
\<close>

theorem armored_handshake_accepts_garbage:
  assumes "struc_laws S" and "aead_laws A" and "n \<noteq> 0" and "length ds = 300" and "dc_in conn = ds"
    and "\<And>d. d \<in> set ds \<Longrightarrow> \<exists>e. Unpack S A (uuc_armor uuc) (take 1600 d) = Err e"
  shows "\<exists>p. UdpUniClient_Connect S A uuc (Inr conn) randid rnd now unival (Some (True, n)) = Ok (Inr p)"
proof -
  obtain w where w: "Seal S A (uuc_hh uuc) (uni_header randid rnd now unival) = Ok w"
    using Seal_Open [OF assms(1,2) uni_header_lengths] by blast
  let ?uc = "\<lparr>up_initBuf = None, up_token = [], up_conn = conn, up_armor = uuc_armor uuc,
      up_shouldUseArmor = False, up_recvCount = 0\<rparr>"
  obtain p where "UniHandShake_loop S A n 300 None (UniHandShake_start w n ?uc) = Ok (None, p)"
    using loop_refused [OF assms(3,4), of "UniHandShake_start w n ?uc" "[]" S A] assms(3,5,6)
    by (auto simp: UniHandShake_start_def)
  then show ?thesis
    using w by (simp add: UdpUniClient_Connect_def UniHandShake_def)
qed

theorem armored_handshake_accepts_garbage_witness:
  "\<exists>p. UdpUniClient_Connect struc_be ex_aead (NewUdpUniClient [1]) (Inr (ex_udp\<lparr>dc_in := replicate 300 [0]\<rparr>))
     (replicate 24 8) (replicate 24 9) 100 (Some ex_attr) (Some (True, 1200)) = Ok (Inr p)"
  by (rule armored_handshake_accepts_garbage [OF struc_be_laws ex_aead_laws, where ds = "replicate 300 [0]"])
     (simp_all add: Unpack_def ex_aead_laws)

text \<open>
  On the server, with the armor, a failed read among the first 300 comes back as an empty datagram
  without error; without the armor the error is passed on.
\<close>

lemma armored_read_hides_error:
  assumes "aead_laws A" and "us_recvCount p < 300" and "dc_in (us_conn p) = []" and "us_initBuf p \<noteq> []"
  shows "\<exists>p'. udpUniServerProxy_Read S A nonces blen p =
     Ok (if us_useArmoredPacket p then Inr [] else Inl (dc_rderr (us_conn p)), p')"
  using assms by (subst udpUniServerProxy_Read.simps) (simp add: conn_Read_def)

end
