(* ===== verification/UniHub.thy ===== *)
theory UniHub
  imports AntiReplay UdpUni
begin

text \<open>
  The unified connection, which survives the loss of the transport connections below it:
  \<^verbatim>\<open>transport/uni/uniserver\<close> (the hub of the server) and \<^verbatim>\<open>transport/uni/uniclient\<close>. A cancellable context is a
  number; cancelling it puts the number into the set of the cancelled ones. The clock, the replay
  filter and the dialer are arguments.
\<close>

section \<open>The hub of the server\<close>

record 'f UnifiedConnectionTransport =
  uct_ConnID :: bytes
  uct_Arw :: "'f AntiReplayWindow"
  uct_LastConnIter :: u32
  uct_Cancels :: "bytes \<rightharpoonup> nat"
  uct_TxChan :: "bytes chan"
  uct_RxChan :: "bytes chan"

record 'f UnifiedConnectionTransportHub =
  hub_Conns :: "bytes \<rightharpoonup> 'f UnifiedConnectionTransport"
  hub_next :: nat
  hub_cancelled :: "nat set"
  hub_passed :: "bytes list"
  hub_closed :: "nat list"
  hub_rehandshakes :: "bytes list"

definition NewUnifiedConnectionTransportHub :: "'f UnifiedConnectionTransportHub" where
  "NewUnifiedConnectionTransportHub =
     \<lparr>hub_Conns = Map.empty, hub_next = 0, hub_cancelled = {}, hub_passed = [], hub_closed = [],
      hub_rehandshakes = []\<rparr>"

text \<open>A negative iteration below -1 asks for a new handshake of the layers above.\<close>

definition iter_of :: "u32 \<Rightarrow> u32 \<times> bool" where
  "iter_of i = (if sint i < - 1 then (- i, True) else (i, False))"

definition new_transport :: "ExtraOptionsUniConnAttribValue \<Rightarrow> 'f UnifiedConnectionTransport" where
  "new_transport att =
     \<lparr>uct_ConnID = ua_ID att, uct_Arw = NewAntiReplayWindow 120,
      uct_LastConnIter = fst (iter_of (ua_Iter att)), uct_Cancels = Map.empty,
      uct_TxChan = make_chan 8, uct_RxChan = make_chan 8\<rparr>"

text \<open>
  \<open>onConnection\<close> of the transport connection number \<open>conn\<close>: the context of the connection, or
  \<open>None\<close> when it is refused.
\<close>

definition onConnection ::
  "'f cuckoo_lib \<Rightarrow> int \<Rightarrow> int \<Rightarrow> nat \<Rightarrow> ExtraOptionsUniConnAttribValue \<Rightarrow> 'f UnifiedConnectionTransportHub \<Rightarrow>
   (unit, nat option \<times> 'f UnifiedConnectionTransportHub) outcome" where
  "onConnection C t0 tnow conn att hub =
     (let (iter, shouldRehandshake) = iter_of (ua_Iter att);
          (conns, uct, loaded) = LoadOrStore (hub_Conns hub) (ua_ID att) (new_transport att);
          hub1 = (if loaded then hub
                  else hub\<lparr>hub_Conns := conns, hub_passed := hub_passed hub @ [ua_ID att]\<rparr>)
      in bind_outcome (Check C t0 tnow (ua_Rand att) (uct_Arw uct)) (\<lambda>(fresh, arw).
           let uct1 = uct\<lparr>uct_Arw := arw\<rparr> in
           if \<not> fresh then
             Ok (None, hub1\<lparr>hub_Conns := (hub_Conns hub1)(ua_ID att \<mapsto> uct1),
                            hub_closed := hub_closed hub1 @ [conn]\<rparr>)
           else
             let newer = sint (uct_LastConnIter uct) < sint iter;
                 ctx = hub_next hub1;
                 uct2 = uct1\<lparr>uct_Cancels := (if newer then Map.empty else uct_Cancels uct)(ua_Rand att \<mapsto> ctx),
                             uct_LastConnIter := iter\<rparr>
             in Ok (Some ctx,
                  hub1\<lparr>hub_Conns := (hub_Conns hub1)(ua_ID att \<mapsto> uct2),
                       hub_next := Suc ctx,
                       hub_cancelled := hub_cancelled hub1 \<union> (if newer then ran (uct_Cancels uct) else {}),
                       hub_rehandshakes := hub_rehandshakes hub1 @
                         (if newer \<and> shouldRehandshake then [ua_ID att] else [])\<rparr>)))"

definition UnifiedConnectionTransport_Close ::
  "bytes \<Rightarrow> 'f UnifiedConnectionTransportHub \<Rightarrow> 'f UnifiedConnectionTransportHub" where
  "UnifiedConnectionTransport_Close i hub =
     (case hub_Conns hub i of
        None \<Rightarrow> hub
      | Some uct \<Rightarrow> hub\<lparr>hub_cancelled := hub_cancelled hub \<union> ran (uct_Cancels uct)\<rparr>)"

text \<open>
  One turn of the pumps between a transport connection and the channels; the Boolean is that the
  pump ends. Server and client run the same loops; the client also closes the connection on an
  error.
\<close>

definition uct_Rx_step :: "(io_error + bytes) \<Rightarrow> bool \<Rightarrow> bool \<Rightarrow> bytes chan \<Rightarrow> bool \<times> bytes chan" where
  "uct_Rx_step res ctxErr connctxErr rx =
     (case res of
        Inl e \<Rightarrow> (True, rx)
      | Inr data \<Rightarrow> (ctxErr \<or> connctxErr, chan_send rx (take 65536 data)))"

datatype pump_event = TxData | TxCtxDone | TxConnDone

definition uct_Tx_step :: "pump_event \<Rightarrow> bytes chan \<Rightarrow> dgram_conn \<Rightarrow> bool \<times> bytes chan \<times> dgram_conn" where
  "uct_Tx_step ev tx conn =
     (case ev of
        TxData \<Rightarrow>
          (case chan_recv tx of
             None \<Rightarrow> (False, tx, conn)
           | Some (data, tx') \<Rightarrow> (let (err, conn') = conn_Write data conn in (err \<noteq> None, tx', conn')))
      | TxCtxDone \<Rightarrow> (True, tx, conn)
      | TxConnDone \<Rightarrow> (True, tx, conn))"

section \<open>The client\<close>

record UnifiedConnectionClient =
  uc_ConnID :: bytes
  uc_Iter :: int
  uc_IterCancel :: "nat option"
  uc_connAdpCancel :: "nat option"
  uc_next :: nat
  uc_cancelled :: "nat set"
  uc_iterations :: "nat list"
  uc_listening :: bool

definition NewUnifiedConnectionClient :: "bytes \<Rightarrow> UnifiedConnectionClient" where
  "NewUnifiedConnectionClient connid =
     \<lparr>uc_ConnID = connid, uc_Iter = 0, uc_IterCancel = None, uc_connAdpCancel = None, uc_next = 0,
      uc_cancelled = {}, uc_iterations = [], uc_listening = False\<rparr>"

definition cancel :: "nat option \<Rightarrow> UnifiedConnectionClient \<Rightarrow> UnifiedConnectionClient" where
  "cancel c u = u\<lparr>uc_cancelled := uc_cancelled u \<union> set_option c\<rparr>"

text \<open>
  The attributes of the next connection; the iteration is cut to 32 bits. The dialer decides about
  success from the attributes.
\<close>

definition connectUnder2 ::
  "(ExtraOptionsUniConnAttribValue \<Rightarrow> bool) \<Rightarrow> bool \<Rightarrow> UnifiedConnectionClient \<Rightarrow>
   (bool \<times> ExtraOptionsUniConnAttribValue) \<times> UnifiedConnectionClient" where
  "connectUnder2 dial shouldHandshake u =
     (let iter = uc_Iter u + 1;
          iterv = (if shouldHandshake then - iter else iter);
          att = \<lparr>ua_ID = uc_ConnID u, ua_Rand = [], ua_Iter = of_int iterv\<rparr>
      in ((dial att, att), u\<lparr>uc_Iter := iter\<rparr>))"

definition start_iteration :: "UnifiedConnectionClient \<Rightarrow> UnifiedConnectionClient" where
  "start_iteration u =
     u\<lparr>uc_IterCancel := Some (uc_next u), uc_iterations := uc_iterations u @ [uc_next u],
       uc_next := Suc (uc_next u)\<rparr>"

text \<open>\<open>Connect\<close>: the Boolean is success. The listener for reconnect requests starts with iteration 1.\<close>

definition Connect ::
  "(ExtraOptionsUniConnAttribValue \<Rightarrow> bool) \<Rightarrow> UnifiedConnectionClient \<Rightarrow> bool \<times> UnifiedConnectionClient" where
  "Connect dial u =
     (let u1 = cancel (uc_IterCancel u) (cancel (uc_connAdpCancel u) u);
          ((ok, _), u2) = connectUnder2 dial True u1
      in if \<not> ok then (False, u2)
         else
           let u3 = start_iteration u2;
               u4 = u3\<lparr>uc_connAdpCancel := Some (uc_next u3), uc_next := Suc (uc_next u3)\<rparr>
           in (True, if uc_Iter u4 = 1 then u4\<lparr>uc_listening := True\<rparr> else u4))"

text \<open>A missing cancel function would be a nil call.\<close>

definition ReconnectUnder ::
  "(ExtraOptionsUniConnAttribValue \<Rightarrow> bool) \<Rightarrow> bool \<Rightarrow> UnifiedConnectionClient \<Rightarrow>
   (unit, bool \<times> UnifiedConnectionClient) outcome" where
  "ReconnectUnder dial shouldHandshake u =
     (case uc_IterCancel u of
        None \<Rightarrow> Panic
      | Some c \<Rightarrow>
          (let ((ok, _), u2) = connectUnder2 dial shouldHandshake (cancel (Some c) u)
           in Ok (if ok then (True, start_iteration u2) else (False, u2))))"

definition UnifiedConnectionClient_Close :: "UnifiedConnectionClient \<Rightarrow> (unit, UnifiedConnectionClient) outcome" where
  "UnifiedConnectionClient_Close u =
     (case uc_IterCancel u of None \<Rightarrow> Panic | Some c \<Rightarrow> Ok (cancel (Some c) u))"

text \<open>One turn of \<open>ReconnectListener\<close> on a request: a full handshake or a plain reconnect.\<close>

definition ReconnectListener_step ::
  "(ExtraOptionsUniConnAttribValue \<Rightarrow> bool) \<Rightarrow> bool \<Rightarrow> UnifiedConnectionClient \<Rightarrow>
   (unit, bool \<times> UnifiedConnectionClient) outcome" where
  "ReconnectListener_step dial fullReHandshake u =
     (if uc_listening u then ReconnectUnder dial fullReHandshake u else Ok (False, u))"

section \<open>Outcomes of a connection\<close>

text \<open>The transport a connection is bound to: the one of its identity, or a new one.\<close>

definition transport_of ::
  "'f UnifiedConnectionTransportHub \<Rightarrow> ExtraOptionsUniConnAttribValue \<Rightarrow> 'f UnifiedConnectionTransport" where
  "transport_of hub att = (case hub_Conns hub (ua_ID att) of None \<Rightarrow> new_transport att | Some uct \<Rightarrow> uct)"

lemma onConnection_check:
  assumes "onConnection C t0 tnow conn att hub = Ok (res, hub')"
  shows "\<exists>arw'. Check C t0 tnow (ua_Rand att) (uct_Arw (transport_of hub att)) = Ok (res \<noteq> None, arw') \<and>
     (\<exists>uct'. hub_Conns hub' = (hub_Conns hub)(ua_ID att \<mapsto> uct') \<and> uct_Arw uct' = arw')"
  using assms
  by (fastforce simp: onConnection_def LoadOrStore_def transport_of_def Let_def
      split: option.splits prod.splits if_splits)

lemma onConnection_accepted:
  assumes "onConnection C t0 tnow conn att hub = Ok (Some ctx, hub')"
    and "hub_Conns hub (ua_ID att) = Some uct"
  shows "\<exists>uct'. hub_Conns hub' (ua_ID att) = Some uct' \<and>
     uct_LastConnIter uct' = fst (iter_of (ua_Iter att)) \<and>
     (if sint (uct_LastConnIter uct) < sint (fst (iter_of (ua_Iter att)))
      then uct_Cancels uct' = [ua_Rand att \<mapsto> ctx] \<and> hub_cancelled hub' = hub_cancelled hub \<union> ran (uct_Cancels uct)
      else uct_Cancels uct' = (uct_Cancels uct)(ua_Rand att \<mapsto> ctx) \<and> hub_cancelled hub' = hub_cancelled hub)"
  using assms
  by (auto simp: onConnection_def LoadOrStore_def Let_def split: option.splits prod.splits if_splits)

section \<open>Replayed connections\<close>

lemma Check_keeps_time:
  assumes "Check C t0 t s aw = Ok (ok, aw')"
  shows "AntiReplayTime aw' = AntiReplayTime aw"
  using assms
  by (auto simp: Check_def window_insert_def window_rotate_def window_init_def Let_def
      split: option.splits prod.splits if_splits)

inductive hub_reachable :: "'f cuckoo_lib \<Rightarrow> 'f UnifiedConnectionTransportHub \<Rightarrow> bool" for C where
  hub_init: "hub_reachable C NewUnifiedConnectionTransportHub"
| hub_connection: "hub_reachable C hub \<Longrightarrow> onConnection C t0 tnow conn att hub = Ok (res, hub') \<Longrightarrow>
    hub_reachable C hub'"
| hub_close: "hub_reachable C hub \<Longrightarrow> hub_reachable C (UnifiedConnectionTransport_Close i hub)"

lemma hub_window:
  assumes "hub_reachable C hub" and "hub_Conns hub i = Some uct"
  shows "AntiReplayTime (uct_Arw uct) = 120"
  using assms
proof (induction arbitrary: i uct rule: hub_reachable.induct)
  case hub_init
  then show ?case by (simp add: NewUnifiedConnectionTransportHub_def)
next
  case (hub_connection hub t0 tnow conn att res hub')
  obtain arw' uct' where c: "Check C t0 tnow (ua_Rand att) (uct_Arw (transport_of hub att)) = Ok (res \<noteq> None, arw')"
      "hub_Conns hub' = (hub_Conns hub)(ua_ID att \<mapsto> uct')" "uct_Arw uct' = arw'"
    using onConnection_check [OF hub_connection.hyps(2)] by blast
  have "AntiReplayTime (uct_Arw (transport_of hub att)) = 120"
    using hub_connection.IH by (auto simp: transport_of_def new_transport_def NewAntiReplayWindow_def split: option.splits)
  then show ?case
    using c Check_keeps_time [OF c(1)] hub_connection by (auto split: if_splits)
next
  case (hub_close hub j)
  then show ?case by (auto simp: UnifiedConnectionTransport_Close_def split: option.splits)
qed

text \<open>Connections that come in one after the other, with room in the replay pools.\<close>

inductive hub_run :: "'f cuckoo_lib \<Rightarrow> int \<Rightarrow> 'f UnifiedConnectionTransportHub \<Rightarrow> int \<Rightarrow> 'f UnifiedConnectionTransportHub \<Rightarrow> bool"
  for C where
  run_refl: "hub_run C t hub t hub"
| run_step: "hub_run C t hub t' hub' \<Longrightarrow> t' \<le> now \<Longrightarrow>
    check_has_room C now now (ua_Rand att) (uct_Arw (transport_of hub' att)) \<Longrightarrow>
    onConnection C now now conn att hub' = Ok (res, hub'') \<Longrightarrow> hub_run C t hub now hub''"

lemma hub_run_checks:
  assumes "hub_run C t hub t' hub'" and "hub_Conns hub i = Some uct"
  shows "\<exists>uct' t''. hub_Conns hub' i = Some uct' \<and> t'' \<le> t' \<and> checks C t (uct_Arw uct) t'' (uct_Arw uct')"
  using assms
proof (induction rule: hub_run.induct)
  case (run_refl t hub)
  then show ?case using checks_refl by blast
next
  case (run_step t hub t' hub' now att conn res hub'')
  then obtain uct' t'' where ih: "hub_Conns hub' i = Some uct'" "t'' \<le> t'" "checks C t (uct_Arw uct) t'' (uct_Arw uct')"
    by blast
  obtain arw' uct2 where c: "Check C now now (ua_Rand att) (uct_Arw (transport_of hub' att)) = Ok (res \<noteq> None, arw')"
      "hub_Conns hub'' = (hub_Conns hub')(ua_ID att \<mapsto> uct2)" "uct_Arw uct2 = arw'"
    using onConnection_check [OF run_step.hyps(4)] by blast
  show ?case
  proof (cases "ua_ID att = i")
    case True
    then have "transport_of hub' att = uct'"
      using ih(1) by (simp add: transport_of_def)
    then have "checks C t (uct_Arw uct) now (uct_Arw uct2)"
      using checks_step [OF ih(3), of now "ua_Rand att"] ih(2) run_step.hyps(2,3) c by auto
    then show ?thesis using True c(2) by auto
  next
    case False
    then have "hub_Conns hub'' i = Some uct'" "t'' \<le> now"
      using ih run_step.hyps(2) c(2) by simp_all
    with ih(3) show ?thesis by blast
  qed
qed


definition ex_att :: "u32 \<Rightarrow> byte \<Rightarrow> ExtraOptionsUniConnAttribValue" where
  "ex_att iter r = \<lparr>ua_ID = [7], ua_Rand = [r], ua_Iter = iter\<rparr>"

definition ex_hub :: "(nat \<times> bytes list) UnifiedConnectionTransportHub" where
  "ex_hub = \<lparr>hub_Conns = [[7] \<mapsto> \<lparr>uct_ConnID = [7],
       uct_Arw = \<lparr>poolA = Some (10000, [[1]]), poolB = Some (10000, [[1]]), lastSwapTime = 5, PoolSwap = False, AntiReplayTime = 120\<rparr>,
       uct_LastConnIter = - 1, uct_Cancels = [[1] \<mapsto> 0], uct_TxChan = make_chan 8, uct_RxChan = make_chan 8\<rparr>],
     hub_next = 1, hub_cancelled = {}, hub_passed = [[7]], hub_closed = [], hub_rehandshakes = []\<rparr>"

lemma ex_hub_first:
  "onConnection list_filter 5 5 0 (ex_att (- 1) 1) NewUnifiedConnectionTransportHub = Ok (Some 0, ex_hub)"
  by (simp add: onConnection_def ex_att_def ex_hub_def NewUnifiedConnectionTransportHub_def LoadOrStore_def
      iter_of_def new_transport_def NewAntiReplayWindow_def window_defs)

lemma ex_hub_again:
  "\<exists>res hub3. onConnection list_filter 100 100 9 (ex_att 4 1) ex_hub = Ok (res, hub3)"
  by (simp add: onConnection_def ex_att_def ex_hub_def LoadOrStore_def iter_of_def window_defs)


section \<open>Iterations\<close>

text \<open>
  The hub does not keep the newest iteration: a late connection of an older iteration is accepted
  and becomes the last one, after which a connection of the current iteration (a boost connection,
  say) counts as a reincarnation and cancels the current connections of its own iteration.
\<close>

theorem stale_iteration_drops_current:
  assumes "hub_Conns hub (ua_ID a1) = Some uct" and "ua_ID a2 = ua_ID a1"
    and "sint (fst (iter_of (ua_Iter a1))) < sint (uct_LastConnIter uct)"
    and "fst (iter_of (ua_Iter a2)) = uct_LastConnIter uct"
    and "onConnection C t0 t conn a1 hub = Ok (Some c1, hub1)"
    and "onConnection C t0' t' conn' a2 hub1 = Ok (Some c2, hub2)"
    and "uct_Cancels uct r = Some c" and "r \<noteq> ua_Rand a1"
  shows "c \<in> hub_cancelled hub2"
proof -
  obtain uct1 where u1: "hub_Conns hub1 (ua_ID a1) = Some uct1"
      "uct_LastConnIter uct1 = fst (iter_of (ua_Iter a1))" "uct_Cancels uct1 = (uct_Cancels uct)(ua_Rand a1 \<mapsto> c1)"
    using onConnection_accepted [OF assms(5,1)] assms(3) by auto
  have "hub_Conns hub1 (ua_ID a2) = Some uct1"
    using u1(1) assms(2) by simp
  from onConnection_accepted [OF assms(6) this] u1(2) assms(3,4)
  have "hub_cancelled hub2 = hub_cancelled hub1 \<union> ran (uct_Cancels uct1)"
    by auto
  moreover have "uct_Cancels uct1 r = Some c"
    unfolding u1(3) using assms(7,8) by simp
  then have "c \<in> ran (uct_Cancels uct1)" by (rule ranI)
  ultimately show ?thesis by blast
qed

definition ex_hub5 :: "(nat \<times> bytes list) UnifiedConnectionTransportHub" where
  "ex_hub5 = \<lparr>hub_Conns = [[7] \<mapsto> \<lparr>uct_ConnID = [7],
       uct_Arw = \<lparr>poolA = Some (10000, [[1]]), poolB = Some (10000, [[1]]), lastSwapTime = 5, PoolSwap = False, AntiReplayTime = 120\<rparr>,
       uct_LastConnIter = 5, uct_Cancels = [[1] \<mapsto> 0], uct_TxChan = make_chan 8, uct_RxChan = make_chan 8\<rparr>],
     hub_next = 1, hub_cancelled = {}, hub_passed = [[7]], hub_closed = [], hub_rehandshakes = []\<rparr>"

lemma ex_hub5_late: "\<exists>hub1. onConnection list_filter 6 6 1 (ex_att 4 2) ex_hub5 = Ok (Some 1, hub1) \<and>
   (\<exists>hub2. onConnection list_filter 7 7 2 (ex_att 5 3) hub1 = Ok (Some 2, hub2))"
  by (simp add: onConnection_def ex_att_def ex_hub5_def LoadOrStore_def iter_of_def window_defs)

theorem stale_iteration_drops_current_witness:
  "\<exists>hub1 hub2. onConnection list_filter 6 6 1 (ex_att 4 2) ex_hub5 = Ok (Some 1, hub1) \<and>
     onConnection list_filter 7 7 2 (ex_att 5 3) hub1 = Ok (Some 2, hub2) \<and> 0 \<in> hub_cancelled hub2"
proof -
  obtain hub1 hub2 where h: "onConnection list_filter 6 6 1 (ex_att 4 2) ex_hub5 = Ok (Some 1, hub1)"
      "onConnection list_filter 7 7 2 (ex_att 5 3) hub1 = Ok (Some 2, hub2)"
    using ex_hub5_late by blast
  let ?uct = "the (hub_Conns ex_hub5 [7])"
  have uct: "hub_Conns ex_hub5 (ua_ID (ex_att 4 2)) = Some ?uct"
    by (simp add: ex_hub5_def ex_att_def)
  have cur: "uct_Cancels ?uct [1] = Some 0"
    by (simp add: ex_hub5_def)
  have "0 \<in> hub_cancelled hub2"
    by (rule stale_iteration_drops_current [OF uct _ _ _ h cur]) (simp_all add: ex_att_def ex_hub5_def iter_of_def)
  with h show ?thesis by blast
qed

section \<open>The client and the hub\<close>

lemma iter_of_client:
  assumes "1 \<le> n" and "n < 2 ^ 31"
  shows "sint (fst (iter_of (of_int (if h then - n else n)))) = (if h \<and> n = 1 then - 1 else n)"
proof -
  have "sint (of_int m :: u32) = m" if "- (2 ^ 31) \<le> m" "m < 2 ^ 31" for m
    using that by (simp add: signed_of_int signed_take_bit_int_eq_self)
  from this [of n] this [of "- n"] show ?thesis
    using assms by (auto simp: iter_of_def)
qed

text \<open>C23.
  A reconnect of the client replaces what it had: when the last connection the hub took from the
  client was the client's last attempt, the next attempt, with or without a handshake request,
  carries a larger iteration; once the hub accepts it, every earlier connection of the client is
  cancelled, only the new one is registered, and the hub again has the client's last attempt as
  its last iteration.
\<close>

theorem reconnect_replaces_connections:
  assumes "1 \<le> uc_Iter u" and "uc_Iter u + 1 < 2 ^ 31"
    and "hub_Conns hub (uc_ConnID u) = Some uct"
    and "uct_LastConnIter uct = fst (iter_of (of_int (if h then - uc_Iter u else uc_Iter u)))"
    and "connectUnder2 dial h' u = ((ok, att), u')"
    and "onConnection C t0 t conn (att\<lparr>ua_Rand := r\<rparr>) hub = Ok (Some ctx, hub')"
  shows "\<exists>uct'. hub_Conns hub' (uc_ConnID u') = Some uct' \<and> uct_Cancels uct' = [r \<mapsto> ctx] \<and>
     ran (uct_Cancels uct) \<subseteq> hub_cancelled hub' \<and>
     uct_LastConnIter uct' = fst (iter_of (of_int (if h' then - uc_Iter u' else uc_Iter u')))"
proof -
  have att: "ua_ID att = uc_ConnID u" "ua_Iter att = of_int (if h' then - (uc_Iter u + 1) else uc_Iter u + 1)"
    and u': "uc_Iter u' = uc_Iter u + 1" "uc_ConnID u' = uc_ConnID u"
    using assms(5) by (auto simp: connectUnder2_def Let_def)
  have "sint (uct_LastConnIter uct) \<le> uc_Iter u"
    unfolding assms(4) using iter_of_client [of "uc_Iter u" h] assms(1,2) by simp
  moreover have "sint (fst (iter_of (ua_Iter att))) = uc_Iter u + 1"
    unfolding att(2) using iter_of_client [of "uc_Iter u + 1" h'] assms(1,2) by simp
  ultimately have "sint (uct_LastConnIter uct) < sint (fst (iter_of (ua_Iter (att\<lparr>ua_Rand := r\<rparr>))))"
    by simp
  then show ?thesis
    using onConnection_accepted [OF assms(6), of uct] assms(3) att u' by auto
qed

definition ex_client :: UnifiedConnectionClient where
  "ex_client = (NewUnifiedConnectionClient [7])\<lparr>uc_Iter := 1\<rparr>"

lemma ex_hub_reconnect:
  "\<exists>hub'. onConnection list_filter 6 6 1 (\<lparr>ua_ID = [7], ua_Rand = [], ua_Iter = 2\<rparr>\<lparr>ua_Rand := [3]\<rparr>) ex_hub = Ok (Some 1, hub')"
  by (simp add: onConnection_def ex_hub_def LoadOrStore_def iter_of_def window_defs)

theorem reconnect_replaces_connections_witness:
  "\<exists>hub' uct'. onConnection list_filter 6 6 1 (\<lparr>ua_ID = [7], ua_Rand = [], ua_Iter = 2\<rparr>\<lparr>ua_Rand := [3]\<rparr>) ex_hub = Ok (Some 1, hub') \<and>
     hub_Conns hub' [7] = Some uct' \<and> uct_Cancels uct' = [[3] \<mapsto> 1] \<and> 0 \<in> hub_cancelled hub'"
proof -
  obtain hub' where h: "onConnection list_filter 6 6 1 (\<lparr>ua_ID = [7], ua_Rand = [], ua_Iter = 2\<rparr>\<lparr>ua_Rand := [3]\<rparr>) ex_hub = Ok (Some 1, hub')"
    using ex_hub_reconnect by blast
  let ?uct = "the (hub_Conns ex_hub [7])"
  have "1 \<le> uc_Iter ex_client" "uc_Iter ex_client + 1 < 2 ^ 31" "hub_Conns ex_hub (uc_ConnID ex_client) = Some ?uct"
    "uct_LastConnIter ?uct = fst (iter_of (of_int (if True then - uc_Iter ex_client else uc_Iter ex_client)))"
    "connectUnder2 (\<lambda>_. True) False ex_client =
       ((True, \<lparr>ua_ID = [7], ua_Rand = [], ua_Iter = 2\<rparr>), ex_client\<lparr>uc_Iter := 2\<rparr>)"
    by (simp_all add: ex_client_def NewUnifiedConnectionClient_def ex_hub_def iter_of_def connectUnder2_def)
  from reconnect_replaces_connections [OF this h]
  obtain uct' where "hub_Conns hub' [7] = Some uct'" "uct_Cancels uct' = [[3] \<mapsto> 1]"
      "ran (uct_Cancels ?uct) \<subseteq> hub_cancelled hub'"
    by (auto simp: ex_client_def NewUnifiedConnectionClient_def)
  moreover have "0 \<in> ran (uct_Cancels ?uct)"
    by (simp add: ex_hub_def)
  ultimately show ?thesis using h by blast
qed

section \<open>Reconnect requests\<close>

text \<open>What a client does after a given state.\<close>

inductive client_steps :: "UnifiedConnectionClient \<Rightarrow> UnifiedConnectionClient \<Rightarrow> bool" where
  cs_refl: "client_steps u u"
| cs_connect: "client_steps u u' \<Longrightarrow> Connect dial u' = (ok, u'') \<Longrightarrow> client_steps u u''"
| cs_reconnect: "client_steps u u' \<Longrightarrow> ReconnectUnder dial h u' = Ok (ok, u'') \<Longrightarrow> client_steps u u''"
| cs_close: "client_steps u u' \<Longrightarrow> UnifiedConnectionClient_Close u' = Ok u'' \<Longrightarrow> client_steps u u''"

lemmas client_defs = Connect_def ReconnectUnder_def UnifiedConnectionClient_Close_def connectUnder2_def
  cancel_def start_iteration_def

lemma client_steps_deaf:
  assumes "client_steps u u'" and "1 \<le> uc_Iter u" and "\<not> uc_listening u"
  shows "1 \<le> uc_Iter u' \<and> \<not> uc_listening u'"
  using assms
  by (induction rule: client_steps.induct)
     (auto simp: client_defs Let_def split: if_splits option.splits)

text \<open>
  A client whose first connection attempt fails never listens for reconnect requests: the listener
  is started by the attempt with iteration 1 only, and a later successful \<open>Connect\<close> has a larger
  one. Every reconnect request of the ping routine is then ignored.
\<close>

theorem failed_first_connect_deaf:
  assumes "Connect dial (NewUnifiedConnectionClient connid) = (False, u1)" and "client_steps u1 u"
  shows "ReconnectListener_step dial' full u = Ok (False, u)"
proof -
  have "1 \<le> uc_Iter u1 \<and> \<not> uc_listening u1"
    using assms(1) by (auto simp: client_defs NewUnifiedConnectionClient_def Let_def split: if_splits)
  then have "\<not> uc_listening u"
    using client_steps_deaf [OF assms(2)] by blast
  then show ?thesis by (simp add: ReconnectListener_step_def)
qed

theorem failed_first_connect_deaf_witness:
  "\<exists>u1 u. Connect (\<lambda>_. False) (NewUnifiedConnectionClient [7]) = (False, u1) \<and>
     Connect (\<lambda>_. True) u1 = (True, u) \<and> ReconnectListener_step (\<lambda>_. True) True u = Ok (False, u)"
proof -
  have "\<exists>u1. Connect (\<lambda>_. False) (NewUnifiedConnectionClient [7]) = (False, u1)"
    by (simp add: client_defs Let_def)
  then obtain u1 where u1: "Connect (\<lambda>_. False) (NewUnifiedConnectionClient [7]) = (False, u1)" by blast
  have "\<exists>u. Connect (\<lambda>_. True) u1 = (True, u)"
    by (simp add: client_defs Let_def)
  then obtain u where u: "Connect (\<lambda>_. True) u1 = (True, u)" by blast
  from failed_first_connect_deaf [OF u1 cs_connect [OF cs_refl u]] u1 u show ?thesis by blast
qed

end
