(* ===== verification/HttpFraming.thy ===== *)
theory HttpFraming
  imports Wire
begin

text \<open>
  Packets over a byte stream, \<^verbatim>\<open>transport/http/wrapper/PacketWrapper.go\<close>: every packet is preceded by an
  8-byte length, masked with a stream of 63-bit numbers both sides derive from the seed of the
  connection header. \<open>math/rand\<close> is an argument of the model: \<open>Int63 seed k\<close> is the k-th number of
  the generator with that seed; the law \<open>int63_laws\<close> is that it is not negative.
\<close>

type_synonym int63_source = "u64 \<Rightarrow> nat \<Rightarrow> u64"

definition int63_laws :: "int63_source \<Rightarrow> bool" where
  "int63_laws Int63 \<longleftrightarrow> (\<forall>seed k. \<not> bit (Int63 seed k) 63)"

section \<open>Writers\<close>

text \<open>
  A writer with what was written and, where it is going to fail, the number of writes before the
  failure. A \<open>bytes.Reader\<close> without bytes copies without a write.
\<close>

record http_writer =
  hw_out :: bytes
  hw_fail :: "nat option"

definition hw_Write :: "bytes \<Rightarrow> http_writer \<Rightarrow> bool \<times> http_writer" where
  "hw_Write b w =
     (case hw_fail w of
        Some 0 \<Rightarrow> (False, w)
      | Some (Suc k) \<Rightarrow> (True, w\<lparr>hw_out := hw_out w @ b, hw_fail := Some k\<rparr>)
      | None \<Rightarrow> (True, w\<lparr>hw_out := hw_out w @ b\<rparr>))"

definition hw_Copy :: "bytes \<Rightarrow> http_writer \<Rightarrow> bool \<times> http_writer" where
  "hw_Copy b w = (if b = [] then (True, w) else hw_Write b w)"

definition pack_length :: "struc_lib \<Rightarrow> u64 \<Rightarrow> http_writer \<Rightarrow> bool \<times> http_writer" where
  "pack_length S l w =
     (case struc_Pack S HTTPLenHeader_layout (HTTPLenHeader_vals l) of
        None \<Rightarrow> (False, w) | Some b \<Rightarrow> hw_Write b w)"

section \<open>Sending\<close>

text \<open>\<open>sendPayload\<close> returns (done, give the message back), the next stream position and the writer.\<close>

definition sendPayload ::
  "struc_lib \<Rightarrow> int63_source \<Rightarrow> u64 \<Rightarrow> bytes \<Rightarrow> nat \<Rightarrow> http_writer \<Rightarrow> (bool \<times> bool) \<times> nat \<times> http_writer" where
  "sendPayload S Int63 seed sending k w =
     (if 1601 < length sending then ((True, False), k, w)
      else
        let l = of_nat (length sending) XOR Int63 seed k;
            (ok, w1) = pack_length S l w
        in if \<not> ok then ((True, True), Suc k, w1)
           else let (ok2, w2) = hw_Copy sending w1
                in (if ok2 then (False, False) else (True, True), Suc k, w2))"

text \<open>
  \<open>sendFill\<close>: its loop runs while the length is below \<open>filled\<close>, which stays 0. \<open>None\<close> is a loop
  that does not end.
\<close>

partial_function (option) sendFill_loop ::
  "struc_lib \<Rightarrow> int63_source \<Rightarrow> u64 \<Rightarrow> int \<Rightarrow> int \<Rightarrow> nat \<Rightarrow> http_writer \<Rightarrow> (bool \<times> nat \<times> http_writer) option" where
  "sendFill_loop S Int63 seed fillLength filled k w =
     (if fillLength < filled then
        (let (ok, w') = pack_length S (0 XOR Int63 seed k) w
         in if \<not> ok then Some (True, Suc k, w')
            else sendFill_loop S Int63 seed fillLength filled (Suc k) w')
      else Some (False, k, w))"

definition sendFill ::
  "struc_lib \<Rightarrow> int63_source \<Rightarrow> u64 \<Rightarrow> int \<Rightarrow> nat \<Rightarrow> http_writer \<Rightarrow> ((bool \<times> int) \<times> nat \<times> http_writer) option" where
  "sendFill S Int63 seed fillLength k w =
     (case sendFill_loop S Int63 seed fillLength 0 k w of
        None \<Rightarrow> None
      | Some (failed, k', w') \<Rightarrow>
          Some (if failed then (True, 0) else (False, 0 - fillLength), k', w'))"

record http_sender =
  sd_seed :: u64
  sd_pos :: nat
  sd_writer :: http_writer
  sd_chan :: "bytes chan"
  sd_networkBuffering :: int
  sd_bytesSend :: int
  sd_payloadSent :: bool
  sd_timer :: bool

text \<open>
  What the \<open>select\<close> of \<open>SendPacketOverWriter\<close> takes: a packet of the channel, the timer, the end of
  the context or the drop signal of a boost connection.
\<close>

datatype send_event = TakePacket | TimerFired | CtxDone | DropSignal

text \<open>The start, up to the loop; \<open>True\<close> when the function returns there.\<close>

definition SendPacketOverWriter_start ::
  "struc_lib \<Rightarrow> int63_source \<Rightarrow> u64 \<Rightarrow> http_writer \<Rightarrow> bytes chan \<Rightarrow> int \<Rightarrow> (bool \<times> http_sender) option" where
  "SendPacketOverWriter_start S Int63 seed w ch networkBuffering =
     (case sendFill S Int63 seed 8 0 w of
        None \<Rightarrow> None
      | Some ((done1, overfill1), k, w') \<Rightarrow>
          Some (done1, \<lparr>sd_seed = seed, sd_pos = k, sd_writer = w', sd_chan = ch,
            sd_networkBuffering = networkBuffering, sd_bytesSend = overfill1, sd_payloadSent = False,
            sd_timer = True\<rparr>))"

text \<open>
  One turn of the loop; the Boolean is that the function returns. A message to be given back waits
  up to 120 seconds for room in the channel: \<open>room\<close> is whether it gets it.
\<close>

definition SendPacketOverWriter_step ::
  "struc_lib \<Rightarrow> int63_source \<Rightarrow> bool \<Rightarrow> send_event \<Rightarrow> http_sender \<Rightarrow> (bool \<times> http_sender) option" where
  "SendPacketOverWriter_step S Int63 room ev s =
     (case ev of
        TakePacket \<Rightarrow>
          (case chan_recv (sd_chan s) of
             None \<Rightarrow> Some (False, s)
           | Some (sending, ch) \<Rightarrow>
               (let ((done, returnmsg), k, w) = sendPayload S Int63 (sd_seed s) sending (sd_pos s) (sd_writer s);
                    s1 = s\<lparr>sd_chan := (if returnmsg \<and> room then chan_send ch sending else ch),
                           sd_pos := k, sd_writer := w\<rparr>
                in if done then Some (True, s1)
                   else Some (False, s1\<lparr>sd_bytesSend := sd_bytesSend s + int (length sending),
                                        sd_payloadSent := True\<rparr>)))
      | TimerFired \<Rightarrow>
          (if sd_networkBuffering s = 0 then Some (False, s\<lparr>sd_timer := False\<rparr>)
           else if sd_payloadSent s then
             (case sendFill S Int63 (sd_seed s) (sd_networkBuffering s) (sd_pos s) (sd_writer s) of
                None \<Rightarrow> None
              | Some ((done, overfill), k, w) \<Rightarrow>
                  if done then Some (True, s\<lparr>sd_pos := k, sd_writer := w\<rparr>)
                  else Some (False, s\<lparr>sd_pos := k, sd_writer := w, sd_bytesSend := overfill,
                                      sd_payloadSent := False, sd_timer := True\<rparr>))
           else Some (False, s\<lparr>sd_timer := True\<rparr>))
      | CtxDone \<Rightarrow> Some (True, s)
      | DropSignal \<Rightarrow> Some (True, s))"

section \<open>Receiving\<close>

text \<open>
  \<open>ReceivePacketOverReader\<close> on a stream of which \<open>reader\<close> is left: the packets put into the channel
  until it returns. \<open>cancelled n\<close> is whether the context has ended after the n-th packet.
\<close>

partial_function (option) ReceivePacketOverReader ::
  "struc_lib \<Rightarrow> int63_source \<Rightarrow> u64 \<Rightarrow> (nat \<Rightarrow> bool) \<Rightarrow> nat \<Rightarrow> bytes \<Rightarrow> bytes list \<Rightarrow>
   (unit, bytes list) outcome option" where
  "ReceivePacketOverReader S Int63 seed cancelled k reader out =
     (let (ok, vs, rest) = struc_Unpack S HTTPLenHeader_layout reader
      in if \<not> ok then Some (Ok out)
         else
           let l = HTTPLenHeader_of vs XOR Int63 seed k
           in if 1601 < sint l then Some (Ok out)
              else if l = 0 then ReceivePacketOverReader S Int63 seed cancelled (Suc k) rest out
              else if sint l < 0 then Some Panic
              else if length rest < nat (sint l) then Some (Ok out)
              else
                let out' = out @ [take (nat (sint l)) rest]
                in if cancelled (length out') then Some (Ok out')
                   else ReceivePacketOverReader S Int63 seed cancelled (Suc k) (drop (nat (sint l)) rest) out')"

section \<open>Probing the buffer of a relay\<close>

text \<open>
  The probe writes all but one byte, waits, and writes the last. \<open>rnd\<close> is the random content.
  A size below 1 panics in \<open>make\<close>.
\<close>

definition TestBufferSizePayload :: "int \<Rightarrow> (nat \<Rightarrow> byte) \<Rightarrow> http_writer \<Rightarrow> (unit, http_writer) outcome" where
  "TestBufferSizePayload sendingSize rnd w =
     (if sendingSize - 1 < 0 then Panic
      else
        let n = nat (sendingSize - 1);
            w1 = snd (hw_Copy (map rnd [0..<n]) w)
        in Ok (snd (hw_Copy [rnd n] w1)))"

text \<open>
  The verdict of the probing side, from the size of the first read (or its error) and whether the
  remaining read failed; times in nanoseconds. More than 65536 bytes to come do not fit the buffer.
\<close>

definition TestBufferSizePayloadClient :: "int \<Rightarrow> int option \<Rightarrow> bool \<Rightarrow> int \<Rightarrow> int \<Rightarrow> int \<Rightarrow> (unit, int) outcome" where
  "TestBufferSizePayloadClient sendingSize firstRead restFails reqtime readentime fullReadTime =
     (case firstRead of
        None \<Rightarrow> Ok (- 2)
      | Some n \<Rightarrow>
          if n < sendingSize \<and> 65536 < sendingSize - n then Panic
          else if n < sendingSize \<and> restFails then Ok (- 2)
          else
            let t1 = readentime - reqtime; t2 = fullReadTime - readentime; t3 = fullReadTime - reqtime;
                second = 1000000000
            in if t1 < 3 * second then Ok 3
               else if t2 \<le> 5 * second \<and> 3 * second \<le> t2 then Ok 1
               else if 9 * second < t3 then Ok 2
               else Ok (- 1))"

section \<open>Frames\<close>

definition frame :: "struc_lib \<Rightarrow> int63_source \<Rightarrow> u64 \<Rightarrow> nat \<Rightarrow> bytes \<Rightarrow> bytes" where
  "frame S Int63 seed k p =
     packed S HTTPLenHeader_layout (HTTPLenHeader_vals (of_nat (length p) XOR Int63 seed k)) @ p"

fun frames :: "struc_lib \<Rightarrow> int63_source \<Rightarrow> u64 \<Rightarrow> nat \<Rightarrow> bytes list \<Rightarrow> bytes" where
  "frames S Int63 seed k [] = []"
| "frames S Int63 seed k (p # ps) = frame S Int63 seed k p @ frames S Int63 seed (Suc k) ps"

lemma frames_append:
  "frames S Int63 seed k (ps @ qs) = frames S Int63 seed k ps @ frames S Int63 seed (k + length ps) qs"
  by (induction ps arbitrary: k) simp_all

lemma pack_length_eq:
  "struc_laws S \<Longrightarrow> pack_length S l w = hw_Write (packed S HTTPLenHeader_layout (HTTPLenHeader_vals l)) w"
  by (simp add: pack_length_def Pack_packed)

lemma sint_length:
  assumes "n \<le> 1601"
  shows "sint (of_nat n :: u64) = int n" "(of_nat n :: u64) = 0 \<longleftrightarrow> n = 0"
proof -
  show "sint (of_nat n :: u64) = int n"
    using assms by (simp add: sint_uint unsigned_of_nat take_bit_nat_eq_self signed_take_bit_int_eq_self)
  have "unat (of_nat n :: u64) = n"
    using assms by (simp add: unat_of_nat)
  then show "(of_nat n :: u64) = 0 \<longleftrightarrow> n = 0"
    unfolding unat_eq_zero [symmetric] by simp
qed

lemma sendPayload_ok:
  assumes "struc_laws S" and "length p \<le> 1601" and "hw_fail w = None"
  shows "sendPayload S Int63 seed p k w =
     ((False, False), Suc k, w\<lparr>hw_out := hw_out w @ frame S Int63 seed k p\<rparr>)"
  using assms by (simp add: sendPayload_def pack_length_eq hw_Write_def hw_Copy_def frame_def Let_def)

text \<open>A fill length that is not negative sends nothing.\<close>

lemma sendFill_nothing:
  "0 \<le> n \<Longrightarrow> sendFill S Int63 seed n k w = Some ((False, - n), k, w)"
  by (simp add: sendFill_def sendFill_loop.simps)

text \<open>What the receiver does with one frame, and with a header whose packet is missing.\<close>

lemma receive_frame:
  assumes "struc_laws S" and "length p \<le> 1601"
  shows "ReceivePacketOverReader S Int63 seed cancelled k (frame S Int63 seed k p @ rest) out =
     (if p = [] then ReceivePacketOverReader S Int63 seed cancelled (Suc k) rest out
      else if cancelled (Suc (length out)) then Some (Ok (out @ [p]))
      else ReceivePacketOverReader S Int63 seed cancelled (Suc k) rest (out @ [p]))"
  using assms sint_length [OF assms(2)]
  by (subst ReceivePacketOverReader.simps) (simp add: frame_def Let_def)

lemma receive_end:
  assumes "struc_laws S" and "length bs < 8"
  shows "ReceivePacketOverReader S Int63 seed cancelled k bs out = Some (Ok out)"
proof -
  obtain ok vs rest where u: "struc_Unpack S HTTPLenHeader_layout bs = (ok, vs, rest)"
    by (metis prod_cases3)
  then have "\<not> ok"
    using struc_unpack_short [OF assms(1) u] assms(2) by (simp add: HTTPLenHeader_layout_def)
  with u show ?thesis by (subst ReceivePacketOverReader.simps) simp
qed

lemma receive_cut:
  assumes "struc_laws S" and "length p \<le> 1601" and "p \<noteq> []"
  shows "ReceivePacketOverReader S Int63 seed cancelled k
      (packed S HTTPLenHeader_layout (HTTPLenHeader_vals (of_nat (length p) XOR Int63 seed k))) out = Some (Ok out)"
  using assms sint_length [OF assms(2)]
  by (subst ReceivePacketOverReader.simps) (simp add: Let_def)

lemma receive_frames:
  assumes "struc_laws S" and "\<And>p. p \<in> set ps \<Longrightarrow> length p \<le> 1601"
  shows "ReceivePacketOverReader S Int63 seed (\<lambda>_. False) k (frames S Int63 seed k ps @ rest) out =
     ReceivePacketOverReader S Int63 seed (\<lambda>_. False) (k + length ps) rest (out @ filter (\<lambda>p. p \<noteq> []) ps)"
  using assms(2)
proof (induction ps arbitrary: k out)
  case (Cons p ps)
  then have "length p \<le> 1601" by simp
  from receive_frame [OF assms(1) this, where rest = "frames S Int63 seed (Suc k) ps @ rest"] Cons show ?case
    by simp
qed simp

section \<open>The framed stream is a queue\<close>

text \<open>What a receiver gets out of the bytes written so far.\<close>

definition delivered :: "struc_lib \<Rightarrow> int63_source \<Rightarrow> http_sender \<Rightarrow> (unit, bytes list) outcome option" where
  "delivered S Int63 s =
     ReceivePacketOverReader S Int63 (sd_seed s) (\<lambda>_. False) 0 (hw_out (sd_writer s)) []"

definition frame_ok :: "bytes \<Rightarrow> bool" where
  "frame_ok p \<longleftrightarrow> p \<noteq> [] \<and> length p \<le> 1601"

text \<open>
  The runs of a sender over a writer that does not fail; \<open>arr\<close> lists the packets put into its
  channel so far.
\<close>

inductive sender_reach :: "struc_lib \<Rightarrow> int63_source \<Rightarrow> bytes list \<Rightarrow> http_sender \<Rightarrow> bool"
  for S Int63 where
  sr_start: "SendPacketOverWriter_start S Int63 seed \<lparr>hw_out = [], hw_fail = None\<rparr> (make_chan 8) n = Some (stopped, s) \<Longrightarrow>
    0 \<le> n \<Longrightarrow> sender_reach S Int63 [] s"
| sr_arrive: "sender_reach S Int63 arr s \<Longrightarrow> frame_ok p \<Longrightarrow>
    sender_reach S Int63 (arr @ [p]) (s\<lparr>sd_chan := chan_send (sd_chan s) p\<rparr>)"
| sr_step: "sender_reach S Int63 arr s \<Longrightarrow> SendPacketOverWriter_step S Int63 room ev s = Some (stopped, s') \<Longrightarrow>
    sender_reach S Int63 arr s'"

text \<open>The writer holds the frames of the packets taken from the channel, in order.\<close>

definition framed :: "struc_lib \<Rightarrow> int63_source \<Rightarrow> bytes list \<Rightarrow> http_sender \<Rightarrow> bool" where
  "framed S Int63 arr s \<longleftrightarrow> 0 \<le> sd_networkBuffering s \<and> hw_fail (sd_writer s) = None \<and>
     (\<exists>ps. hw_out (sd_writer s) = frames S Int63 (sd_seed s) 0 ps \<and> sd_pos s = length ps \<and>
        ps @ ch_buf (sd_chan s) = arr) \<and> (\<forall>p\<in>set arr. frame_ok p)"

lemma framed_take:
  assumes "struc_laws S" and "framed S Int63 arr s" and "ch_buf (sd_chan s) = p # rest"
  shows "SendPacketOverWriter_step S Int63 room TakePacket s =
      Some (False, s\<lparr>sd_chan := (sd_chan s)\<lparr>ch_buf := rest\<rparr>, sd_pos := Suc (sd_pos s),
        sd_writer := (sd_writer s)\<lparr>hw_out := hw_out (sd_writer s) @ frame S Int63 (sd_seed s) (sd_pos s) p\<rparr>,
        sd_bytesSend := sd_bytesSend s + int (length p), sd_payloadSent := True\<rparr>)"
proof -
  have "length p \<le> 1601" "hw_fail (sd_writer s) = None"
    using assms(2,3) by (auto simp: framed_def frame_ok_def)
  then show ?thesis
    using assms(1,3) by (simp add: SendPacketOverWriter_step_def chan_recv_def sendPayload_ok)
qed

lemma framed_step:
  assumes "struc_laws S" and "framed S Int63 arr s"
    and "SendPacketOverWriter_step S Int63 room ev s = Some (stopped, s')"
  shows "framed S Int63 arr s'"
proof (cases ev)
  case TakePacket
  show ?thesis
  proof (cases "ch_buf (sd_chan s)")
    case Nil
    then show ?thesis
      using assms(2,3) TakePacket by (simp add: SendPacketOverWriter_step_def chan_recv_def)
  next
    case (Cons p rest)
    obtain ps where ps: "hw_out (sd_writer s) = frames S Int63 (sd_seed s) 0 ps" "sd_pos s = length ps"
        "ps @ ch_buf (sd_chan s) = arr"
      using assms(2) by (auto simp: framed_def)
    then have "hw_out (sd_writer s) @ frame S Int63 (sd_seed s) (sd_pos s) p = frames S Int63 (sd_seed s) 0 (ps @ [p])"
      by (simp add: frames_append)
    then show ?thesis
      using framed_take [OF assms(1,2) Cons, of room] assms(2,3) ps Cons TakePacket
      unfolding framed_def by (auto intro!: exI [of _ "ps @ [p]"])
  qed
next
  case TimerFired
  then show ?thesis
    using assms(2,3)
    by (auto simp: SendPacketOverWriter_step_def framed_def sendFill_nothing split: if_splits)
qed (use assms in \<open>simp_all add: SendPacketOverWriter_step_def\<close>)

lemma reach_framed:
  assumes laws: "struc_laws S" and "sender_reach S Int63 arr s"
  shows "framed S Int63 arr s"
  using assms(2)
proof (induction rule: sender_reach.induct)
  case (sr_start seed n stopped s)
  then show ?case
    by (auto simp: SendPacketOverWriter_start_def sendFill_nothing framed_def)
next
  case (sr_arrive arr s p)
  then show ?case by (auto simp: framed_def)
next
  case (sr_step arr s room ev stopped s')
  then show ?case by (blast intro: framed_step [OF laws])
qed

lemma delivered_framed:
  assumes "struc_laws S" and "framed S Int63 arr s"
  shows "\<exists>ps. delivered S Int63 s = Some (Ok ps) \<and> ps @ ch_buf (sd_chan s) = arr"
proof -
  obtain ps where ps: "hw_out (sd_writer s) = frames S Int63 (sd_seed s) 0 ps" "ps @ ch_buf (sd_chan s) = arr"
      and ok: "\<And>p. p \<in> set ps \<Longrightarrow> frame_ok p"
    using assms(2) by (auto simp: framed_def)
  have "filter (\<lambda>p. p \<noteq> []) ps = ps"
    using ok by (auto simp: frame_ok_def intro: filter_True)
  moreover have "\<And>p. p \<in> set ps \<Longrightarrow> length p \<le> 1601"
    using ok by (simp add: frame_ok_def)
  ultimately have "delivered S Int63 s = Some (Ok ps)"
    using receive_frames [OF assms(1), of ps Int63 "sd_seed s" 0 "[]" "[]"] receive_end [OF assms(1), of "[]"] ps(1)
    by (simp add: delivered_def)
  with ps(2) show ?thesis by blast
qed


definition ex_sender :: http_sender where
  "ex_sender = \<lparr>sd_seed = 5, sd_pos = 0, sd_writer = \<lparr>hw_out = [], hw_fail = None\<rparr>, sd_chan = make_chan 8,
     sd_networkBuffering = 4096, sd_bytesSend = - 8, sd_payloadSent = False, sd_timer = True\<rparr>"

definition ex_int63 :: int63_source where
  "ex_int63 seed k = of_nat (k * 1000 + 77)"

lemma ex_sender_start:
  "SendPacketOverWriter_start S Int63 5 \<lparr>hw_out = [], hw_fail = None\<rparr> (make_chan 8) 4096 = Some (False, ex_sender)"
  by (simp add: SendPacketOverWriter_start_def sendFill_nothing ex_sender_def)

lemma ex_sender_run:
  "\<exists>s. sender_reach struc_be ex_int63 [[1, 2], [3]] s \<and> ch_buf (sd_chan s) = [[3]] \<and> sd_seed s = 5"
proof -
  let ?s0 = "ex_sender\<lparr>sd_chan := chan_send (chan_send (make_chan 8) [1, 2]) [3]\<rparr>"
  have "sender_reach struc_be ex_int63 [] ex_sender"
    by (rule sr_start [OF ex_sender_start]) simp
  from sr_arrive [OF sr_arrive [OF this, of "[1, 2]"], of "[3]"]
  have s0: "sender_reach struc_be ex_int63 [[1, 2], [3]] ?s0"
    by (simp add: frame_ok_def ex_sender_def)
  have "\<exists>s1. SendPacketOverWriter_step struc_be ex_int63 True TakePacket ?s0 = Some (False, s1) \<and>
      ch_buf (sd_chan s1) = [[3]] \<and> sd_seed s1 = 5"
    using framed_take [OF struc_be_laws reach_framed [OF struc_be_laws s0], of "[1, 2]" "[[3]]" True]
    by (simp add: ex_sender_def)
  then show ?thesis using sr_step [OF s0] by blast
qed




text \<open>
  A length header with the sign bit set panics the receiver, whatever the mask is: the masked
  length is negative, passes the check against 1601, and is the size of the buffer to make.
\<close>

theorem negative_length_panics:
  assumes "struc_laws S" and "int63_laws Int63" and "bit h 63"
  shows "ReceivePacketOverReader S Int63 seed cancelled k
     (packed S HTTPLenHeader_layout (HTTPLenHeader_vals h) @ rest) out = Some Panic"
proof -
  let ?l = "h XOR Int63 seed k"
  have "bit ?l 63"
    using assms(2,3) by (simp add: bit_xor_iff int63_laws_def)
  then have "sint ?l < 0" "?l \<noteq> 0"
    by (auto simp: sint_uint bit_uint_iff signed_take_bit_negative_iff)
  then show ?thesis
    using assms(1) by (subst ReceivePacketOverReader.simps) (simp add: Let_def)
qed

theorem negative_length_panics_witness:
  "ReceivePacketOverReader struc_be (\<lambda>_ _. 77) 5 (\<lambda>_. False) 0
     (packed struc_be HTTPLenHeader_layout (HTTPLenHeader_vals (2 ^ 63))) [] = Some Panic"
  using negative_length_panics [OF struc_be_laws, of "\<lambda>_ _. 77" "2 ^ 63" 5 "\<lambda>_. False" 0 "[]" "[]"]
  by (simp add: int63_laws_def bit_numeral_rec bit_exp_iff)

text \<open>
  The fill that is meant to push packets through a buffering relay never sends a byte: for every
  configured buffer size the timer leaves the stream as a sender without fill leaves it, whether
  packets were sent or not.
\<close>

theorem fill_sends_nothing:
  assumes "0 \<le> sd_networkBuffering s"
  shows "\<exists>s'. SendPacketOverWriter_step S Int63 room TimerFired s = Some (False, s') \<and>
     sd_writer s' = sd_writer s \<and> sd_pos s' = sd_pos s \<and> sd_chan s' = sd_chan s"
  using assms by (simp add: SendPacketOverWriter_step_def sendFill_nothing)

theorem fill_sends_nothing_witness:
  "\<exists>s'. SendPacketOverWriter_step struc_be ex_int63 True TimerFired (ex_sender\<lparr>sd_payloadSent := True\<rparr>) =
     Some (False, s') \<and> sd_writer s' = \<lparr>hw_out = [], hw_fail = None\<rparr>"
  using fill_sends_nothing [of "ex_sender\<lparr>sd_payloadSent := True\<rparr>" struc_be ex_int63 True]
  by (auto simp: ex_sender_def)

text \<open>A probe of a valid size writes that many bytes.\<close>

lemma probe_writes_size:
  assumes "1 \<le> n" and "hw_fail w = None"
  shows "\<exists>w'. TestBufferSizePayload n rnd w = Ok w' \<and> int (length (hw_out w')) = int (length (hw_out w)) + n"
  using assms by (simp add: TestBufferSizePayload_def hw_Copy_def hw_Write_def Let_def)

end
