(* ===== verification/HttpServer.thy ===== *)
theory HttpServer
  imports UniHub HttpFraming
begin

text \<open>
  The HTTP side of the server, \<^verbatim>\<open>transport/http/httpServer\<close> (\<open>server.go\<close>, \<open>boost.go\<close>, \<open>id.go\<close>) and the
  channel connection \<^verbatim>\<open>transport/http/adp/adper.go\<close> it hands to the listener above. A request carries
  a header token; the server opens it, checks its age and its random value, finds or makes the
  session of its identity and iteration, and starts the stream loops of \<open>HttpFraming\<close>. Those
  loops, the upgrade to a websocket and the answer of the listener above are arguments or results,
  not part of the handler.
\<close>

section \<open>Sessions\<close>

text \<open>
  The keys of the session table have an interface type: the table is filled under strings, and
  \<open>Close\<close> deletes under the 24-byte array of the identity. Values of different dynamic types are
  different keys.
\<close>

datatype session_key = KeyString bytes | KeyArray bytes

record 'f ProviderConnServerSide =
  pc_ID :: bytes
  pc_TxChan :: "bytes chan"
  pc_RxChan :: "bytes chan"
  pc_noReplayChecker :: "'f AntiReplayWindow"
  pc_dropped :: bool
  pc_boostRequests :: nat

datatype auth_location = Authlocation_Header | Authlocation_Path

record 'f ProviderServerSide =
  ps_clientSet :: "session_key \<rightharpoonup> 'f ProviderConnServerSide"
  ps_hh :: HttpHeaderHolderProcessor
  ps_authlocation :: auth_location

definition NewProviderServerSide :: "bytes \<Rightarrow> 'f ProviderServerSide" where
  "NewProviderServerSide password =
     \<lparr>ps_clientSet = Map.empty, ps_hh = NewHttpHeaderHolderProcessor password,
      ps_authlocation = Authlocation_Path\<rparr>"

subsection \<open>The session identity\<close>

text \<open>The conversion of an integer to a string is the UTF-8 of that code point, or of U+FFFD.\<close>

definition utf8_rune :: "int \<Rightarrow> bytes" where
  "utf8_rune r =
     (let v = (if r < 0 \<or> 1114111 < r \<or> 55296 \<le> r \<and> r \<le> 57343 then 65533 else nat r)
      in map of_nat
           (if v < 128 then [v]
            else if v < 2048 then [192 + v div 64, 128 + v mod 64]
            else if v < 65536 then [224 + v div 4096, 128 + v div 64 mod 64, 128 + v mod 64]
            else [240 + v div 262144, 128 + v div 4096 mod 64, 128 + v div 64 mod 64, 128 + v mod 64]))"

definition synthid :: "HttpHeaderHolder \<Rightarrow> bytes" where
  "synthid h =
     (let syniter = (if sint (hh_ConnIter h) \<le> 0 then - hh_ConnIter h else hh_ConnIter h)
      in hh_ConnID h @ utf8_rune (sint syniter))"

subsection \<open>Preparing a connection\<close>

definition new_session :: "HttpHeaderHolder \<Rightarrow> 'f ProviderConnServerSide" where
  "new_session h =
     \<lparr>pc_ID = hh_ConnID h, pc_TxChan = make_chan 8, pc_RxChan = make_chan 8,
      pc_noReplayChecker = NewAntiReplayWindow 119, pc_dropped = False, pc_boostRequests = 0\<rparr>"

text \<open>
  \<open>upper\<close> is the listener above: whether it returns a context for the new session. A nil context
  panics in \<open>context.WithCancel\<close>. The result is the key of the session and whether the request is
  a boost connection, or \<open>None\<close> when the random value is refused.
\<close>

definition parpareforconnection ::
  "'f cuckoo_lib \<Rightarrow> (ExtraOptionsUniConnAttribValue \<Rightarrow> bool) \<Rightarrow> int \<Rightarrow> HttpHeaderHolder \<Rightarrow> 'f ProviderServerSide \<Rightarrow>
   (unit, (bytes \<times> bool) option \<times> 'f ProviderServerSide) outcome" where
  "parpareforconnection C upper now beardata pss =
     (let k = KeyString (synthid beardata);
          (clients, ppsd, loaded) = LoadOrStore (ps_clientSet pss) k (new_session beardata);
          univ = \<lparr>ua_ID = hh_ConnID beardata, ua_Rand = hh_Rand beardata, ua_Iter = hh_ConnIter beardata\<rparr>
      in if \<not> loaded \<and> \<not> upper univ then Panic
         else bind_outcome (Check C now now (hh_Rand beardata) (pc_noReplayChecker ppsd)) (\<lambda>(fresh, arw).
           let boost = bit (hh_Flags beardata) 0;
               ppsd' = ppsd\<lparr>pc_noReplayChecker := arw,
                            pc_boostRequests := pc_boostRequests ppsd + (if fresh \<and> boost then 1 else 0)\<rparr>;
               pss' = pss\<lparr>ps_clientSet := clients(k \<mapsto> ppsd')\<rparr>
           in Ok (if fresh then Some (synthid beardata, boost) else None, pss')))"

section \<open>Requests\<close>

datatype http_method = GET | POST | OtherMethod

record http_request =
  rq_method :: http_method
  rq_path :: bytes
  rq_authorization :: bytes

text \<open>
  What a request leads to: refusal, the two halves of the buffer probe, or a stream of a session.
\<close>

datatype http_reply =
    NotFound
  | ProbeDown int
  | ProbeUp int
  | WsFailed
  | WsStream bytes u64
  | AlternativeStream
  | GetStream bytes u64
  | PostStream bytes u64

definition token_age :: "u64 \<Rightarrow> int \<Rightarrow> int" where
  "token_age t now = \<bar>sint (t - of_int now)\<bar>"

text \<open>The token of a request; \<open>None\<close> when the header has no bearer token.\<close>

definition bearer :: "auth_location \<Rightarrow> http_request \<Rightarrow> (unit, bytes option) outcome" where
  "bearer loc r =
     (case loc of
        Authlocation_Header \<Rightarrow>
          (let head = str_bytes ''Bearer '' in
           Ok (if take (length head) (rq_authorization r) = head
               then Some (drop (length head) (rq_authorization r)) else None))
      | Authlocation_Path \<Rightarrow> if rq_path r = [] then Panic else Ok (Some (drop 1 (rq_path r))))"

text \<open>What follows once the token is open and young enough; \<open>upgrade\<close> is whether the websocket upgrade works.\<close>

definition serve_session ::
  "'f cuckoo_lib \<Rightarrow> (ExtraOptionsUniConnAttribValue \<Rightarrow> bool) \<Rightarrow> bool \<Rightarrow> int \<Rightarrow> http_method \<Rightarrow> HttpHeaderHolder \<Rightarrow>
   'f ProviderServerSide \<Rightarrow> (unit, http_reply \<times> 'f ProviderServerSide) outcome" where
  "serve_session C upper upgrade now meth beardata pss =
     bind_outcome (parpareforconnection C upper now beardata pss) (\<lambda>(res, pss').
       Ok (case res of
             None \<Rightarrow> NotFound
           | Some (k, boost) \<Rightarrow>
               if bit (hh_Flags beardata) 1 then
                 (if \<not> upgrade then WsFailed
                  else if bit (hh_Flags beardata) 2 then AlternativeStream
                  else WsStream k (hh_Masker beardata))
               else (case meth of
                       GET \<Rightarrow> GetStream k (hh_Masker beardata)
                     | POST \<Rightarrow> PostStream k (hh_Masker beardata)
                     | OtherMethod \<Rightarrow> NotFound),
           pss'))"

definition serve_opened ::
  "'f cuckoo_lib \<Rightarrow> (ExtraOptionsUniConnAttribValue \<Rightarrow> bool) \<Rightarrow> bool \<Rightarrow> int \<Rightarrow> http_method \<Rightarrow> HttpHeaderHolder \<Rightarrow>
   'f ProviderServerSide \<Rightarrow> (unit, http_reply \<times> 'f ProviderServerSide) outcome" where
  "serve_opened C upper upgrade now meth beardata pss =
     (if 120 < token_age (hh_Time beardata) now then Ok (NotFound, pss)
      else if hh_ConnID beardata = replicate 24 0 \<and> meth = GET then
        (if 2 ^ 24 \<le> sint (hh_Masker beardata) then Ok (NotFound, pss)
         else if sint (hh_Masker beardata) < 1 then Panic
         else Ok (ProbeDown (sint (hh_Masker beardata)), pss))
      else if hh_ConnID beardata = replicate 24 0 \<and> meth = POST then
        (if 2 ^ 24 \<le> sint (hh_Masker beardata) then Ok (NotFound, pss)
         else Ok (ProbeUp (sint (hh_Masker beardata)), pss))
      else serve_session C upper upgrade now meth beardata pss)"

definition ServeHTTP ::
  "struc_lib \<Rightarrow> aead_lib \<Rightarrow> 'f cuckoo_lib \<Rightarrow> (ExtraOptionsUniConnAttribValue \<Rightarrow> bool) \<Rightarrow> bool \<Rightarrow> int \<Rightarrow>
   http_request \<Rightarrow> 'f ProviderServerSide \<Rightarrow> (unit, http_reply \<times> 'f ProviderServerSide) outcome" where
  "ServeHTTP S A C upper upgrade now r pss =
     bind_outcome (bearer (ps_authlocation pss) r) (\<lambda>tok.
       case tok of
         None \<Rightarrow> Ok (NotFound, pss)
       | Some bearerc \<Rightarrow>
           if length bearerc < 16 then Ok (NotFound, pss)
           else
             (case Open S A (ps_hh pss) bearerc of
                Ok None \<Rightarrow> Ok (NotFound, pss)
              | Ok (Some beardata) \<Rightarrow> serve_opened C upper upgrade now (rq_method r) beardata pss
              | Err e \<Rightarrow> Ok (NotFound, pss)
              | Panic \<Rightarrow> Panic
              | Blocked \<Rightarrow> Blocked))"

text \<open>
  A round of \<open>StartAbs\<close>: a failed accept leaves a nil connection and an empty token, and closing
  the nil connection panics. The result is the session whose streams start, if any.
\<close>

definition StartAbs_step ::
  "struc_lib \<Rightarrow> aead_lib \<Rightarrow> 'f cuckoo_lib \<Rightarrow> (ExtraOptionsUniConnAttribValue \<Rightarrow> bool) \<Rightarrow> int \<Rightarrow> bytes option \<Rightarrow>
   'f ProviderServerSide \<Rightarrow> (unit, (bytes \<times> u64) option \<times> 'f ProviderServerSide) outcome" where
  "StartAbs_step S A C upper now accepted pss =
     (case Open S A (ps_hh pss) (case accepted of None \<Rightarrow> [] | Some t \<Rightarrow> t) of
        Ok None \<Rightarrow> if accepted = None then Panic else Ok (None, pss)
      | Ok (Some beardata) \<Rightarrow>
          if 120 < token_age (hh_Time beardata) now then
            (if accepted = None then Panic else Ok (None, pss))
          else bind_outcome (parpareforconnection C upper now beardata pss) (\<lambda>(res, pss').
            case res of
              None \<Rightarrow> if accepted = None then Panic else Ok (None, pss')
            | Some (k, _) \<Rightarrow> Ok (Some (k, hh_Masker beardata), pss'))
      | Err e \<Rightarrow> Ok (None, pss)
      | Panic \<Rightarrow> Panic
      | Blocked \<Rightarrow> Blocked)"

section \<open>Closing and boosting\<close>

definition ProviderConnServerSide_Close :: "bytes \<Rightarrow> 'f ProviderServerSide \<Rightarrow> 'f ProviderServerSide" where
  "ProviderConnServerSide_Close k pss =
     (case ps_clientSet pss (KeyString k) of
        None \<Rightarrow> pss
      | Some pcn \<Rightarrow>
          pss\<lparr>ps_clientSet :=
            (Delete (ps_clientSet pss) (KeyArray (pc_ID pcn)))(KeyString k \<mapsto> pcn\<lparr>pc_dropped := True\<rparr>)\<rparr>)"

text \<open>
  The boost worker of a session: a timer that is prolonged by every boost request, and when it
  fires, or on a request to stop, every boost stream that waits for the signal is closed.
\<close>

record boosting =
  bw_deadline :: "int option"
  bw_waiting :: nat
  bw_closed :: nat

datatype boost_event = BoostInfo bool int | BoostDone | BoostTimer

definition close_waiting :: "boosting \<Rightarrow> boosting" where
  "close_waiting b = b\<lparr>bw_closed := bw_closed b + bw_waiting b, bw_waiting := 0\<rparr>"

definition boostingWorker_step :: "int \<Rightarrow> boost_event \<Rightarrow> boosting \<Rightarrow> bool \<times> boosting" where
  "boostingWorker_step now ev b =
     (case ev of
        BoostInfo enable timeoutAtLeast \<Rightarrow>
          (False, if enable then b\<lparr>bw_deadline := Some (now + timeoutAtLeast + 20)\<rparr> else close_waiting b)
      | BoostDone \<Rightarrow> (True, b)
      | BoostTimer \<Rightarrow> (False, close_waiting (b\<lparr>bw_deadline := None\<rparr>)))"

section \<open>The channel connection\<close>

text \<open>
  \<open>Read\<close> and \<open>Write\<close> over the two channels. With nothing to read and a live context the read ends
  after 400 seconds. A select with a packet and an ended context takes either; \<open>preferData\<close> says
  which.
\<close>

datatype adp_error = AdpShortBuffer | AdpCtx | AdpEOF

definition RxTxToConn_Read ::
  "nat \<Rightarrow> bool \<Rightarrow> bool \<Rightarrow> bytes chan \<Rightarrow> (adp_error + bytes) \<times> bytes chan" where
  "RxTxToConn_Read blen ctxDone preferData rx =
     (case chan_recv rx of
        Some (d, rx') \<Rightarrow>
          if ctxDone \<and> \<not> preferData then (Inl AdpCtx, rx)
          else (if length d \<le> blen then Inr d else Inl AdpShortBuffer, rx')
      | None \<Rightarrow> (Inl (if ctxDone then AdpCtx else AdpEOF), rx))"

definition RxTxToConn_Write :: "bytes \<Rightarrow> bool \<Rightarrow> bytes chan \<Rightarrow> (adp_error + nat) \<times> bytes chan" where
  "RxTxToConn_Write b ctxDone tx = (if ctxDone then (Inl AdpCtx, tx) else (Inr (length b), chan_send tx b))"

section \<open>Admission\<close>

fun session_of :: "http_reply \<Rightarrow> bytes option" where
  "session_of (WsStream k m) = Some k"
| "session_of (GetStream k m) = Some k"
| "session_of (PostStream k m) = Some k"
| "session_of _ = None"

definition session_window :: "'f ProviderServerSide \<Rightarrow> HttpHeaderHolder \<Rightarrow> 'f AntiReplayWindow" where
  "session_window pss h = pc_noReplayChecker
     (case ps_clientSet pss (KeyString (synthid h)) of None \<Rightarrow> new_session h | Some c \<Rightarrow> c)"

lemma parpareforconnection_accepted:
  assumes "parpareforconnection C upper now h pss = Ok (Some (k, boost), pss')"
  shows "k = synthid h \<and> (\<exists>arw. Check C now now (hh_Rand h) (session_window pss h) = Ok (True, arw)) \<and>
     (\<forall>k'. k' \<noteq> KeyString k \<longrightarrow> ps_clientSet pss' k' = ps_clientSet pss k')"
  using assms
  by (auto simp: parpareforconnection_def LoadOrStore_def session_window_def Let_def
      split: option.splits if_splits)

lemma parpareforconnection_keeps:
  assumes "parpareforconnection C upper now h pss = Ok (res, pss')"
  shows "dom (ps_clientSet pss) \<subseteq> dom (ps_clientSet pss')"
  using assms
  by (auto simp: parpareforconnection_def LoadOrStore_def Let_def split: option.splits if_splits)

lemma serve_session_stream:
  assumes "serve_session C upper upgrade now meth h pss = Ok (reply, pss')" and "session_of reply = Some k"
  shows "\<exists>boost. parpareforconnection C upper now h pss = Ok (Some (k, boost), pss')"
proof -
  obtain a where a: "parpareforconnection C upper now h pss = Ok a" "snd a = pss'"
    and reply: "reply = (case fst a of
             None \<Rightarrow> NotFound
           | Some (k, boost) \<Rightarrow>
               if bit (hh_Flags h) 1 then
                 (if \<not> upgrade then WsFailed
                  else if bit (hh_Flags h) 2 then AlternativeStream
                  else WsStream k (hh_Masker h))
               else (case meth of
                       GET \<Rightarrow> GetStream k (hh_Masker h)
                     | POST \<Rightarrow> PostStream k (hh_Masker h)
                     | OtherMethod \<Rightarrow> NotFound))"
    using assms(1) by (auto simp: serve_session_def case_prod_beta)
  obtain b where "fst a = Some (k, b)"
    using assms(2) unfolding reply
    by (cases "fst a"; cases meth) (auto split: if_splits)
  with a show ?thesis by (cases a) auto
qed

text \<open>C22.
  Only a request with a valid token reaches a session. When \<open>ServeHTTP\<close> answers with a stream of a
  session, the request carried a token that opens under the server's password, is at most 120
  seconds off the server's clock, and whose random value the session's replay window accepted; the
  session is the one of the token's identity and iteration, and no other session changes.
\<close>

theorem http_stream_needs_token:
  assumes "ServeHTTP S A C upper upgrade now r pss = Ok (reply, pss')" and "session_of reply = Some k"
  shows "\<exists>tok h arw. bearer (ps_authlocation pss) r = Ok (Some tok) \<and> Open S A (ps_hh pss) tok = Ok (Some h) \<and>
     token_age (hh_Time h) now \<le> 120 \<and> k = synthid h \<and>
     Check C now now (hh_Rand h) (session_window pss h) = Ok (True, arw) \<and>
     (\<forall>k'. k' \<noteq> KeyString k \<longrightarrow> ps_clientSet pss' k' = ps_clientSet pss k')"
proof -
  obtain tok where b: "bearer (ps_authlocation pss) r = Ok tok"
    using assms(1) by (auto simp: ServeHTTP_def)
  obtain tok h where t: "bearer (ps_authlocation pss) r = Ok (Some tok)" "Open S A (ps_hh pss) tok = Ok (Some h)"
      "token_age (hh_Time h) now \<le> 120"
      "serve_session C upper upgrade now (rq_method r) h pss = Ok (reply, pss')"
    using assms b
    by (cases tok; cases "Open S A (ps_hh pss) (the tok)")
       (auto simp: ServeHTTP_def serve_opened_def split: option.splits if_splits)
  from serve_session_stream [OF t(4) assms(2)] obtain boost where
    "parpareforconnection C upper now h pss = Ok (Some (k, boost), pss')" by blast
  from parpareforconnection_accepted [OF this] t show ?thesis by blast
qed

definition ex_head :: "byte \<Rightarrow> u64 \<Rightarrow> HttpHeaderHolder" where
  "ex_head r t = \<lparr>hh_Masker = 3, hh_ConnID = replicate 24 1, hh_Rand = replicate 24 r, hh_Time = t,
     hh_Flags = 0, hh_ConnIter = 1\<rparr>"

definition ex_pss :: "(nat \<times> bytes list) ProviderServerSide" where
  "ex_pss = NewProviderServerSide [5]"

lemma ex_parpare: "\<exists>pss'. parpareforconnection list_filter (\<lambda>_. True) 1000 (ex_head 2 1000) ex_pss =
   Ok (Some (synthid (ex_head 2 1000), False), pss')"
  by (simp add: parpareforconnection_def ex_pss_def NewProviderServerSide_def ex_head_def LoadOrStore_def
      new_session_def NewAntiReplayWindow_def window_defs)

lemma ex_head_fields:
  "hh_Time (ex_head r t) = t" "hh_Flags (ex_head r t) = 0" "hh_ConnID (ex_head r t) = replicate 24 1"
  "hh_Rand (ex_head r t) = replicate 24 r"
  by (simp_all add: ex_head_def)

theorem http_stream_needs_token_witness:
  "\<exists>tok pss'. ServeHTTP struc_be ex_aead list_filter (\<lambda>_. True) False 1000
       \<lparr>rq_method = GET, rq_path = 47 # tok, rq_authorization = []\<rparr> ex_pss =
       Ok (GetStream (synthid (ex_head 2 1000)) (hh_Masker (ex_head 2 1000)), pss') \<and>
     (\<exists>h. Open struc_be ex_aead (ps_hh ex_pss) tok = Ok (Some h) \<and> token_age (hh_Time h) 1000 \<le> 120)"
proof -
  obtain t where t: "Open struc_be ex_aead (ps_hh ex_pss) t = Ok (Some (ex_head 2 1000))" "length t = 124"
    using Seal_Open [OF struc_be_laws ex_aead_laws, of "ex_head 2 1000" "ps_hh ex_pss"]
    by (auto simp: ex_head_fields)
  obtain pss' where p: "parpareforconnection list_filter (\<lambda>_. True) 1000 (ex_head 2 1000) ex_pss =
      Ok (Some (synthid (ex_head 2 1000), False), pss')"
    using ex_parpare by blast
  let ?r = "\<lparr>rq_method = GET, rq_path = 47 # t, rq_authorization = []\<rparr>"
  have auth: "ps_authlocation ex_pss = Authlocation_Path"
    by (simp add: ex_pss_def NewProviderServerSide_def)
  have age: "token_age 1000 1000 = 0"
    by (simp add: token_age_def)
  have nz: "replicate 24 1 \<noteq> (replicate 24 0 :: bytes)"
    by (simp add: replicate_eq_replicate)
  have serve: "ServeHTTP struc_be ex_aead list_filter (\<lambda>_. True) False 1000 ?r ex_pss =
      Ok (GetStream (synthid (ex_head 2 1000)) (hh_Masker (ex_head 2 1000)), pss')"
    using t p nz by (simp add: ServeHTTP_def bearer_def auth serve_opened_def serve_session_def ex_head_fields age)
  from http_stream_needs_token [OF serve, of "synthid (ex_head 2 1000)"]
  have "\<exists>h. Open struc_be ex_aead (ps_hh ex_pss) t = Ok (Some h) \<and> token_age (hh_Time h) 1000 \<le> 120"
    by (auto simp: bearer_def auth)
  with serve show ?thesis by blast
qed

section \<open>The life of a token and of the replay window\<close>

text \<open>One request after the other, at given times; \<open>None\<close> when one of them is not admitted.\<close>

fun admit_all :: "'f cuckoo_lib \<Rightarrow> (int \<times> HttpHeaderHolder) list \<Rightarrow> 'f ProviderServerSide \<Rightarrow> 'f ProviderServerSide option" where
  "admit_all C [] pss = Some pss"
| "admit_all C ((now, h) # rs) pss =
     (if 120 < token_age (hh_Time h) now then None
      else case parpareforconnection C (\<lambda>_. True) now h pss of
             Ok (Some _, pss') \<Rightarrow> admit_all C rs pss'
           | _ \<Rightarrow> None)"

text \<open>
  A token can be used twice. It lives for 120 seconds, but the replay window of a session keeps a
  random value for 119 seconds at least and not always longer: a token made and used at second 999
  of a session that began at second 881 is admitted again at second 1119, with all clocks in step.
\<close>

theorem http_token_replayed:
  "\<exists>pss'. admit_all list_filter
     [(881, ex_head 7 881), (999, ex_head 8 999), (1000, ex_head 9 1000), (1119, ex_head 8 999)]
     (NewProviderServerSide [5]) = Some pss'"
  by (simp add: parpareforconnection_def NewProviderServerSide_def ex_head_def LoadOrStore_def synthid_def
      new_session_def NewAntiReplayWindow_def window_defs token_age_def)

section \<open>Sessions are never removed\<close>

inductive http_server_steps :: "'f ProviderServerSide \<Rightarrow> 'f ProviderServerSide \<Rightarrow> bool" where
  hs_refl: "http_server_steps pss pss"
| hs_serve: "http_server_steps pss pss' \<Longrightarrow> ServeHTTP S A C upper upgrade now r pss' = Ok (reply, pss'') \<Longrightarrow>
    http_server_steps pss pss''"
| hs_abs: "http_server_steps pss pss' \<Longrightarrow> StartAbs_step S A C upper now accepted pss' = Ok (res, pss'') \<Longrightarrow>
    http_server_steps pss pss''"
| hs_close: "http_server_steps pss pss' \<Longrightarrow> http_server_steps pss (ProviderConnServerSide_Close k pss')"

lemma serve_keeps:
  assumes "ServeHTTP S A C upper upgrade now r pss = Ok (reply, pss')"
  shows "dom (ps_clientSet pss) \<subseteq> dom (ps_clientSet pss')"
proof -
  obtain tok where b: "bearer (ps_authlocation pss) r = Ok tok"
    using assms by (auto simp: ServeHTTP_def)
  have "pss' = pss \<or> (\<exists>h. serve_session C upper upgrade now (rq_method r) h pss = Ok (reply, pss'))"
    using assms b
    by (cases tok; cases "Open S A (ps_hh pss) (the tok)")
       (auto simp: ServeHTTP_def serve_opened_def split: option.splits if_splits)
  then show ?thesis
    using parpareforconnection_keeps by (fastforce simp: serve_session_def case_prod_beta)
qed

lemma abs_keeps:
  assumes "StartAbs_step S A C upper now accepted pss = Ok (res, pss')"
  shows "dom (ps_clientSet pss) \<subseteq> dom (ps_clientSet pss')"
proof -
  let ?open = "Open S A (ps_hh pss) (case accepted of None \<Rightarrow> [] | Some t \<Rightarrow> t)"
  have "pss' = pss \<or> (\<exists>h res'. parpareforconnection C upper now h pss = Ok (res', pss'))"
    using assms
    by (cases ?open) (auto simp: StartAbs_step_def split: option.splits if_splits)
  then show ?thesis
    using parpareforconnection_keeps by blast
qed

text \<open>
  A session is never removed: \<open>Close\<close> deletes under a key that is not in the table, so whatever
  requests, accepted streams and closes follow, every session the server ever made stays in its
  table, also the closed ones.
\<close>

theorem http_sessions_never_removed:
  assumes "http_server_steps pss pss'" and "KeyString k \<in> dom (ps_clientSet pss)"
  shows "KeyString k \<in> dom (ps_clientSet pss')"
  using assms
proof (induction rule: http_server_steps.induct)
  case (hs_serve pss pss' S A C upper upgrade now r reply pss'')
  then show ?case using serve_keeps by blast
next
  case (hs_abs pss pss' S A C upper now accepted res pss'')
  then show ?case using abs_keeps by blast
next
  case (hs_close pss pss' i)
  then show ?case
    by (auto simp: ProviderConnServerSide_Close_def Delete_def split: option.splits)
qed simp

definition ex_session :: "(nat \<times> bytes list) ProviderServerSide" where
  "ex_session = ex_pss\<lparr>ps_clientSet := [KeyString [4] \<mapsto> new_session (ex_head 2 1000)]\<rparr>"

theorem http_sessions_never_removed_witness:
  "KeyString [4] \<in> dom (ps_clientSet (ProviderConnServerSide_Close [4] ex_session))"
  by (rule http_sessions_never_removed [OF hs_close [OF hs_refl]]) (simp add: ex_session_def)

end
