(* ===== verification/StreamMux.thy ===== *)
theory StreamMux
  imports ClientWorker Maskers
begin

text \<open>
  Three places where several flows share one carrier:
  \<^item> \<^verbatim>\<open>transport/filteredConn/conn.go\<close>, which puts tagged packets and an inner connection (channel 0) on
    one connection and asks for more capacity when there is traffic;
  \<^item> \<^verbatim>\<open>ass/udpconn2tun/udp.go\<close>, which gives the local UDP sockets of the client their packets by port;
  \<^item> the dial header of a relayed TCP stream (\<^verbatim>\<open>workers/tcp/tcpClient\<close>, \<^verbatim>\<open>workers/tcp/tcpServer\<close>).
\<close>

section \<open>The filtered connection\<close>

record FilteredConn =
  fc_conn :: dgram_conn
  fc_TxDataChannel :: "TrafficWithChannelTag chan"
  fc_RxChannel :: "TrafficWithChannelTag chan"
  fc_packetSent :: u64
  fc_packetRecv :: u64
  fc_cancelled :: bool

definition NewFilteredConn ::
  "dgram_conn \<Rightarrow> TrafficWithChannelTag chan \<Rightarrow> TrafficWithChannelTag chan \<Rightarrow> FilteredConn" where
  "NewFilteredConn conn tx rx =
     \<lparr>fc_conn = conn, fc_TxDataChannel = tx, fc_RxChannel = rx, fc_packetSent = 0, fc_packetRecv = 0,
      fc_cancelled = False\<rparr>"

datatype filtered_error = ConnError io_error | CtxError

text \<open>
  \<open>Read\<close> into a buffer of \<open>blen\<close> bytes: packets of other channels go to the data channel on the way.
  A header that does not parse is only logged. The length returned is that of the packet.
  \<open>pickDone\<close> is what the select takes when the context has ended and the channel has room.
\<close>

function FilteredConn_Read ::
  "struc_lib \<Rightarrow> bool \<Rightarrow> nat \<Rightarrow> FilteredConn \<Rightarrow> (filtered_error + bytes \<times> nat) \<times> FilteredConn" where
  "FilteredConn_Read S pickDone blen fc =
     (case conn_Read 65536 (fc_conn fc) of
        (Inl e, c) \<Rightarrow> (Inl (ConnError e), fc\<lparr>fc_conn := c, fc_cancelled := True\<rparr>)
      | (Inr data, c) \<Rightarrow>
          (let fc1 = fc\<lparr>fc_conn := c, fc_packetRecv := fc_packetRecv fc + 1\<rparr>;
               (_, vs, s) = struc_Unpack S DataHeader_layout data;
               channel = DataHeader_of vs
           in if channel = 0 then (Inr (take blen s, length s), fc1)
              else if fc_cancelled fc \<and> pickDone then (Inl CtxError, fc1)
              else FilteredConn_Read S pickDone blen
                     (fc1\<lparr>fc_RxChannel := chan_send (fc_RxChannel fc) (mk_traffic channel s)\<rparr>)))"
  by pat_completeness auto
termination FilteredConn_Read
  by (relation "measure (\<lambda>(S, pickDone, blen, fc). length (dc_in (fc_conn fc)))")
     (auto simp: conn_Read_def split: list.splits)

definition channel_frame :: "struc_lib \<Rightarrow> u16 \<Rightarrow> bytes \<Rightarrow> bytes" where
  "channel_frame S ch p = packed S DataHeader_layout (DataHeader_vals ch) @ p"

definition FilteredConn_Write :: "struc_lib \<Rightarrow> bytes \<Rightarrow> FilteredConn \<Rightarrow> (io_error + nat) \<times> FilteredConn" where
  "FilteredConn_Write S p fc =
     (let (err, c) = conn_Write (channel_frame S 0 p) (fc_conn fc)
      in (case err of None \<Rightarrow> Inr (length p) | Some e \<Rightarrow> Inl e,
          fc\<lparr>fc_conn := c, fc_packetSent := fc_packetSent fc + 1\<rparr>))"

text \<open>A turn of \<open>WriteC\<close> with a packet; an error of the write is only logged.\<close>

definition WriteC_step :: "struc_lib \<Rightarrow> FilteredConn \<Rightarrow> FilteredConn" where
  "WriteC_step S fc =
     (case chan_recv (fc_TxDataChannel fc) of
        None \<Rightarrow> fc
      | Some (data, ch) \<Rightarrow>
          fc\<lparr>fc_TxDataChannel := ch,
             fc_conn := snd (conn_Write (channel_frame S (tr_Channel data) (tr_Payload data)) (fc_conn fc)),
             fc_packetSent := fc_packetSent fc + 1\<rparr>)"

text \<open>A tick of \<open>connectionBoostRequester\<close>: the counters of the last tick, the traffic score, and whether a boost is requested.\<close>

record boost_requester =
  br_sent :: u64
  br_recv :: u64
  br_HiTrafficCounter :: int

definition connectionBoostRequester_tick :: "FilteredConn \<Rightarrow> boost_requester \<Rightarrow> bool \<times> boost_requester" where
  "connectionBoostRequester_tick fc b =
     (let trafficFlow = (fc_packetSent fc + fc_packetRecv fc) - (br_sent b + br_recv b);
          b1 = b\<lparr>br_sent := fc_packetSent fc, br_recv := fc_packetRecv fc\<rparr>
      in if 4 < trafficFlow then
           (let n = br_HiTrafficCounter b + 1 + (if 8 < trafficFlow then 1 else 0) + (if 16 < trafficFlow then 1 else 0)
            in (3 < n, b1\<lparr>br_HiTrafficCounter := n\<rparr>))
         else (False, b1\<lparr>br_HiTrafficCounter := max 0 (br_HiTrafficCounter b div 2)\<rparr>))"

section \<open>The UDP mux of the client\<close>

text \<open>
  The table is filled under the port (an \<open>int\<close>) and cleared under the string of the address. A
  connection is closed by closing its channel.
\<close>

datatype tun_key = KeyPort int | KeyAddr string

record tun_conn =
  tn_remoteAddr :: udp_addr
  tn_readchan :: "UDPPacket chan"
  tn_closed :: bool

record UDPConn2Tun =
  tun_tracker :: "tun_key \<rightharpoonup> nat"
  tun_conns :: "nat \<rightharpoonup> tun_conn"
  tun_next :: nat
  tun_LocalRxFromTun :: "UDPPacket list"

definition NewUDPConn2Tun :: UDPConn2Tun where
  "NewUDPConn2Tun = \<lparr>tun_tracker = Map.empty, tun_conns = Map.empty, tun_next = 0, tun_LocalRxFromTun = []\<rparr>"

definition DialUDP :: "udp_addr \<Rightarrow> UDPConn2Tun \<Rightarrow> nat \<times> UDPConn2Tun" where
  "DialUDP ouraddr u =
     (let i = tun_next u
      in (i, u\<lparr>tun_conns := (tun_conns u)(i \<mapsto> \<lparr>tn_remoteAddr = ouraddr, tn_readchan = make_chan 8, tn_closed = False\<rparr>),
               tun_next := Suc i, tun_tracker := Store (tun_tracker u) (KeyPort (ua_Port ouraddr)) i\<rparr>))"

text \<open>A turn of \<open>RxLoop\<close>; a send on a closed channel panics, also under \<open>select\<close>.\<close>

definition RxLoop_step :: "UDPPacket \<Rightarrow> UDPConn2Tun \<Rightarrow> (unit, UDPConn2Tun) outcome" where
  "RxLoop_step pack u =
     (case Load (tun_tracker u) (KeyPort (ua_Port (up_Dest pack))) of
        None \<Rightarrow> Ok u
      | Some i \<Rightarrow>
          (case tun_conns u i of
             None \<Rightarrow> Ok u
           | Some vn \<Rightarrow>
               if tn_closed vn then Panic
               else Ok (u\<lparr>tun_conns := (tun_conns u)(i \<mapsto>
                      vn\<lparr>tn_readchan := fst (chan_try_send (tn_readchan vn) pack)\<rparr>)\<rparr>)))"

text \<open>\<open>ReadFrom\<close>: \<open>None\<close> for \<open>ErrClosedPipe\<close> (closed and drained, or 1200 seconds without a packet).\<close>

definition ReadFrom :: "nat \<Rightarrow> nat \<Rightarrow> UDPConn2Tun \<Rightarrow> (bytes \<times> nat \<times> udp_addr) option \<times> UDPConn2Tun" where
  "ReadFrom i blen u =
     (case tun_conns u i of
        None \<Rightarrow> (None, u)
      | Some c \<Rightarrow>
          (case chan_recv (tn_readchan c) of
             None \<Rightarrow> (None, u)
           | Some (by, ch) \<Rightarrow>
               (Some (take blen (up_Payload by), length (up_Payload by), up_Source by),
                u\<lparr>tun_conns := (tun_conns u)(i \<mapsto> c\<lparr>tn_readchan := ch\<rparr>)\<rparr>)))"

text \<open>\<open>WriteTo\<close> overwrites the address of the connection itself, which the packet shares.\<close>

definition WriteTo :: "nat \<Rightarrow> bytes \<Rightarrow> udp_addr \<Rightarrow> UDPConn2Tun \<Rightarrow> UDPConn2Tun" where
  "WriteTo i b addr u =
     (case tun_conns u i of
        None \<Rightarrow> u
      | Some c \<Rightarrow>
          (let zero = (if To4 (ua_IP addr) \<noteq> None then v4InV6Prefix @ replicate 4 0 else replicate 16 0);
               XSource = (tn_remoteAddr c)\<lparr>ua_IP := zero\<rparr>
           in u\<lparr>tun_conns := (tun_conns u)(i \<mapsto> c\<lparr>tn_remoteAddr := XSource\<rparr>),
                tun_LocalRxFromTun := tun_LocalRxFromTun u @
                  [\<lparr>up_Source = XSource, up_Dest = addr, up_Payload = b\<rparr>]\<rparr>))"

definition tun_Close :: "nat \<Rightarrow> UDPConn2Tun \<Rightarrow> (unit, UDPConn2Tun) outcome" where
  "tun_Close i u =
     (case tun_conns u i of
        None \<Rightarrow> Ok u
      | Some c \<Rightarrow>
          if tn_closed c then Panic
          else Ok (u\<lparr>tun_tracker := Delete (tun_tracker u) (KeyAddr (udp_string (tn_remoteAddr c))),
                     tun_conns := (tun_conns u)(i \<mapsto> c\<lparr>tn_closed := True\<rparr>)\<rparr>))"

section \<open>The dial header of a TCP stream\<close>

definition WriteTcpDialHeader :: "struc_lib \<Rightarrow> bytes \<Rightarrow> u16 \<Rightarrow> bytes" where
  "WriteTcpDialHeader S destHost destPort =
     packed S CommandHeader_layout (CommandHeader_vals CommandByte_Stream_ConnectDomain) @
     packed S StreamConnectDomainHeader_layout
       (StreamConnectDomainHeader_vals \<lparr>sc_DestDomain = destHost, sc_DestPort = destPort\<rparr>)"

text \<open>The client's dialer writes the length, cut to 16 bits, and then the header.\<close>

definition dial_stream_writes :: "struc_lib \<Rightarrow> bytes \<Rightarrow> u16 \<Rightarrow> bytes list" where
  "dial_stream_writes S address port =
     (let w = WriteTcpDialHeader S address port
      in [packed S StreamConnectDomainHeaderLen_layout (DataHeader_vals (of_nat (length w))), w])"

text \<open>\<open>ParseHeader\<close>: \<open>None\<close> when it gives up; the rest of the stream stays in the reader.\<close>

definition ParseHeader :: "struc_lib \<Rightarrow> reader \<Rightarrow> (StreamConnectDomainHeader \<times> reader) option" where
  "ParseHeader S conn =
     (case Read_into 2 conn of
        (Inl e, _) \<Rightarrow> None
      | (Inr w, conn1) \<Rightarrow>
          (let (ok, vs, _) = struc_Unpack S StreamConnectDomainHeaderLen_layout w;
               datalen = unat (DataHeader_of vs)
           in if \<not> ok then None
              else
                let (body, rest) = limit_chunks datalen (rd_chunks conn1)
                in if length body < datalen then None
                   else
                     let (ok1, _, sw) = struc_Unpack S CommandHeader_layout body
                     in if \<not> ok1 then None
                        else
                          let (ok2, vs2, _) = struc_Unpack S StreamConnectDomainHeader_layout sw
                          in if \<not> ok2 then None
                             else Some (StreamConnectDomainHeader_of vs2, conn1\<lparr>rd_chunks := rest\<rparr>)))"

declare FilteredConn_Read.simps [simp del]

section \<open>The filtered connection separates its channels\<close>

definition tagged_ok :: "TrafficWithChannelTag \<Rightarrow> bool" where
  "tagged_ok t \<longleftrightarrow> tr_Channel t \<noteq> 0 \<and> length (tr_Payload t) + 2 \<le> 65536"

definition tagged_frame :: "struc_lib \<Rightarrow> TrafficWithChannelTag \<Rightarrow> bytes" where
  "tagged_frame S t = channel_frame S (tr_Channel t) (tr_Payload t)"

lemma channel_frame_facts:
  assumes "struc_laws S"
  shows "length (channel_frame S c p) = 2 + length p"
    "struc_Unpack S DataHeader_layout (channel_frame S c p) = (True, DataHeader_vals c, p)"
  using assms by (simp_all add: channel_frame_def)

lemma mk_traffic_eta [simp]: "mk_traffic (tr_Channel t) (tr_Payload t) = t"
  by (cases t) (simp add: mk_traffic_def)

lemma unat_of_nat_u16: "n < 65536 \<Longrightarrow> unat (of_nat n :: u16) = n"
  by (simp add: unat_of_nat)

text \<open>The writer puts the frames of its channel on the connection, in order.\<close>

lemma WriteC_steps:
  assumes "ch_buf (fc_TxDataChannel fc) = ts @ rest" and "dc_wrerr (fc_conn fc) = None"
  shows "\<exists>n. (WriteC_step S ^^ length ts) fc = fc\<lparr>fc_TxDataChannel := (fc_TxDataChannel fc)\<lparr>ch_buf := rest\<rparr>,
     fc_conn := (fc_conn fc)\<lparr>dc_out := dc_out (fc_conn fc) @ map (tagged_frame S) ts\<rparr>, fc_packetSent := n\<rparr>"
  using assms
proof (induction ts arbitrary: fc)
  case Nil
  then show ?case by (intro exI [of _ "fc_packetSent fc"]) simp
next
  case (Cons t ts)
  let ?fc = "WriteC_step S fc"
  have step: "?fc = fc\<lparr>fc_TxDataChannel := (fc_TxDataChannel fc)\<lparr>ch_buf := ts @ rest\<rparr>,
      fc_conn := (fc_conn fc)\<lparr>dc_out := dc_out (fc_conn fc) @ [tagged_frame S t]\<rparr>, fc_packetSent := fc_packetSent fc + 1\<rparr>"
    using Cons.prems by (simp add: WriteC_step_def chan_recv_def conn_Write_def tagged_frame_def)
  then have "ch_buf (fc_TxDataChannel ?fc) = ts @ rest" "dc_wrerr (fc_conn ?fc) = None"
    using Cons.prems(2) by simp_all
  from Cons.IH [OF this] show ?case
    by (simp add: funpow_swap1 step)
qed

text \<open>The reader hands tagged packets on until it meets one of channel 0.\<close>

lemma Read_tagged:
  assumes "struc_laws S" and "dc_in (fc_conn fc) = tagged_frame S t # ds" and "tagged_ok t" and "\<not> fc_cancelled fc"
  shows "FilteredConn_Read S pickDone blen fc = FilteredConn_Read S pickDone blen
     (fc\<lparr>fc_conn := (fc_conn fc)\<lparr>dc_in := ds\<rparr>, fc_packetRecv := fc_packetRecv fc + 1,
        fc_RxChannel := chan_send (fc_RxChannel fc) t\<rparr>)"
proof -
  have "take 65536 (tagged_frame S t) = tagged_frame S t"
    using assms(1,3) by (simp add: tagged_frame_def channel_frame_facts tagged_ok_def)
  then show ?thesis
    using assms(2-4) channel_frame_facts(2) [OF assms(1)]
    by (subst FilteredConn_Read.simps) (simp add: conn_Read_def tagged_frame_def tagged_ok_def)
qed

lemma Read_control:
  assumes "struc_laws S" and "dc_in (fc_conn fc) = channel_frame S 0 p # ds" and "length p + 2 \<le> 65536"
  shows "FilteredConn_Read S pickDone blen fc =
     (Inr (take blen p, length p), fc\<lparr>fc_conn := (fc_conn fc)\<lparr>dc_in := ds\<rparr>, fc_packetRecv := fc_packetRecv fc + 1\<rparr>)"
proof -
  have "take 65536 (channel_frame S 0 p) = channel_frame S 0 p"
    using assms(1,3) by (simp add: channel_frame_facts)
  then show ?thesis
    using assms(2) channel_frame_facts(2) [OF assms(1)]
    by (subst FilteredConn_Read.simps) (simp add: conn_Read_def)
qed

lemma Read_mixed:
  assumes "struc_laws S" and "dc_in (fc_conn fc) = map (tagged_frame S) ts @ channel_frame S 0 p # ds"
    and "\<And>t. t \<in> set ts \<Longrightarrow> tagged_ok t" and "length p + 2 \<le> 65536" and "\<not> fc_cancelled fc"
  shows "\<exists>fc'. FilteredConn_Read S pickDone blen fc = (Inr (take blen p, length p), fc') \<and>
     ch_buf (fc_RxChannel fc') = ch_buf (fc_RxChannel fc) @ ts \<and> dc_in (fc_conn fc') = ds"
  using assms(2,3,5)
proof (induction ts arbitrary: fc)
  case Nil
  then show ?case using Read_control [OF assms(1) _ assms(4)] by simp
next
  case (Cons t ts)
  let ?fc = "fc\<lparr>fc_conn := (fc_conn fc)\<lparr>dc_in := map (tagged_frame S) ts @ channel_frame S 0 p # ds\<rparr>,
      fc_packetRecv := fc_packetRecv fc + 1, fc_RxChannel := chan_send (fc_RxChannel fc) t\<rparr>"
  have "FilteredConn_Read S pickDone blen fc = FilteredConn_Read S pickDone blen ?fc"
    using Read_tagged [OF assms(1), of fc t] Cons.prems by simp
  moreover have "\<exists>fc'. FilteredConn_Read S pickDone blen ?fc = (Inr (take blen p, length p), fc') \<and>
      ch_buf (fc_RxChannel fc') = ch_buf (fc_RxChannel ?fc) @ ts \<and> dc_in (fc_conn fc') = ds"
    by (rule Cons.IH) (use Cons.prems in simp_all)
  ultimately show ?case by simp
qed

text \<open>C25.
  The filtered connection separates what shares it. One side sends the tagged packets waiting in
  its data channel and then a packet of the inner connection; from these datagrams the other
  side's \<open>Read\<close> returns the packet of the inner connection, and its data channel has received the
  tagged packets, with their channels and in order, and nothing else.
\<close>

theorem filtered_conn_separates:
  assumes "struc_laws S" and "ch_buf (fc_TxDataChannel a) = ts" and "\<And>t. t \<in> set ts \<Longrightarrow> tagged_ok t"
    and "dc_wrerr (fc_conn a) = None" and "dc_out (fc_conn a) = []" and "length p + 2 \<le> 65536"
    and "\<not> fc_cancelled b"
  shows "\<exists>a' b'. FilteredConn_Write S p ((WriteC_step S ^^ length ts) a) = (Inr (length p), a') \<and>
     FilteredConn_Read S pickDone blen (b\<lparr>fc_conn := (fc_conn b)\<lparr>dc_in := dc_out (fc_conn a')\<rparr>\<rparr>) =
       (Inr (take blen p, length p), b') \<and>
     ch_buf (fc_RxChannel b') = ch_buf (fc_RxChannel b) @ ts \<and> dc_in (fc_conn b') = []"
proof -
  obtain n where n: "(WriteC_step S ^^ length ts) a = a\<lparr>fc_TxDataChannel := (fc_TxDataChannel a)\<lparr>ch_buf := []\<rparr>,
      fc_conn := (fc_conn a)\<lparr>dc_out := map (tagged_frame S) ts\<rparr>, fc_packetSent := n\<rparr>"
    using WriteC_steps [of a ts "[]" S] assms(2,4,5) by auto
  let ?a = "(WriteC_step S ^^ length ts) a"
  let ?out = "map (tagged_frame S) ts @ [channel_frame S 0 p]"
  obtain a' where a': "FilteredConn_Write S p ?a = (Inr (length p), a')" "dc_out (fc_conn a') = ?out"
    unfolding n using assms(4) by (simp add: FilteredConn_Write_def conn_Write_def)
  let ?b = "b\<lparr>fc_conn := (fc_conn b)\<lparr>dc_in := ?out\<rparr>\<rparr>"
  have "\<exists>b'. FilteredConn_Read S pickDone blen ?b = (Inr (take blen p, length p), b') \<and>
     ch_buf (fc_RxChannel b') = ch_buf (fc_RxChannel ?b) @ ts \<and> dc_in (fc_conn b') = []"
    by (rule Read_mixed [OF assms(1) _ assms(3) assms(6)]) (use assms(7) in simp_all)
  with a' show ?thesis by fastforce
qed

definition ex_dgram :: dgram_conn where
  "ex_dgram = \<lparr>dc_in = [], dc_rderr = ReadError, dc_out = [], dc_wrerr = None,
     dc_rd_deadline = 0, dc_wr_deadline = 0, dc_closed = False\<rparr>"

theorem filtered_conn_separates_witness:
  "\<exists>a' b'. FilteredConn_Write struc_be [9]
       (WriteC_step struc_be (NewFilteredConn ex_dgram (chan_send (make_chan 4) (mk_traffic 7 [1, 2])) (make_chan 4))) = (Inr 1, a') \<and>
     FilteredConn_Read struc_be False 1500
       (NewFilteredConn (ex_dgram\<lparr>dc_in := dc_out (fc_conn a')\<rparr>) (make_chan 4) (make_chan 4)) = (Inr ([9], 1), b') \<and>
     ch_buf (fc_RxChannel b') = [mk_traffic 7 [1, 2]]"
proof -
  let ?a = "NewFilteredConn ex_dgram (chan_send (make_chan 4) (mk_traffic 7 [1, 2])) (make_chan 4)"
  let ?b = "NewFilteredConn ex_dgram (make_chan 4) (make_chan 4)"
  have 1: "ch_buf (fc_TxDataChannel ?a) = [mk_traffic 7 [1, 2]]" "\<And>t. t \<in> set [mk_traffic 7 [1, 2]] \<Longrightarrow> tagged_ok t"
    "dc_wrerr (fc_conn ?a) = None" "dc_out (fc_conn ?a) = []" "length ([9] :: bytes) + 2 \<le> 65536" "\<not> fc_cancelled ?b"
    by (simp_all add: NewFilteredConn_def tagged_ok_def ex_dgram_def)
  have 2: "?b\<lparr>fc_conn := (fc_conn ?b)\<lparr>dc_in := d\<rparr>\<rparr> = NewFilteredConn (ex_dgram\<lparr>dc_in := d\<rparr>) (make_chan 4) (make_chan 4)" for d
    by (simp add: NewFilteredConn_def)
  have 3: "ch_buf (fc_RxChannel ?b) = []"
    by (simp add: NewFilteredConn_def)
  from filtered_conn_separates [OF struc_be_laws 1, of False 1500] show ?thesis
    unfolding 2 3 by auto
qed

text \<open>Two seconds with more than 16 packets each bring a boost request.\<close>

lemma boost_after_two_busy_seconds:
  assumes "16 < (fc_packetSent f1 + fc_packetRecv f1) - (br_sent b + br_recv b)"
    and "16 < (fc_packetSent f2 + fc_packetRecv f2) - (fc_packetSent f1 + fc_packetRecv f1)"
    and "0 \<le> br_HiTrafficCounter b"
  shows "fst (connectionBoostRequester_tick f2 (snd (connectionBoostRequester_tick f1 b)))"
proof -
  have "(8 :: u64) < 16" "(4 :: u64) < 16" by code_simp+
  then have "8 < x \<and> 4 < x" if "16 < x" for x :: u64
    using that by (meson order.strict_trans)
  with assms show ?thesis
    by (simp add: connectionBoostRequester_tick_def Let_def)
qed

section \<open>The UDP mux\<close>

text \<open>
  Closing a local UDP socket leaves its port in the table, since the entry is deleted under
  another key, and the next packet from the tunnel for that port panics the loop that serves all
  sockets: it sends on the closed channel. Before the close the packet is queued for the socket.
\<close>

theorem tun_packet_after_close_panics:
  assumes "DialUDP addr u = (i, u1)" and "tun_Close i u1 = Ok u2" and "ua_Port (up_Dest pack) = ua_Port addr"
  shows "RxLoop_step pack u2 = Panic \<and>
     (\<exists>u1'. RxLoop_step pack u1 = Ok u1' \<and> fst (ReadFrom i blen u1') =
        Some (take blen (up_Payload pack), length (up_Payload pack), up_Source pack))"
  using assms
  by (auto simp: DialUDP_def tun_Close_def RxLoop_step_def ReadFrom_def Let_def chan_recv_def chan_try_send_def)

theorem tun_packet_after_close_panics_witness:
  "\<exists>u1 u2. DialUDP (mk_addr [127, 0, 0, 1] 53) NewUDPConn2Tun = (0, u1) \<and> tun_Close 0 u1 = Ok u2 \<and>
     RxLoop_step \<lparr>up_Source = mk_addr [8, 8, 8, 8] 53, up_Dest = mk_addr [0, 0, 0, 0] 53, up_Payload = [1]\<rparr> u2 = Panic"
proof -
  let ?pack = "\<lparr>up_Source = mk_addr [8, 8, 8, 8] 53, up_Dest = mk_addr [0, 0, 0, 0] 53, up_Payload = [1]\<rparr>"
  have "\<exists>u1. DialUDP (mk_addr [127, 0, 0, 1] 53) NewUDPConn2Tun = (0, u1) \<and> (\<exists>u2. tun_Close 0 u1 = Ok u2)"
    by (simp add: DialUDP_def NewUDPConn2Tun_def tun_Close_def Let_def)
  then obtain u1 u2 where u: "DialUDP (mk_addr [127, 0, 0, 1] 53) NewUDPConn2Tun = (0, u1)" "tun_Close 0 u1 = Ok u2"
    by blast
  have "RxLoop_step ?pack u2 = Panic"
    using tun_packet_after_close_panics [OF u, of ?pack 1500] by (simp add: mk_addr_def)
  with u show ?thesis by blast
qed

section \<open>The dial header\<close>

text \<open>
  The dial header of a relayed TCP stream: what the client's dialer writes, followed by any data,
  is parsed by the server to the same domain and port, for every domain whose header fits the 16 bit
  length, and the data stays in the stream.
\<close>

lemma ParseHeader_dial:
  assumes "struc_laws S" and "length host \<le> 65530"
  shows "ParseHeader S \<lparr>rd_chunks = dial_stream_writes S host port @ data, rd_end = e\<rparr> =
     Some (\<lparr>sc_DestDomain = host, sc_DestPort = port\<rparr>, \<lparr>rd_chunks = data, rd_end = e\<rparr>)"
proof -
  let ?w = "WriteTcpDialHeader S host port"
  have len: "length ?w = 5 + length host"
    using assms by (simp add: WriteTcpDialHeader_def)
  then have unat: "unat (of_nat (length ?w) :: u16) = length ?w"
    using assms(2) by (intro unat_of_nat_u16) simp
  have limit: "limit_chunks (length ?w) (?w # data) = (?w, data)"
    using len by (cases data) auto
  show ?thesis
    using assms unat limit
    by (simp add: ParseHeader_def dial_stream_writes_def Read_into_def Let_def)
       (simp add: WriteTcpDialHeader_def)
qed

end
