(* ===== verification/Options.thy ===== *)
theory Options
  imports UdpUni
begin

text \<open>
  The contexts that carry the options of the program: the keys and value types of
  \<^verbatim>\<open>interfaces/opt.go\<close> and \<^verbatim>\<open>interfaces/dialer.go\<close>, \<open>WithValue\<close>, \<open>WithCancel\<close>, and the reads with a type
  assertion, which panic on a value of another dynamic type. Also the identity of a connection on
  the message bus, \<^verbatim>\<open>interfaces/ibus\<close>: \<open>connidutil\<close>, \<open>ibusTopic\<close> and \<open>ibusInterface\<close>.
\<close>

section \<open>Keys and values\<close>

datatype option_key =
    ExtraOptionsUDPTimeoutTime
  | ExtraOptionsMessageBus
  | ExtraOptionsMessageBusByConn
  | ExtraOptionsConnID
  | ExtraOptionsBoostConnectionSettingsHTTPTransport
  | ExtraOptionsHTTPTransportConnIsBoostConnection
  | ExtraOptionsBoostConnectionGracefulShutdownRequest
  | ExtraOptionsBoostConnectionShouldNotRedial
  | ExtraOptionsFECPacketAssemblyOpt
  | ExtraOptionsUDPFECEnabled
  | ExtraOptionsHTTPUseSystemHTTPProxy
  | ExtraOptionsHTTPNetworkBufferSize
  | ExtraOptionsHTTPUseSystemSocksProxy
  | ExtraOptionsHTTPDialAddr
  | ExtraOptionsUniConnAttrib
  | ExtraOptionsUseWebSocketInsteadOfHTTP
  | ExtraOptionsUDPInitialData
  | ExtraOptionsHTTPServerStreamRelay
  | ExtraOptionsHTTPClientDialAlternativeChannel
  | ExtraOptionsUDPShouldMask
  | ExtraOptionsUDPMask
  | ExtraOptionsAbstractDialer
  | ExtraOptionsAbstractListener
  | ExtraOptionsDisableFEC
  | ExtraOptionsUsePacketArmor
  | ExtraOptionsDisableAutoQuitForClient
  | ExtraOptionsLocalUDPBindPort

text \<open>The keys are strings; two of them are not spelled like their constant.\<close>

fun key_string :: "option_key \<Rightarrow> string" where
  "key_string ExtraOptionsUDPTimeoutTime = ''ExtraOptionsUDPTimeoutTime''"
| "key_string ExtraOptionsMessageBus = ''ExtraOptionsMessageBus''"
| "key_string ExtraOptionsMessageBusByConn = ''ExtraOptionsMessageBusByConn''"
| "key_string ExtraOptionsConnID = ''ExtraOptionsConnID''"
| "key_string ExtraOptionsBoostConnectionSettingsHTTPTransport = ''ExtraOptionsBoostConnectionSettingsHTTPTransport''"
| "key_string ExtraOptionsHTTPTransportConnIsBoostConnection = ''ExtraOptionsHTTPTransportConnIsBoostConnection''"
| "key_string ExtraOptionsBoostConnectionGracefulShutdownRequest = ''ExtraOptionsBoostConnectionGracefulShutdownRequest''"
| "key_string ExtraOptionsBoostConnectionShouldNotRedial = ''ExtraOptionsBoostConnectionShouldNotRedial''"
| "key_string ExtraOptionsFECPacketAssemblyOpt = ''ExtraOptionsFECPacketAssemblyOpt''"
| "key_string ExtraOptionsUDPFECEnabled = ''ExtraOptionsUDPFECEnabled''"
| "key_string ExtraOptionsHTTPUseSystemHTTPProxy = ''ExtraOptionsHTTPUseSystemHTTPProxy''"
| "key_string ExtraOptionsHTTPNetworkBufferSize = ''ExtraOptionsHTTPNetworkBufferSize''"
| "key_string ExtraOptionsHTTPUseSystemSocksProxy = ''ExtraOptionsHTTPUseSystemSocksProxy''"
| "key_string ExtraOptionsHTTPDialAddr = ''ExtraOptionsHTTPDialAddr''"
| "key_string ExtraOptionsUniConnAttrib = ''ExtraOptionsUniConnAttrib''"
| "key_string ExtraOptionsUseWebSocketInsteadOfHTTP = ''ExtraOptionsUseWebSocketInsteadOfHTTP''"
| "key_string ExtraOptionsUDPInitialData = ''ExtraOptionsUDPInitialData''"
| "key_string ExtraOptionsHTTPServerStreamRelay = ''ExtraOptionsHTTPServerStreamRelay''"
| "key_string ExtraOptionsHTTPClientDialAlternativeChannel = ''ExtraOptionsHTTPClientDialAlternativeChannel''"
| "key_string ExtraOptionsUDPShouldMask = ''ExtraOptionsUDPShouldMask''"
| "key_string ExtraOptionsUDPMask = ''ExtraOptionsUDPMask''"
| "key_string ExtraOptionsAbstractDialer = ''ExtraOptionsUseAbstractDialer''"
| "key_string ExtraOptionsAbstractListener = ''ExtraOptionsUseAbstractListener''"
| "key_string ExtraOptionsDisableFEC = ''ExtraOptionsDisableFEC''"
| "key_string ExtraOptionsUsePacketArmor = ''ExtraOptionsUsePacketArmor''"
| "key_string ExtraOptionsDisableAutoQuitForClient = ''ExtraOptionsDisableAutoQuitForClient''"
| "key_string ExtraOptionsLocalUDPBindPort = ''ExtraOptionsLocalUDPBindPort''"

text \<open>
  The values with their dynamic types. A bus, a stream relay, an abstract dialer or listener, a
  channel and a redial flag are references, given by a number.
\<close>

datatype option_value =
    OV_bool bool
  | OV_string bytes
  | OV_bytes bytes
  | OV_Bus nat
  | OV_UDPTimeoutTime int
  | OV_BoostConnectionSettings int int
  | OV_GracefulShutdownRequest nat
  | OV_ShouldNotRedial nat
  | OV_FECPacketAssemblyOpt int int
  | OV_HTTPNetworkBufferSize int
  | OV_HTTPDialAddr bytes
  | OV_UniConnAttrib ExtraOptionsUniConnAttribValue
  | OV_UDPInitialData bytes
  | OV_HTTPServerStreamRelay nat
  | OV_AbstractDialer nat bool
  | OV_AbstractListener nat bool
  | OV_UsePacketArmor int bool
  | OV_LocalUDPBindPort u16

datatype option_type =
    T_bool | T_string | T_bytes | T_Bus | T_UDPTimeoutTime | T_BoostConnectionSettings
  | T_GracefulShutdownRequest | T_ShouldNotRedial | T_FECPacketAssemblyOpt | T_HTTPNetworkBufferSize
  | T_HTTPDialAddr | T_UniConnAttrib | T_UDPInitialData | T_HTTPServerStreamRelay | T_AbstractDialer
  | T_AbstractListener | T_UsePacketArmor | T_LocalUDPBindPort

fun value_type :: "option_value \<Rightarrow> option_type" where
  "value_type (OV_bool _) = T_bool"
| "value_type (OV_string _) = T_string"
| "value_type (OV_bytes _) = T_bytes"
| "value_type (OV_Bus _) = T_Bus"
| "value_type (OV_UDPTimeoutTime _) = T_UDPTimeoutTime"
| "value_type (OV_BoostConnectionSettings _ _) = T_BoostConnectionSettings"
| "value_type (OV_GracefulShutdownRequest _) = T_GracefulShutdownRequest"
| "value_type (OV_ShouldNotRedial _) = T_ShouldNotRedial"
| "value_type (OV_FECPacketAssemblyOpt _ _) = T_FECPacketAssemblyOpt"
| "value_type (OV_HTTPNetworkBufferSize _) = T_HTTPNetworkBufferSize"
| "value_type (OV_HTTPDialAddr _) = T_HTTPDialAddr"
| "value_type (OV_UniConnAttrib _) = T_UniConnAttrib"
| "value_type (OV_UDPInitialData _) = T_UDPInitialData"
| "value_type (OV_HTTPServerStreamRelay _) = T_HTTPServerStreamRelay"
| "value_type (OV_AbstractDialer _ _) = T_AbstractDialer"
| "value_type (OV_AbstractListener _ _) = T_AbstractListener"
| "value_type (OV_UsePacketArmor _ _) = T_UsePacketArmor"
| "value_type (OV_LocalUDPBindPort _) = T_LocalUDPBindPort"

text \<open>The type under which the program reads the value of a key.\<close>

fun key_type :: "option_key \<Rightarrow> option_type" where
  "key_type ExtraOptionsUDPTimeoutTime = T_UDPTimeoutTime"
| "key_type ExtraOptionsMessageBus = T_Bus"
| "key_type ExtraOptionsMessageBusByConn = T_Bus"
| "key_type ExtraOptionsConnID = T_bytes"
| "key_type ExtraOptionsBoostConnectionSettingsHTTPTransport = T_BoostConnectionSettings"
| "key_type ExtraOptionsHTTPTransportConnIsBoostConnection = T_bool"
| "key_type ExtraOptionsBoostConnectionGracefulShutdownRequest = T_GracefulShutdownRequest"
| "key_type ExtraOptionsBoostConnectionShouldNotRedial = T_ShouldNotRedial"
| "key_type ExtraOptionsFECPacketAssemblyOpt = T_FECPacketAssemblyOpt"
| "key_type ExtraOptionsUDPFECEnabled = T_bool"
| "key_type ExtraOptionsHTTPUseSystemHTTPProxy = T_bool"
| "key_type ExtraOptionsHTTPNetworkBufferSize = T_HTTPNetworkBufferSize"
| "key_type ExtraOptionsHTTPUseSystemSocksProxy = T_bool"
| "key_type ExtraOptionsHTTPDialAddr = T_HTTPDialAddr"
| "key_type ExtraOptionsUniConnAttrib = T_UniConnAttrib"
| "key_type ExtraOptionsUseWebSocketInsteadOfHTTP = T_bool"
| "key_type ExtraOptionsUDPInitialData = T_UDPInitialData"
| "key_type ExtraOptionsHTTPServerStreamRelay = T_HTTPServerStreamRelay"
| "key_type ExtraOptionsHTTPClientDialAlternativeChannel = T_bool"
| "key_type ExtraOptionsUDPShouldMask = T_bool"
| "key_type ExtraOptionsUDPMask = T_string"
| "key_type ExtraOptionsAbstractDialer = T_AbstractDialer"
| "key_type ExtraOptionsAbstractListener = T_AbstractListener"
| "key_type ExtraOptionsDisableFEC = T_bool"
| "key_type ExtraOptionsUsePacketArmor = T_UsePacketArmor"
| "key_type ExtraOptionsDisableAutoQuitForClient = T_bool"
| "key_type ExtraOptionsLocalUDPBindPort = T_LocalUDPBindPort"

section \<open>Contexts\<close>

text \<open>A context: its values, and the cancel functions that end it (its own and those of its parents).\<close>

record go_ctx =
  cx_values :: "option_key \<rightharpoonup> option_value"
  cx_cancels :: "nat list"

definition Background :: go_ctx where
  "Background = \<lparr>cx_values = Map.empty, cx_cancels = []\<rparr>"

definition WithValue :: "go_ctx \<Rightarrow> option_key \<Rightarrow> option_value \<Rightarrow> go_ctx" where
  "WithValue c k v = c\<lparr>cx_values := (cx_values c)(k \<mapsto> v)\<rparr>"

definition WithCancel :: "go_ctx \<Rightarrow> nat \<Rightarrow> go_ctx" where
  "WithCancel c n = c\<lparr>cx_cancels := n # cx_cancels c\<rparr>"

definition ctx_Err :: "nat set \<Rightarrow> go_ctx \<Rightarrow> bool" where
  "ctx_Err cancelled c \<longleftrightarrow> (\<exists>n\<in>set (cx_cancels c). n \<in> cancelled)"

text \<open>
  The two ways the program reads an option: with a default when the key is missing, and without.
  The projection \<open>f\<close> is the type assertion.
\<close>

definition ctx_opt :: "(option_value \<Rightarrow> 'a option) \<Rightarrow> 'a \<Rightarrow> option_key \<Rightarrow> go_ctx \<Rightarrow> ('e, 'a) outcome" where
  "ctx_opt f d k c =
     (case cx_values c k of
        None \<Rightarrow> Ok d
      | Some v \<Rightarrow> (case f v of None \<Rightarrow> Panic | Some a \<Rightarrow> Ok a))"

definition ctx_need :: "(option_value \<Rightarrow> 'a option) \<Rightarrow> option_key \<Rightarrow> go_ctx \<Rightarrow> ('e, 'a) outcome" where
  "ctx_need f k c =
     (case cx_values c k of
        None \<Rightarrow> Panic
      | Some v \<Rightarrow> (case f v of None \<Rightarrow> Panic | Some a \<Rightarrow> Ok a))"

fun as_bool :: "option_value \<Rightarrow> bool option" where
  "as_bool (OV_bool b) = Some b" | "as_bool _ = None"

fun as_string :: "option_value \<Rightarrow> bytes option" where
  "as_string (OV_string s) = Some s" | "as_string _ = None"

fun as_bytes :: "option_value \<Rightarrow> bytes option" where
  "as_bytes (OV_bytes s) = Some s" | "as_bytes _ = None"

fun as_Bus :: "option_value \<Rightarrow> nat option" where
  "as_Bus (OV_Bus b) = Some b" | "as_Bus _ = None"

fun as_BoostConnectionSettings :: "option_value \<Rightarrow> (int \<times> int) option" where
  "as_BoostConnectionSettings (OV_BoostConnectionSettings tx rx) = Some (tx, rx)"
| "as_BoostConnectionSettings _ = None"

fun as_ShouldNotRedial :: "option_value \<Rightarrow> nat option" where
  "as_ShouldNotRedial (OV_ShouldNotRedial n) = Some n" | "as_ShouldNotRedial _ = None"

fun as_HTTPNetworkBufferSize :: "option_value \<Rightarrow> int option" where
  "as_HTTPNetworkBufferSize (OV_HTTPNetworkBufferSize n) = Some n" | "as_HTTPNetworkBufferSize _ = None"

fun as_HTTPDialAddr :: "option_value \<Rightarrow> bytes option" where
  "as_HTTPDialAddr (OV_HTTPDialAddr a) = Some a" | "as_HTTPDialAddr _ = None"

fun as_UniConnAttrib :: "option_value \<Rightarrow> ExtraOptionsUniConnAttribValue option" where
  "as_UniConnAttrib (OV_UniConnAttrib a) = Some a" | "as_UniConnAttrib _ = None"

fun as_AbstractDialer :: "option_value \<Rightarrow> (nat \<times> bool) option" where
  "as_AbstractDialer (OV_AbstractDialer d u) = Some (d, u)" | "as_AbstractDialer _ = None"

fun as_AbstractListener :: "option_value \<Rightarrow> (nat \<times> bool) option" where
  "as_AbstractListener (OV_AbstractListener d u) = Some (d, u)" | "as_AbstractListener _ = None"

fun as_HTTPServerStreamRelay :: "option_value \<Rightarrow> nat option" where
  "as_HTTPServerStreamRelay (OV_HTTPServerStreamRelay r) = Some r" | "as_HTTPServerStreamRelay _ = None"

fun as_LocalUDPBindPort :: "option_value \<Rightarrow> u16 option" where
  "as_LocalUDPBindPort (OV_LocalUDPBindPort p) = Some p" | "as_LocalUDPBindPort _ = None"

section \<open>Well-typed contexts\<close>

text \<open>
  A context is well typed when every value it carries has the type its key is read with. In such a
  context no type assertion of the program fails.
\<close>

definition ctx_typed :: "go_ctx \<Rightarrow> bool" where
  "ctx_typed c \<longleftrightarrow> (\<forall>k v. cx_values c k = Some v \<longrightarrow> value_type v = key_type k)"

definition asserts :: "(option_value \<Rightarrow> 'a option) \<Rightarrow> option_type \<Rightarrow> bool" where
  "asserts f t \<longleftrightarrow> (\<forall>v. value_type v = t \<longrightarrow> f v \<noteq> None)"

named_theorems ctx_types \<open>typing rules of contexts and of the type assertions\<close>

lemma asserts_all [ctx_types, simp]:
  "asserts as_bool T_bool" "asserts as_string T_string" "asserts as_bytes T_bytes" "asserts as_Bus T_Bus"
  "asserts as_BoostConnectionSettings T_BoostConnectionSettings" "asserts as_ShouldNotRedial T_ShouldNotRedial"
  "asserts as_HTTPNetworkBufferSize T_HTTPNetworkBufferSize" "asserts as_HTTPDialAddr T_HTTPDialAddr"
  "asserts as_UniConnAttrib T_UniConnAttrib" "asserts as_AbstractDialer T_AbstractDialer"
  "asserts as_AbstractListener T_AbstractListener" "asserts as_HTTPServerStreamRelay T_HTTPServerStreamRelay"
  "asserts as_LocalUDPBindPort T_LocalUDPBindPort"
  by (auto simp: asserts_def elim: value_type.elims)

lemma ctx_typed_Background [ctx_types, simp]: "ctx_typed Background"
  by (simp add: ctx_typed_def Background_def)

lemma ctx_typed_WithValue [ctx_types, simp]:
  "value_type v = key_type k \<Longrightarrow> ctx_typed c \<Longrightarrow> ctx_typed (WithValue c k v)"
  by (simp add: ctx_typed_def WithValue_def)

lemma ctx_typed_WithCancel [ctx_types, simp]: "ctx_typed (WithCancel c n) \<longleftrightarrow> ctx_typed c"
  by (simp add: ctx_typed_def WithCancel_def)

lemma cx_values_simps [simp]:
  "cx_values Background = Map.empty"
  "cx_values (WithValue c k v) = (cx_values c)(k \<mapsto> v)"
  "cx_values (WithCancel c n) = cx_values c"
  "cx_cancels Background = []"
  "cx_cancels (WithValue c k v) = cx_cancels c"
  "cx_cancels (WithCancel c n) = n # cx_cancels c"
  by (simp_all add: Background_def WithValue_def WithCancel_def)

lemma ctx_opt_typed:
  assumes "ctx_typed c" and "asserts f (key_type k)"
  shows "\<exists>a. ctx_opt f d k c = Ok a"
  using assms by (fastforce simp: ctx_typed_def asserts_def ctx_opt_def split: option.splits)

lemma ctx_need_typed:
  assumes "ctx_typed c" and "asserts f (key_type k)" and "k \<in> dom (cx_values c)"
  shows "\<exists>a. ctx_need f k c = Ok a"
  using assms by (fastforce simp: ctx_typed_def asserts_def ctx_need_def split: option.splits)

text \<open>Different keys have different strings, so that no option hides another.\<close>

definition all_keys :: "option_key list" where
  "all_keys = [ExtraOptionsUDPTimeoutTime, ExtraOptionsMessageBus, ExtraOptionsMessageBusByConn, ExtraOptionsConnID,
     ExtraOptionsBoostConnectionSettingsHTTPTransport, ExtraOptionsHTTPTransportConnIsBoostConnection,
     ExtraOptionsBoostConnectionGracefulShutdownRequest, ExtraOptionsBoostConnectionShouldNotRedial,
     ExtraOptionsFECPacketAssemblyOpt, ExtraOptionsUDPFECEnabled, ExtraOptionsHTTPUseSystemHTTPProxy,
     ExtraOptionsHTTPNetworkBufferSize, ExtraOptionsHTTPUseSystemSocksProxy, ExtraOptionsHTTPDialAddr,
     ExtraOptionsUniConnAttrib, ExtraOptionsUseWebSocketInsteadOfHTTP, ExtraOptionsUDPInitialData,
     ExtraOptionsHTTPServerStreamRelay, ExtraOptionsHTTPClientDialAlternativeChannel, ExtraOptionsUDPShouldMask,
     ExtraOptionsUDPMask, ExtraOptionsAbstractDialer, ExtraOptionsAbstractListener, ExtraOptionsDisableFEC,
     ExtraOptionsUsePacketArmor, ExtraOptionsDisableAutoQuitForClient, ExtraOptionsLocalUDPBindPort]"

lemma all_keys_complete: "k \<in> set all_keys"
  by (cases k) (simp_all add: all_keys_def)

lemma key_string_inj: "key_string k = key_string k' \<longleftrightarrow> k = k'"
proof -
  have "distinct (map key_string all_keys)" by code_simp
  then have "inj_on key_string (set all_keys)" by (simp add: distinct_map)
  then show ?thesis using all_keys_complete by (auto dest: inj_onD)
qed

section \<open>Connections on the message bus\<close>

definition hex_digit :: "nat \<Rightarrow> byte" where
  "hex_digit d = of_nat (if d < 10 then 48 + d else 87 + d)"

definition hex_EncodeToString :: "bytes \<Rightarrow> bytes" where
  "hex_EncodeToString bs = concat (map (\<lambda>b. [hex_digit (unat b div 16), hex_digit (unat b mod 16)]) bs)"

definition regexp_meta :: bytes where
  "regexp_meta = [92, 46, 43, 42, 63, 40, 41, 124, 91, 93, 123, 125, 94, 36]"

definition ReplaceAll1 :: "byte \<Rightarrow> byte \<Rightarrow> bytes \<Rightarrow> bytes" where
  "ReplaceAll1 a b s = map (\<lambda>c. if c = a then b else c) s"

definition connIDToString :: "bytes \<Rightarrow> bytes" where
  "connIDToString connid =
     (if length connid = 24 then hex_EncodeToString connid
      else
        let noDot = ReplaceAll1 46 95 connid;
            noAny = ReplaceAll1 91 95 noDot;
            noAny2 = ReplaceAll1 93 95 noAny
        in if \<exists>c\<in>set noAny2. c \<in> set regexp_meta then hex_EncodeToString connid else noAny2)"

definition ConnIDToString :: "go_ctx \<Rightarrow> ('e, bytes) outcome" where
  "ConnIDToString c = bind_outcome (ctx_need as_bytes ExtraOptionsConnID c) (\<lambda>i. Ok (connIDToString i))"

definition MessageBusFromContext :: "go_ctx \<Rightarrow> ('e, nat) outcome" where
  "MessageBusFromContext c = ctx_need as_Bus ExtraOptionsMessageBus c"

definition ConnectionMessageBusFromContext :: "go_ctx \<Rightarrow> ('e, nat) outcome" where
  "ConnectionMessageBusFromContext c = ctx_need as_Bus ExtraOptionsMessageBusByConn c"

definition topic_ConnBoostMode :: "bytes \<Rightarrow> bytes" where
  "topic_ConnBoostMode connid = str_bytes ''conn>'' @ connid @ str_bytes ''>BoostMode''"

definition topic_ConnReHandShake :: "bytes \<Rightarrow> bytes" where
  "topic_ConnReHandShake connid = str_bytes ''conn>'' @ connid @ str_bytes ''>ReHandShake''"

record ConnBoostMode =
  bm_Enable :: bool
  bm_TimeoutAtLeast :: int

record ConnReHandshake =
  rh_Fire :: bool
  rh_FullReHandshake :: bool

text \<open>A handler puts the event into its channel of 8, or drops it when the channel is full.\<close>

definition bus_handle :: "'a \<Rightarrow> 'a chan \<Rightarrow> 'a chan" where
  "bus_handle d ch = fst (chan_try_send ch d)"

subsection \<open>Topics\<close>

lemma unat_hex_digit: "d < 16 \<Longrightarrow> unat (hex_digit d) = (if d < 10 then 48 + d else 87 + d)"
  by (simp add: hex_digit_def unat_of_nat)

lemma hex_digit_inj: "d < 16 \<Longrightarrow> e < 16 \<Longrightarrow> hex_digit d = hex_digit e \<longleftrightarrow> d = e"
  by (auto simp: unat_hex_digit split: if_splits dest!: arg_cong [of _ _ unat])

lemma byte_nibbles: "unat (b :: byte) div 16 < 16" "unat b mod 16 < 16"
proof -
  have "unat b < 256" using unsigned_less [of b, where ?'a = nat] by simp
  then show "unat b div 16 < 16" by simp
qed simp

lemma hex_inj: "length a = length b \<Longrightarrow> hex_EncodeToString a = hex_EncodeToString b \<longleftrightarrow> a = b"
proof (induction a b rule: list_induct2)
  case (Cons x xs y ys)
  have "unat x div 16 = unat y div 16 \<and> unat x mod 16 = unat y mod 16 \<longleftrightarrow> x = y"
    by (metis div_mult_mod_eq unsigned_word_eqI)
  then show ?case
    using Cons.IH by (auto simp: hex_EncodeToString_def hex_digit_inj byte_nibbles)
qed (simp add: hex_EncodeToString_def)

lemma hex_digit_not_meta: "d < 16 \<Longrightarrow> hex_digit d \<notin> set regexp_meta"
proof
  assume "d < 16" and "hex_digit d \<in> set regexp_meta"
  then have "unat (hex_digit d) \<in> unat ` set regexp_meta" by blast
  then show False using \<open>d < 16\<close> by (auto simp: unat_hex_digit regexp_meta_def split: if_splits)
qed

lemma hex_not_meta: "set (hex_EncodeToString bs) \<inter> set regexp_meta = {}"
  using hex_digit_not_meta byte_nibbles by (fastforce simp: hex_EncodeToString_def)

lemma connIDToString_not_meta: "set (connIDToString i) \<inter> set regexp_meta = {}"
  using hex_not_meta [of i] by (auto simp: connIDToString_def Let_def)

text \<open>
  The bus treats the topic of a handler as a regular expression. The topic of every connection,
  whatever its identity, has no special character and so matches as plain text, and two sessions
  with 24-byte identities never share a topic.
\<close>

lemma bus_topics_literal:
  "set (topic_ConnBoostMode (connIDToString i)) \<inter> set regexp_meta = {}"
  "set (topic_ConnReHandShake (connIDToString i)) \<inter> set regexp_meta = {}"
  "length i = 24 \<Longrightarrow> length j = 24 \<Longrightarrow> topic_ConnBoostMode (connIDToString i) = topic_ConnBoostMode (connIDToString j) \<longleftrightarrow> i = j"
  using connIDToString_not_meta [of i]
  by (auto simp: topic_ConnBoostMode_def topic_ConnReHandShake_def str_bytes_def regexp_meta_def connIDToString_def hex_inj)

end
