(* ===== verification/HttpClient.thy ===== *)
theory HttpClient
  imports HttpServer Options
begin

text \<open>
  The HTTP side of the client, \<^verbatim>\<open>transport/http/httpClient\<close> (\<open>client.go\<close>, \<open>ws.go\<close>) with the websocket
  adapter \<^verbatim>\<open>transport/http/websocketadp/adp.go\<close>: the client object, the token and the request of a
  connection, one dial in either direction and over a websocket, the redial loops and the buffer
  probes. The HTTP exchange and the websocket dialer belong to libraries: the answer of an exchange
  is an argument. The streams are those of \<open>HttpFraming\<close>.
\<close>

section \<open>The client\<close>

record ProviderClient =
  hc_HttpRequestEndpoint :: bytes
  hc_MaxTxConnection :: int
  hc_MaxRxConnection :: int
  hc_MaxBoostTxConnection :: int
  hc_MaxBoostRxConnection :: int
  hc_TxChan :: "bytes chan"
  hc_RxChan :: "bytes chan"
  hc_ID :: bytes
  hc_hh :: HttpHeaderHolderProcessor
  hc_authlocation :: auth_location
  hc_useWebsocket :: bool
  hc_ctx :: go_ctx
  hc_connctx :: go_ctx
  hc_closeCtx :: nat

datatype client_start = StartNothing | StartHTTP | StartWS

text \<open>
  The constructor: \<open>randid\<close> are the 24 random bytes, \<open>bus\<close> and \<open>closer\<close> the numbers of the new message
  bus and of the new cancel function. The second component is which dialers are started.
\<close>

definition NewProviderClient ::
  "bytes \<Rightarrow> int \<Rightarrow> int \<Rightarrow> bytes \<Rightarrow> go_ctx \<Rightarrow> bytes \<Rightarrow> nat \<Rightarrow> nat \<Rightarrow> (unit, ProviderClient \<times> client_start) outcome" where
  "NewProviderClient endpoint maxTx maxRx password ctx randid bus closer =
     bind_outcome (ctx_opt (map_option Some \<circ> as_UniConnAttrib) None ExtraOptionsUniConnAttrib ctx) (\<lambda>unival.
     let id = (case unival of None \<Rightarrow> randid | Some att \<Rightarrow> go_copy randid (ua_ID att)) in
     bind_outcome (ctx_opt as_BoostConnectionSettings (16, 16) ExtraOptionsBoostConnectionSettingsHTTPTransport ctx)
       (\<lambda>(maxBoostTx, maxBoostRx).
     bind_outcome (ctx_opt as_bool False ExtraOptionsUseWebSocketInsteadOfHTTP ctx) (\<lambda>useWs.
     let vctx = WithValue ctx ExtraOptionsConnID (OV_bytes id);
         vctx = WithValue vctx ExtraOptionsMessageBusByConn (OV_Bus bus)
     in Ok (\<lparr>hc_HttpRequestEndpoint = endpoint, hc_MaxTxConnection = maxTx, hc_MaxRxConnection = maxRx,
             hc_MaxBoostTxConnection = maxBoostTx, hc_MaxBoostRxConnection = maxBoostRx,
             hc_TxChan = make_chan 8, hc_RxChan = make_chan 8, hc_ID = id,
             hc_hh = NewHttpHeaderHolderProcessor password, hc_authlocation = Authlocation_Path,
             hc_useWebsocket = useWs, hc_ctx = ctx, hc_connctx = WithCancel vctx closer, hc_closeCtx = closer\<rparr>,
            if maxTx = 0 then StartNothing else if useWs then StartWS else StartHTTP))))"

text \<open>\<open>Close\<close> ends the connection context; the connection handed out by \<open>AsConn\<close> carries the outer one.\<close>

definition ProviderClient_Close :: "ProviderClient \<Rightarrow> nat set \<Rightarrow> nat set" where
  "ProviderClient_Close pc cancelled = insert (hc_closeCtx pc) cancelled"

definition AsConn_Write :: "nat set \<Rightarrow> bytes \<Rightarrow> ProviderClient \<Rightarrow> (adp_error + nat) \<times> ProviderClient" where
  "AsConn_Write cancelled b pc =
     (let (r, tx) = RxTxToConn_Write b (ctx_Err cancelled (hc_ctx pc)) (hc_TxChan pc)
      in (r, pc\<lparr>hc_TxChan := tx\<rparr>))"

section \<open>Requests\<close>

definition token_flags :: "bool \<Rightarrow> bool \<Rightarrow> bool \<Rightarrow> u64" where
  "token_flags boost ws alt =
     (if boost then HttpHeaderFlag_BoostConnection else 0) OR
     (if ws then HttpHeaderFlag_WebsocketConnection else 0) OR
     (if alt then HttpHeaderFlag_AlternativeChannelConnection OR HttpHeaderFlag_WebsocketConnection else 0)"

definition client_header ::
  "bytes \<Rightarrow> u64 \<Rightarrow> u64 \<Rightarrow> bool \<Rightarrow> bool \<Rightarrow> u32 \<Rightarrow> ProviderClient \<Rightarrow> HttpHeaderHolder" where
  "client_header rnd now masking boost alt iter pc =
     \<lparr>hh_Masker = masking, hh_ConnID = go_copy (replicate 24 0) (hc_ID pc),
      hh_Rand = go_copy (replicate 24 0) rnd, hh_Time = now,
      hh_Flags = token_flags boost (hc_useWebsocket pc) alt, hh_ConnIter = iter\<rparr>"

definition createBearToken ::
  "struc_lib \<Rightarrow> aead_lib \<Rightarrow> bytes \<Rightarrow> u64 \<Rightarrow> u64 \<Rightarrow> go_ctx \<Rightarrow> ProviderClient \<Rightarrow> (armor_error, bytes) outcome" where
  "createBearToken S A rnd now masking ctx pc =
     bind_outcome (ctx_opt as_bool False ExtraOptionsHTTPTransportConnIsBoostConnection ctx) (\<lambda>boost.
     bind_outcome (ctx_opt as_bool False ExtraOptionsHTTPClientDialAlternativeChannel ctx) (\<lambda>alt.
     bind_outcome (ctx_opt (map_option ua_Iter \<circ> as_UniConnAttrib) 0 ExtraOptionsUniConnAttrib ctx) (\<lambda>iter.
       Seal S A (hc_hh pc) (client_header rnd now masking boost alt iter pc))))"

text \<open>Where the token goes in the request; the path of the endpoint is replaced.\<close>

definition place_token :: "auth_location \<Rightarrow> bytes \<Rightarrow> http_request \<Rightarrow> http_request" where
  "place_token loc tok req =
     (case loc of
        Authlocation_Header \<Rightarrow> req\<lparr>rq_authorization := str_bytes ''Bearer '' @ tok\<rparr>
      | Authlocation_Path \<Rightarrow> req\<lparr>rq_path := 47 # tok\<rparr>)"

definition reqprepare ::
  "struc_lib \<Rightarrow> aead_lib \<Rightarrow> bytes \<Rightarrow> u64 \<Rightarrow> http_request \<Rightarrow> u64 \<Rightarrow> go_ctx \<Rightarrow> ProviderClient \<Rightarrow>
   (armor_error, http_request) outcome" where
  "reqprepare S A rnd now req masking ctx pc =
     bind_outcome (createBearToken S A rnd now masking ctx pc) (\<lambda>tok. Ok (place_token (hc_authlocation pc) tok req))"

definition reqprepareTest ::
  "struc_lib \<Rightarrow> aead_lib \<Rightarrow> http_request \<Rightarrow> u64 \<Rightarrow> ProviderClient \<Rightarrow> (armor_error, http_request) outcome" where
  "reqprepareTest S A req masking pc =
     bind_outcome (Seal S A (hc_hh pc)
         \<lparr>hh_Masker = masking, hh_ConnID = replicate 24 0, hh_Rand = replicate 24 0, hh_Time = 0,
          hh_Flags = 0, hh_ConnIter = 0\<rparr>)
       (\<lambda>tok. Ok (place_token (hc_authlocation pc) tok req))"

definition NewRequest :: "http_method \<Rightarrow> http_request" where
  "NewRequest meth = \<lparr>rq_method = meth, rq_path = [], rq_authorization = []\<rparr>"

text \<open>How the HTTP client reaches an address.\<close>

datatype dial_choice = ViaSocksProxy bytes | ViaDialer bytes

record http_transport =
  tr_proxyFromEnvironment :: bool
  tr_DialContext :: "bytes \<Rightarrow> dial_choice"

definition getHttpClient :: "ProviderClient \<Rightarrow> ('e, http_transport) outcome" where
  "getHttpClient pc =
     bind_outcome (ctx_opt as_bool False ExtraOptionsHTTPUseSystemHTTPProxy (hc_ctx pc)) (\<lambda>useSystemProxy.
     bind_outcome (ctx_opt as_bool False ExtraOptionsHTTPUseSystemSocksProxy (hc_ctx pc)) (\<lambda>useSystemSocksProxy.
     bind_outcome (ctx_opt as_HTTPDialAddr [] ExtraOptionsHTTPDialAddr (hc_ctx pc)) (\<lambda>httpDialAddr.
       Ok \<lparr>tr_proxyFromEnvironment = useSystemProxy,
           tr_DialContext = (\<lambda>addr.
             let dialaddr = (if httpDialAddr \<noteq> [] then httpDialAddr else addr)
             in if useSystemSocksProxy then ViaSocksProxy dialaddr else ViaDialer dialaddr)\<rparr>)))"

section \<open>Dialing\<close>

text \<open>
  An exchange fails or brings a status and a body. \<open>endpointOk\<close> is whether the endpoint is a valid
  URL, which \<open>http.NewRequest\<close> decides.
\<close>

datatype http_response = DoError | Response int bytes

text \<open>
  A dial of the sending direction: the sender that feeds the body of the request and the request,
  which is missing when it could not be made. The body is read by the exchange.
\<close>

definition DialTxConnection ::
  "struc_lib \<Rightarrow> aead_lib \<Rightarrow> int63_source \<Rightarrow> bytes \<Rightarrow> u64 \<Rightarrow> u64 \<Rightarrow> bool \<Rightarrow> go_ctx \<Rightarrow> ProviderClient \<Rightarrow>
   (armor_error, (bool \<times> http_sender) option \<times> http_request option) outcome" where
  "DialTxConnection S A Int63 rnd now masking endpointOk ctx pc =
     bind_outcome (getHttpClient pc) (\<lambda>hc.
     bind_outcome (ctx_opt as_HTTPNetworkBufferSize 0 ExtraOptionsHTTPNetworkBufferSize ctx) (\<lambda>networkBuffering.
       let sender = SendPacketOverWriter_start S Int63 masking \<lparr>hw_out = [], hw_fail = None\<rparr> (hc_TxChan pc) networkBuffering
       in if \<not> endpointOk then Ok (sender, None)
          else bind_outcome (reqprepare S A rnd now (NewRequest POST) masking ctx pc) (\<lambda>req. Ok (sender, Some req))))"

text \<open>
  The receiver at the end of the pipe a response body is copied into. Unlike a body, the pipe is
  never closed by its writer: a receiver without enough bytes waits. It returns without closing the
  pipe on a length that is too large, and with closing it when the context has ended.
\<close>

datatype pipe_end =
    PipeWaiting "bytes list"
  | PipeLeft "bytes list" bytes
  | PipeClosed "bytes list"
  | PipePanic

partial_function (option) receive_over_pipe ::
  "struc_lib \<Rightarrow> int63_source \<Rightarrow> u64 \<Rightarrow> (nat \<Rightarrow> bool) \<Rightarrow> nat \<Rightarrow> bytes \<Rightarrow> bytes list \<Rightarrow> pipe_end option" where
  "receive_over_pipe S Int63 seed cancelled k reader out =
     (let (ok, vs, rest) = struc_Unpack S HTTPLenHeader_layout reader
      in if \<not> ok then Some (PipeWaiting out)
         else
           let l = HTTPLenHeader_of vs XOR Int63 seed k
           in if 1601 < sint l then Some (PipeLeft out rest)
              else if l = 0 then receive_over_pipe S Int63 seed cancelled (Suc k) rest out
              else if sint l < 0 then Some PipePanic
              else if length rest < nat (sint l) then Some (PipeWaiting out)
              else
                let out' = out @ [take (nat (sint l)) rest]
                in if cancelled (length out') then Some (PipeClosed out')
                   else receive_over_pipe S Int63 seed cancelled (Suc k) (drop (nat (sint l)) rest) out')"

text \<open>
  Copying a body into the pipe: every byte has to be taken by the receiver, or the pipe closed;
  a body that is left with bytes nobody reads is never finished.
\<close>

datatype dial_end = DialReturned "bytes list" | DialHangs "bytes list"

definition copy_into_pipe :: "pipe_end \<Rightarrow> ('e, dial_end) outcome" where
  "copy_into_pipe r =
     (case r of
        PipeWaiting out \<Rightarrow> Ok (DialReturned out)
      | PipeLeft out rest \<Rightarrow> Ok (if rest = [] then DialReturned out else DialHangs out)
      | PipeClosed out \<Rightarrow> Ok (DialReturned out)
      | PipePanic \<Rightarrow> Panic)"

text \<open>
  A dial of the receiving direction, with the exchange \<open>Do\<close>: how it ends, and the packets that went
  into the receiving channel. The status is printed only.
\<close>

definition DialRxConnection ::
  "struc_lib \<Rightarrow> aead_lib \<Rightarrow> int63_source \<Rightarrow> bytes \<Rightarrow> u64 \<Rightarrow> u64 \<Rightarrow> bool \<Rightarrow> (http_request \<Rightarrow> http_response) \<Rightarrow>
   (nat \<Rightarrow> bool) \<Rightarrow> go_ctx \<Rightarrow> ProviderClient \<Rightarrow> (armor_error, dial_end) outcome" where
  "DialRxConnection S A Int63 rnd now masking endpointOk Do cancelled ctx pc =
     bind_outcome (getHttpClient pc) (\<lambda>hc.
       if \<not> endpointOk then Ok (DialReturned [])
       else bind_outcome (reqprepare S A rnd now (NewRequest GET) masking ctx pc) (\<lambda>req.
         case Do req of
           DoError \<Rightarrow> Ok (DialReturned [])
         | Response status body \<Rightarrow>
             (case receive_over_pipe S Int63 masking cancelled 0 body [] of
                None \<Rightarrow> Blocked
              | Some r \<Rightarrow> copy_into_pipe r)))"

subsection \<open>Redialing\<close>

text \<open>
  The condition of the redial loops: the context lives and the redial flag of the context, if it
  has one, is clear. \<open>flags\<close> are the redial flags by number.
\<close>

definition redial :: "nat set \<Rightarrow> (nat \<Rightarrow> bool) \<Rightarrow> go_ctx \<Rightarrow> ('e, bool) outcome" where
  "redial cancelled flags ctx =
     bind_outcome (ctx_opt (map_option Some \<circ> as_ShouldNotRedial) None ExtraOptionsBoostConnectionShouldNotRedial ctx)
       (\<lambda>f. Ok (\<not> ctx_Err cancelled ctx \<and> (case f of None \<Rightarrow> True | Some n \<Rightarrow> \<not> flags n)))"

text \<open>The dialers started one per second and direction until there are enough.\<close>

datatype dialer = RxDialer | TxDialer | WsDialer

function StartConnections :: "int \<Rightarrow> int \<Rightarrow> int \<Rightarrow> dialer list" where
  "StartConnections maxRx maxTx i =
     (if i < maxRx \<or> i < maxTx then
        (if i < maxRx then [RxDialer] else []) @ (if i < maxTx then [TxDialer] else []) @
        StartConnections maxRx maxTx (i + 1)
      else [])"
  by auto
termination
  by (relation "measure (\<lambda>(maxRx, maxTx, i). nat (max maxRx maxTx - i))") auto

function StartConnectionsWS :: "int \<Rightarrow> int \<Rightarrow> dialer list" where
  "StartConnectionsWS toDial i = (if i < toDial then WsDialer # StartConnectionsWS toDial (i + 1) else [])"
  by auto
termination
  by (relation "measure (\<lambda>(toDial, i). nat (toDial - i))") auto

declare StartConnections.simps [simp del] StartConnectionsWS.simps [simp del]

section \<open>Websockets\<close>

text \<open>
  The adapter: a read takes one message, copies what fits and returns the length of the message,
  also when that is more than the buffer holds. The connection below may fail.
\<close>

record WsAdp =
  wa_in :: "bytes list"
  wa_readError :: io_error
  wa_out :: "bytes list"
  wa_writeError :: "io_error option"

definition WsAdp_Read :: "nat \<Rightarrow> WsAdp \<Rightarrow> (io_error + bytes \<times> nat) \<times> WsAdp" where
  "WsAdp_Read blen ws =
     (case wa_in ws of
        [] \<Rightarrow> (Inl (wa_readError ws), ws)
      | msg # msgs \<Rightarrow> (Inr (take blen msg, length msg), ws\<lparr>wa_in := msgs\<rparr>))"

definition WsAdp_Write :: "bytes \<Rightarrow> WsAdp \<Rightarrow> (nat \<times> io_error option) \<times> WsAdp" where
  "WsAdp_Write b ws =
     (case wa_writeError ws of
        Some e \<Rightarrow> ((length b, Some e), ws)
      | None \<Rightarrow> ((length b, None), ws\<lparr>wa_out := wa_out ws @ [b]\<rparr>))"

text \<open>
  \<open>io.ReadFull\<close> of \<open>n\<close> bytes over the adapter: messages are taken until there are enough; what is
  left of the last message is gone.
\<close>

fun ws_ReadFull :: "nat \<Rightarrow> bytes list \<Rightarrow> (bytes \<times> bytes list) option" where
  "ws_ReadFull n [] = (if n = 0 then Some ([], []) else None)"
| "ws_ReadFull n (msg # msgs) =
     (if n = 0 then Some ([], msg # msgs)
      else if n \<le> length msg then Some (take n msg, msgs)
      else map_option (\<lambda>(b, ms). (msg @ b, ms)) (ws_ReadFull (n - length msg) msgs))"

text \<open>
  \<open>io.Copy\<close> from the adapter uses a buffer of 32768 bytes and slices it with the count the read
  returned: a longer message panics. The result is what was copied when the messages end.
\<close>

fun ws_io_Copy :: "bytes list \<Rightarrow> (unit, bytes) outcome" where
  "ws_io_Copy [] = Ok []"
| "ws_io_Copy (msg # msgs) =
     (if 32768 < length msg then Panic else bind_outcome (ws_io_Copy msgs) (\<lambda>b. Ok (msg @ b)))"

lemma ws_ReadFull_consumes:
  "ws_ReadFull n msgs = Some (b, ms) \<Longrightarrow> length ms \<le> length msgs \<and> (0 < n \<longrightarrow> length ms < length msgs)"
  by (induction n msgs arbitrary: b ms rule: ws_ReadFull.induct) (fastforce split: if_splits)+

text \<open>The receiver of \<open>HttpFraming\<close> over the adapter, until the messages end.\<close>

function ws_receive ::
  "struc_lib \<Rightarrow> int63_source \<Rightarrow> u64 \<Rightarrow> nat \<Rightarrow> bytes list \<Rightarrow> bytes list \<Rightarrow> (unit, bytes list) outcome" where
  "ws_receive S Int63 seed k msgs out =
     (case ws_ReadFull 8 msgs of
        None \<Rightarrow> Ok out
      | Some (hdr, msgs1) \<Rightarrow>
          let (ok, vs, _) = struc_Unpack S HTTPLenHeader_layout hdr;
              l = HTTPLenHeader_of vs XOR Int63 seed k
          in if \<not> ok \<or> 1601 < sint l then Ok out
             else if l = 0 then ws_receive S Int63 seed (Suc k) msgs1 out
             else if sint l < 0 then Panic
             else
               (case ws_ReadFull (nat (sint l)) msgs1 of
                  None \<Rightarrow> Ok out
                | Some (b, msgs2) \<Rightarrow> ws_receive S Int63 seed (Suc k) msgs2 (out @ [b])))"
  by pat_completeness auto
termination
  by (relation "measure (\<lambda>(S, Int63, seed, k, msgs, out). length msgs)") (auto dest!: ws_ReadFull_consumes)

declare ws_receive.simps [simp del]

text \<open>
  One dial of a websocket connection. The URL is the endpoint with \<open>http\<close> replaced by \<open>ws\<close>, and the
  token appended. An abstract dialer that fails is only reported: the nil connection it leaves is
  read from, which panics. \<open>absDial\<close> and \<open>wsDial\<close> are whether the two dialers succeed.
\<close>

definition ws_url :: "ProviderClient \<Rightarrow> bytes \<Rightarrow> ('e, bytes) outcome" where
  "ws_url pc tok =
     (if length (hc_HttpRequestEndpoint pc) < 4 then Panic
      else Ok (str_bytes ''ws'' @ drop 4 (hc_HttpRequestEndpoint pc) @ [47] @ tok))"

datatype ws_dial = WsDialFailed | WsDialed bytes

definition DialWsConnection ::
  "struc_lib \<Rightarrow> aead_lib \<Rightarrow> bytes \<Rightarrow> u64 \<Rightarrow> u64 \<Rightarrow> (bytes \<Rightarrow> bool) \<Rightarrow> (bytes \<Rightarrow> bool) \<Rightarrow> go_ctx \<Rightarrow> ProviderClient \<Rightarrow>
   (armor_error, ws_dial) outcome" where
  "DialWsConnection S A rnd now masking absDial wsDial ctx pc =
     bind_outcome (createBearToken S A rnd now masking ctx pc) (\<lambda>h.
     bind_outcome (ws_url pc h) (\<lambda>url.
     bind_outcome (ctx_opt (map_option snd \<circ> as_AbstractDialer) False ExtraOptionsAbstractDialer ctx) (\<lambda>useAbsDialer.
       if useAbsDialer then (if absDial h then Ok (WsDialed h) else Panic)
       else bind_outcome (getHttpClient pc) (\<lambda>hc.
         Ok (if wsDial url then WsDialed url else WsDialFailed)))))"

definition DialWsAlternativeChannelConnection ::
  "struc_lib \<Rightarrow> aead_lib \<Rightarrow> bytes \<Rightarrow> u64 \<Rightarrow> (bytes \<Rightarrow> bool) \<Rightarrow> go_ctx \<Rightarrow> ProviderClient \<Rightarrow>
   (armor_error, bytes option) outcome" where
  "DialWsAlternativeChannelConnection S A rnd now wsDial ctx0 pc =
     (let ctx = WithValue ctx0 ExtraOptionsHTTPClientDialAlternativeChannel (OV_bool True) in
      bind_outcome (createBearToken S A rnd now 0 ctx pc) (\<lambda>h.
      bind_outcome (ws_url pc h) (\<lambda>url.
      bind_outcome (getHttpClient pc) (\<lambda>hc.
        Ok (if wsDial url then Some url else None)))))"

section \<open>Probes\<close>

text \<open>
  The two probes: -3 when the request cannot be made or exchanged. The receiving probe judges the
  body (the arguments of \<open>TestBufferSizePayloadClient\<close> after the size); the sending one reads the
  verdict from the status, after its sender started.
\<close>

definition DialRxTestConnection ::
  "struc_lib \<Rightarrow> aead_lib \<Rightarrow> bool \<Rightarrow> (http_request \<Rightarrow> http_response) \<Rightarrow> (bytes \<Rightarrow> int option \<times> bool \<times> int \<times> int) \<Rightarrow> int \<Rightarrow>
   int \<Rightarrow> ProviderClient \<Rightarrow> (armor_error, int) outcome" where
  "DialRxTestConnection S A endpointOk Do timing timenow testSize pc =
     bind_outcome (getHttpClient pc) (\<lambda>hc.
       if \<not> endpointOk then Ok (- 3)
       else bind_outcome (reqprepareTest S A (NewRequest GET) (of_int testSize) pc) (\<lambda>req.
         case Do req of
           DoError \<Rightarrow> Ok (- 3)
         | Response status body \<Rightarrow>
             (let (firstRead, restFails, readentime, fullReadTime) = timing body
              in case TestBufferSizePayloadClient testSize firstRead restFails timenow readentime fullReadTime of
                   Ok r \<Rightarrow> Ok r | _ \<Rightarrow> Panic)))"

definition DialTxConnectionTest ::
  "struc_lib \<Rightarrow> aead_lib \<Rightarrow> bool \<Rightarrow> (http_request \<Rightarrow> http_response) \<Rightarrow> int \<Rightarrow> ProviderClient \<Rightarrow> (armor_error, int) outcome" where
  "DialTxConnectionTest S A endpointOk Do testSize pc =
     bind_outcome (getHttpClient pc) (\<lambda>hc.
       if testSize - 1 < 0 then Panic
       else if \<not> endpointOk then Ok (- 3)
       else bind_outcome (reqprepareTest S A (NewRequest POST) (of_int testSize) pc) (\<lambda>req.
         case Do req of
           DoError \<Rightarrow> Ok (- 3)
         | Response status body \<Rightarrow> Ok (status - 500)))"

end
