(* ===== verification/HttpClientProperties.thy ===== *)
theory HttpClientProperties
  imports HttpClient
begin

text \<open>
  What the HTTP client and the HTTP server do together: the requests the client makes are admitted,
  the packets of a session reach the client in order, and where the two do not fit (refused
  requests, probes, long websocket messages).
\<close>

section \<open>Tokens\<close>

definition ctx_flag :: "option_key \<Rightarrow> go_ctx \<Rightarrow> bool" where
  "ctx_flag k c \<longleftrightarrow> cx_values c k = Some (OV_bool True)"

definition ctx_iter :: "go_ctx \<Rightarrow> u32" where
  "ctx_iter c = (case cx_values c ExtraOptionsUniConnAttrib of Some (OV_UniConnAttrib a) \<Rightarrow> ua_Iter a | _ \<Rightarrow> 0)"

lemma ctx_bool_typed:
  assumes "ctx_typed c" and "key_type k = T_bool"
  shows "ctx_opt as_bool False k c = Ok (ctx_flag k c)"
proof (cases "cx_values c k")
  case (Some v)
  then have "value_type v = T_bool" using assms by (simp add: ctx_typed_def)
  then show ?thesis using Some by (cases v) (simp_all add: ctx_opt_def ctx_flag_def)
qed (simp add: ctx_opt_def ctx_flag_def)

lemma ctx_iter_typed:
  assumes "ctx_typed c"
  shows "ctx_opt (map_option ua_Iter \<circ> as_UniConnAttrib) 0 ExtraOptionsUniConnAttrib c = Ok (ctx_iter c)"
proof (cases "cx_values c ExtraOptionsUniConnAttrib")
  case (Some v)
  then have "value_type v = T_UniConnAttrib" using assms by (auto simp: ctx_typed_def)
  then show ?thesis using Some by (cases v) (simp_all add: ctx_opt_def ctx_iter_def)
qed (simp add: ctx_opt_def ctx_iter_def)

definition header_of_ctx :: "bytes \<Rightarrow> u64 \<Rightarrow> u64 \<Rightarrow> go_ctx \<Rightarrow> ProviderClient \<Rightarrow> HttpHeaderHolder" where
  "header_of_ctx rnd now masking ctx pc =
     client_header rnd now masking (ctx_flag ExtraOptionsHTTPTransportConnIsBoostConnection ctx)
       (ctx_flag ExtraOptionsHTTPClientDialAlternativeChannel ctx) (ctx_iter ctx) pc"

lemma header_of_ctx_fields [simp]:
  "hh_Masker (header_of_ctx rnd now masking ctx pc) = masking"
  "hh_Time (header_of_ctx rnd now masking ctx pc) = now"
  "hh_ConnID (header_of_ctx rnd now masking ctx pc) = go_copy (replicate 24 0) (hc_ID pc)"
  "hh_Rand (header_of_ctx rnd now masking ctx pc) = go_copy (replicate 24 0) rnd"
  "hh_Flags (header_of_ctx rnd now masking ctx pc) =
     token_flags (ctx_flag ExtraOptionsHTTPTransportConnIsBoostConnection ctx) (hc_useWebsocket pc)
       (ctx_flag ExtraOptionsHTTPClientDialAlternativeChannel ctx)"
  by (simp_all add: header_of_ctx_def client_header_def)

lemma token_flags_bits [simp]:
  "bit (token_flags boost ws alt) (Suc 0) \<longleftrightarrow> ws \<or> alt" "bit (token_flags boost ws alt) 2 \<longleftrightarrow> alt"
  "bit (token_flags boost ws alt) 0 \<longleftrightarrow> boost"
proof -
  have "bit (1 :: u64) 0" "\<not> bit (1 :: u64) 1" "\<not> bit (1 :: u64) 2" "\<not> bit (2 :: u64) 0" "bit (2 :: u64) 1"
    "\<not> bit (2 :: u64) 2" "\<not> bit (4 :: u64) 0" "\<not> bit (4 :: u64) 1" "bit (4 :: u64) 2" "bit (6 :: u64) 1" "bit (6 :: u64) 2"
    "\<not> bit (6 :: u64) 0"
    by code_simp+
  then show "bit (token_flags boost ws alt) (Suc 0) \<longleftrightarrow> ws \<or> alt" "bit (token_flags boost ws alt) 2 \<longleftrightarrow> alt"
    "bit (token_flags boost ws alt) 0 \<longleftrightarrow> boost"
    by (simp_all add: token_flags_def bit_or_iff)
qed

lemma createBearToken_typed:
  assumes "struc_laws S" and "aead_laws A" and "ctx_typed ctx"
  shows "\<exists>t. createBearToken S A rnd now masking ctx pc = Ok t \<and> length t = 124 \<and>
     Open S A (hc_hh pc) t = Ok (Some (header_of_ctx rnd now masking ctx pc))"
proof -
  have "createBearToken S A rnd now masking ctx pc = Seal S A (hc_hh pc) (header_of_ctx rnd now masking ctx pc)"
    using assms(3) by (simp add: createBearToken_def ctx_bool_typed ctx_iter_typed header_of_ctx_def)
  then show ?thesis using Seal_Open [OF assms(1,2), of "header_of_ctx rnd now masking ctx pc" "hc_hh pc"] by simp
qed

section \<open>Admission\<close>

text \<open>Client and server of one password, with the token in the path as both constructors set it.\<close>

definition paired :: "ProviderClient \<Rightarrow> 'f ProviderServerSide \<Rightarrow> bool" where
  "paired pc pss \<longleftrightarrow> hc_hh pc = ps_hh pss \<and> hc_authlocation pc = Authlocation_Path \<and>
     ps_authlocation pss = Authlocation_Path"

text \<open>The two clocks, in seconds, within the range of a signed 64-bit time.\<close>

definition clocks :: "int \<Rightarrow> int \<Rightarrow> bool" where
  "clocks t now \<longleftrightarrow> 0 \<le> t \<and> t < 2 ^ 62 \<and> 0 \<le> now \<and> now < 2 ^ 62"

lemma token_age_clocks:
  assumes "clocks t now"
  shows "token_age (of_int t) now = \<bar>t - now\<bar>"
proof -
  have "sint (of_int (t - now) :: u64) = t - now"
    using assms by (subst signed_of_int) (simp add: clocks_def signed_take_bit_int_eq_self)
  then show ?thesis by (simp add: token_age_def)
qed

text \<open>What the server answers to a request of the client that carries an admitted token.\<close>

definition expected_reply :: "http_method \<Rightarrow> u64 \<Rightarrow> go_ctx \<Rightarrow> ProviderClient \<Rightarrow> bytes \<Rightarrow> http_reply" where
  "expected_reply meth masking ctx pc k =
     (if ctx_flag ExtraOptionsHTTPClientDialAlternativeChannel ctx then AlternativeStream
      else if hc_useWebsocket pc then WsStream k masking
      else case meth of GET \<Rightarrow> GetStream k masking | POST \<Rightarrow> PostStream k masking | OtherMethod \<Rightarrow> NotFound)"

lemma serve_session_reply:
  assumes "parpareforconnection C upper now h pss = Ok (Some (k, boost), pss')"
    and "h = header_of_ctx rnd t masking ctx pc"
  shows "serve_session C upper True now meth h pss = Ok (expected_reply meth masking ctx pc k, pss')"
  using assms by (cases meth) (simp_all add: serve_session_def expected_reply_def)

lemma parpare_fresh:
  assumes "Check C now now (hh_Rand h) (session_window pss h) = Ok (True, arw)"
  shows "\<exists>boost pss'. parpareforconnection C (\<lambda>_. True) now h pss = Ok (Some (synthid h, boost), pss')"
  using assms
  by (auto simp: parpareforconnection_def LoadOrStore_def session_window_def Let_def split: option.splits)

lemma reqprepare_request:
  assumes "struc_laws S" and "aead_laws A" and "ctx_typed ctx" and "paired pc pss"
  shows "\<exists>tok. reqprepare S A rnd now (NewRequest meth) masking ctx pc =
       Ok \<lparr>rq_method = meth, rq_path = 47 # tok, rq_authorization = []\<rparr> \<and> length tok = 124 \<and>
     Open S A (ps_hh pss) tok = Ok (Some (header_of_ctx rnd now masking ctx pc))"
  using createBearToken_typed [OF assms(1-3), of rnd now masking pc] assms(4)
  by (auto simp: reqprepare_def place_token_def NewRequest_def paired_def)

lemma serve_path_token:
  assumes "Open S A (ps_hh pss) tok = Ok (Some h)" and "length tok = 124" and "ps_authlocation pss = Authlocation_Path"
  shows "ServeHTTP S A C upper upgrade now \<lparr>rq_method = meth, rq_path = 47 # tok, rq_authorization = []\<rparr> pss =
     serve_opened C upper upgrade now meth h pss"
  using assms by (simp add: ServeHTTP_def bearer_def)


subsection \<open>An example\<close>

definition ex_http_client :: ProviderClient where
  "ex_http_client = \<lparr>hc_HttpRequestEndpoint = str_bytes ''http://a'', hc_MaxTxConnection = 2, hc_MaxRxConnection = 2,
     hc_MaxBoostTxConnection = 16, hc_MaxBoostRxConnection = 16, hc_TxChan = make_chan 8, hc_RxChan = make_chan 8,
     hc_ID = replicate 24 1, hc_hh = NewHttpHeaderHolderProcessor [5], hc_authlocation = Authlocation_Path,
     hc_useWebsocket = False, hc_ctx = Background, hc_connctx = Background, hc_closeCtx = 0\<rparr>"

lemma ex_http_client_facts:
  "paired ex_http_client ex_pss" "length (hc_ID ex_http_client) = 24" "hc_ID ex_http_client \<noteq> replicate 24 0"
  "ctx_typed (hc_ctx ex_http_client)" "\<not> hc_useWebsocket ex_http_client"
  "\<not> ctx_flag ExtraOptionsHTTPClientDialAlternativeChannel Background" "clocks 1000 1060" "clocks 1000 1121" "\<bar>1000 - 1060\<bar> \<le> (120 :: int)"
  "120 < \<bar>1000 - 1121 :: int\<bar>"
  by (simp_all add: ex_http_client_def paired_def ex_pss_def NewProviderServerSide_def replicate_eq_replicate ctx_flag_def clocks_def)

lemma ex_http_client_fresh:
  "\<exists>arw. Check list_filter 1060 1060 (hh_Rand (header_of_ctx (replicate 24 9) (of_int 1000) 5 Background ex_http_client))
     (session_window ex_pss (header_of_ctx (replicate 24 9) (of_int 1000) 5 Background ex_http_client)) = Ok (True, arw)"
  by (simp add: session_window_def ex_pss_def NewProviderServerSide_def new_session_def NewAntiReplayWindow_def window_defs)


section \<open>Downloads\<close>

lemma pipe_frame:
  assumes "struc_laws S" and "length p \<le> 1601"
  shows "receive_over_pipe S Int63 seed (\<lambda>_. False) k (frame S Int63 seed k p @ rest) out =
     receive_over_pipe S Int63 seed (\<lambda>_. False) (Suc k) rest (if p = [] then out else out @ [p])"
  using assms sint_length [OF assms(2)]
  by (subst receive_over_pipe.simps) (simp add: frame_def Let_def)

lemma pipe_end:
  assumes "struc_laws S"
  shows "receive_over_pipe S Int63 seed cancelled k [] out = Some (PipeWaiting out)"
proof -
  obtain ok vs rest where u: "struc_Unpack S HTTPLenHeader_layout [] = (ok, vs, rest)"
    by (metis prod_cases3)
  then have "\<not> ok"
    using struc_unpack_short [OF assms(1) u] by (simp add: HTTPLenHeader_layout_def)
  with u show ?thesis by (subst receive_over_pipe.simps) simp
qed

lemma pipe_frames:
  assumes "struc_laws S" and "\<And>p. p \<in> set ps \<Longrightarrow> frame_ok p"
  shows "receive_over_pipe S Int63 seed (\<lambda>_. False) k (frames S Int63 seed k ps) out = Some (PipeWaiting (out @ ps))"
  using assms(2)
proof (induction ps arbitrary: k out)
  case Nil
  then show ?case by (simp add: pipe_end [OF assms(1)])
next
  case (Cons p ps)
  then have "length p \<le> 1601" "p \<noteq> []" by (simp_all add: frame_ok_def)
  then show ?case
    using pipe_frame [OF assms(1)] Cons.IH [of "Suc k" "out @ [p]"] Cons.prems by simp
qed

text \<open>
  The exchange with a server: the stream of a session has the content \<open>stream\<close> wrote for the seed of
  the request, and a refusal has the page of the standard library.
\<close>

definition not_found_page :: bytes where
  "not_found_page = str_bytes ''404 page not found'' @ [10]"

definition exchange ::
  "struc_lib \<Rightarrow> aead_lib \<Rightarrow> 'f cuckoo_lib \<Rightarrow> int \<Rightarrow> 'f ProviderServerSide \<Rightarrow> (u64 \<Rightarrow> bytes) \<Rightarrow> http_request \<Rightarrow> http_response" where
  "exchange S A C now pss stream req =
     (case ServeHTTP S A C (\<lambda>_. True) True now req pss of
        Ok (GetStream k m, pss') \<Rightarrow> Response 200 (stream m)
      | Ok (NotFound, pss') \<Rightarrow> Response 404 not_found_page
      | _ \<Rightarrow> DoError)"

lemma getHttpClient_typed: "ctx_typed (hc_ctx pc) \<Longrightarrow> \<exists>hc. getHttpClient pc = (Ok hc :: (armor_error, http_transport) outcome)"
proof -
  assume "ctx_typed (hc_ctx pc)"
  moreover from this have "\<exists>a. ctx_opt as_HTTPDialAddr [] ExtraOptionsHTTPDialAddr (hc_ctx pc) = (Ok a :: (armor_error, bytes) outcome)"
    by (rule ctx_opt_typed) simp
  ultimately show ?thesis by (auto simp: getHttpClient_def ctx_bool_typed)
qed

lemma DialRx_exchange:
  assumes "ctx_typed (hc_ctx pc)" and "reqprepare S A rnd t (NewRequest GET) masking ctx pc = Ok req"
    and "Do req = Response status body" and "receive_over_pipe S Int63 masking cancelled 0 body [] = Some r"
  shows "DialRxConnection S A Int63 rnd t masking True Do cancelled ctx pc = copy_into_pipe r"
  using assms getHttpClient_typed [OF assms(1)] by (auto simp: DialRxConnection_def)



section \<open>Refused downloads\<close>

lemma pipe_too_long:
  assumes "struc_laws S" and "1601 < sint (l XOR Int63 seed 0)"
  shows "receive_over_pipe S Int63 seed cancelled 0
     (packed S HTTPLenHeader_layout (HTTPLenHeader_vals l) @ rest) [] = Some (PipeLeft [] rest)"
  using assms by (subst receive_over_pipe.simps) (simp add: Let_def)

text \<open>
  A refused download is never dialled again. When the client's clock is more than 120 seconds off,
  the server refuses its request; the client takes the error page for a stream, its receiver gives up
  on the first length without closing the pipe, and the copy of the rest of the page waits for a
  reader for ever. The dial does not return, so its redial loop has ended, with no packet received
  and no error. (Only the about 1600 seeds of \<open>2 ^ 63\<close> that unmask the first 8 bytes of the page to an
  acceptable length behave differently.)
\<close>

theorem refused_download_hangs_dialer:
  assumes "struc_laws S" and "aead_laws A" and "ctx_typed ctx" and "ctx_typed (hc_ctx pc)" and "paired pc pss"
    and "clocks t now" and "120 < \<bar>t - now\<bar>"
    and "not_found_page = packed S HTTPLenHeader_layout (HTTPLenHeader_vals l) @ rest" and "rest \<noteq> []"
    and "1601 < sint (l XOR Int63 masking 0)"
  shows "DialRxConnection S A Int63 rnd (of_int t) masking True (exchange S A C now pss stream) cancelled ctx pc =
     Ok (DialHangs [])"
proof -
  let ?h = "header_of_ctx rnd (of_int t) masking ctx pc"
  obtain tok where tok: "reqprepare S A rnd (of_int t) (NewRequest GET) masking ctx pc =
       Ok \<lparr>rq_method = GET, rq_path = 47 # tok, rq_authorization = []\<rparr>" (is "_ = Ok ?req") "length tok = 124"
     "Open S A (ps_hh pss) tok = Ok (Some ?h)"
    using reqprepare_request [OF assms(1-3,5)] by blast
  have "serve_opened C (\<lambda>_. True) True now GET ?h pss = Ok (NotFound, pss)"
    using assms(6,7) by (simp add: serve_opened_def token_age_clocks)
  then have "exchange S A C now pss stream ?req = Response 404 not_found_page"
    using serve_path_token [OF tok(3,2)] assms(5) by (simp add: exchange_def paired_def)
  from DialRx_exchange [where Do = "exchange S A C now pss stream", OF assms(4) tok(1) this]
    pipe_too_long [OF assms(1), of l Int63 masking cancelled rest] assms(8-10)
  show ?thesis by (simp add: copy_into_pipe_def)
qed

theorem refused_download_hangs_dialer_witness:
  "DialRxConnection struc_be ex_aead ex_int63 (replicate 24 9) (of_int 1000) 5 True
     (exchange struc_be ex_aead list_filter 1121 ex_pss (\<lambda>_. [])) (\<lambda>_. False) Background ex_http_client = Ok (DialHangs [])"
proof -
  have page: "not_found_page = packed struc_be HTTPLenHeader_layout (HTTPLenHeader_vals 0x3430342070616765) @ drop 8 not_found_page"
    by (simp add: packed_def not_found_page_def str_bytes_def HTTPLenHeader_layout_def HTTPLenHeader_vals_def sval_def
        be_encode_numeral)
  have rest: "drop 8 not_found_page \<noteq> []"
    by (simp add: not_found_page_def str_bytes_def)
  have len: "1601 < sint (0x3430342070616765 XOR ex_int63 5 0)"
    by (simp add: ex_int63_def) 
  from refused_download_hangs_dialer [where ?Int63.0 = ex_int63, OF struc_be_laws ex_aead_laws ctx_typed_Background ex_http_client_facts(4,1,8,10) page rest len]
  show ?thesis .
qed

section \<open>Probes\<close>

text \<open>
  The buffer probes never reach the server's probe. Their token carries the time 0, so every server
  whose clock shows more than two minutes after 1970 refuses it: the sending probe returns the status
  of the refusal less 500, which is no verdict, instead of what the server measured.
\<close>

theorem probe_always_refused:
  assumes "struc_laws S" and "aead_laws A" and "ctx_typed (hc_ctx pc)" and "paired pc pss"
    and "120 < now" and "now < 2 ^ 62" and "1 \<le> testSize"
  shows "DialTxConnectionTest S A True (exchange S A C now pss stream) testSize pc = Ok (404 - 500)"
proof -
  let ?h = "\<lparr>hh_Masker = of_int testSize, hh_ConnID = replicate 24 0, hh_Rand = replicate 24 0, hh_Time = 0,
      hh_Flags = 0, hh_ConnIter = 0\<rparr>"
  obtain tok where tok: "Seal S A (hc_hh pc) ?h = Ok tok" "length tok = 124" "Open S A (hc_hh pc) tok = Ok (Some ?h)"
    using Seal_Open [OF assms(1,2), of ?h "hc_hh pc"] by auto
  let ?req = "\<lparr>rq_method = POST, rq_path = 47 # tok, rq_authorization = []\<rparr>"
  have "token_age 0 now = now"
    using token_age_clocks [of 0 now] assms(5,6) by (simp add: clocks_def)
  then have "serve_opened C (\<lambda>_. True) True now POST ?h pss = Ok (NotFound, pss)"
    using assms(5) by (simp add: serve_opened_def)
  then have reply: "exchange S A C now pss stream ?req = Response 404 not_found_page"
    using serve_path_token [of S A pss tok ?h] tok assms(4) by (simp add: exchange_def paired_def)
  have "reqprepareTest S A (NewRequest POST) (of_int testSize) pc = Ok ?req"
    using tok(1) assms(4) by (simp add: reqprepareTest_def place_token_def NewRequest_def paired_def)
  then show ?thesis
    using reply getHttpClient_typed [OF assms(3)] assms(7) by (auto simp: DialTxConnectionTest_def)
qed

theorem probe_always_refused_witness:
  "DialTxConnectionTest struc_be ex_aead True (exchange struc_be ex_aead list_filter 1600000000 ex_pss (\<lambda>_. [])) 4096 ex_http_client =
     Ok (404 - 500)"
  by (rule probe_always_refused [OF struc_be_laws ex_aead_laws ex_http_client_facts(4,1)]) simp_all

section \<open>Websocket streams\<close>

text \<open>The messages a sender writes for a packet: its header and its content, each one message.\<close>

fun ws_messages :: "struc_lib \<Rightarrow> int63_source \<Rightarrow> u64 \<Rightarrow> nat \<Rightarrow> bytes list \<Rightarrow> bytes list" where
  "ws_messages S Int63 seed k [] = []"
| "ws_messages S Int63 seed k (p # ps) =
     packed S HTTPLenHeader_layout (HTTPLenHeader_vals (of_nat (length p) XOR Int63 seed k)) # p #
     ws_messages S Int63 seed (Suc k) ps"

lemma concat_ws_messages: "concat (ws_messages S Int63 seed k ps) = frames S Int63 seed k ps"
  by (induction ps arbitrary: k) (simp_all add: frame_def)

text \<open>
  Over a websocket the receiver relies on the message boundaries: a read that is given a longer
  message drops the rest. The messages a sender writes are delivered as the stream is.
\<close>

lemma ws_stream_delivers:
  assumes "struc_laws S" and "\<And>p. p \<in> set ps \<Longrightarrow> frame_ok p"
  shows "ws_receive S Int63 seed k (ws_messages S Int63 seed k ps) out = Ok (out @ ps)"
  using assms(2)
proof (induction ps arbitrary: k out)
  case Nil
  then show ?case by (subst ws_receive.simps) simp
next
  case (Cons p ps)
  then have p: "length p \<le> 1601" "p \<noteq> []" by (simp_all add: frame_ok_def)
  have "packed_size HTTPLenHeader_layout (HTTPLenHeader_vals (of_nat (length p) XOR Int63 seed k)) = 8"
    by (simp add: HTTPLenHeader_layout_def HTTPLenHeader_vals_def sval_def)
  then show ?case
    using Cons.IH [of "Suc k" "out @ [p]"] Cons.prems assms(1) p sint_length [OF p(1)]
    by (subst ws_receive.simps) (simp add: Let_def)
qed

text \<open>
  The websocket URL keeps a slash at the end of the endpoint, and the request path then begins with
  two: the server takes the second for part of the token and refuses it. Over plain HTTP the path of
  the endpoint is replaced and the same endpoint works.
\<close>

lemma b64_slash: "b64_decode (47 # tok) = None"
proof -
  have "b64_groups (47 # xs) = None" for xs
    by (cases "47 # xs" rule: b64_groups.cases) (simp_all add: b64_digit_def)
  then show ?thesis by (simp add: b64_decode_def)
qed

lemma ws_endpoint_slash_refused:
  assumes "hc_HttpRequestEndpoint pc = str_bytes ''http://'' @ host @ [47]" and "ps_authlocation pss = Authlocation_Path"
  shows "ws_url pc tok = Ok (str_bytes ''ws://'' @ host @ [47, 47] @ tok)"
    "ServeHTTP S A C upper upgrade now \<lparr>rq_method = GET, rq_path = [47, 47] @ tok, rq_authorization = []\<rparr> pss = Ok (NotFound, pss)"
  using assms b64_slash [of tok] by (simp_all add: ws_url_def str_bytes_def ServeHTTP_def bearer_def Open_def)

text \<open>A failed abstract dialer panics the client; a failed websocket dialer is reported and dialled again.\<close>

lemma abstract_dial_failure_panics:
  assumes "struc_laws S" and "aead_laws A" and "ctx_typed ctx" and "4 \<le> length (hc_HttpRequestEndpoint pc)"
    and "cx_values ctx ExtraOptionsAbstractDialer = Some (OV_AbstractDialer d True)" and "\<And>h. \<not> absDial h"
  shows "DialWsConnection S A rnd now masking absDial wsDial ctx pc = Panic"
  using createBearToken_typed [OF assms(1-3), of rnd now masking pc] assms(4-6)
  by (auto simp: DialWsConnection_def ws_url_def ctx_opt_def)

section \<open>Dialers and closing\<close>

lemma StartConnections_counts:
  assumes "0 \<le> i"
  shows "count_list (StartConnections maxRx maxTx i) RxDialer = nat (maxRx - i) \<and>
     count_list (StartConnections maxRx maxTx i) TxDialer = nat (maxTx - i) \<and>
     count_list (StartConnections maxRx maxTx i) WsDialer = 0"
  using assms
proof (induction maxRx maxTx i rule: StartConnections.induct)
  case (1 maxRx maxTx i)
  show ?case
  proof (cases "i < maxRx \<or> i < maxTx")
    case True
    with 1 show ?thesis by (subst (1 2 3) StartConnections.simps) auto
  next
    case False
    then show ?thesis by (subst (1 2 3) StartConnections.simps) auto
  qed
qed

lemma StartConnectionsWS_count: "StartConnectionsWS n i = replicate (nat (n - i)) WsDialer"
proof (induction n i rule: StartConnectionsWS.induct)
  case (1 n i)
  show ?case
  proof (cases "i < n")
    case True
    then have "nat (n - i) = Suc (nat (n - (i + 1)))" by simp
    with 1 True show ?thesis by (subst StartConnectionsWS.simps) simp
  qed (subst StartConnectionsWS.simps, simp)
qed

text \<open>
  The connection handed out by the client does not see that the client was closed: it carries the
  outer context, and goes on accepting packets that no dialer will send.
\<close>

lemma write_after_close_accepted:
  assumes "NewProviderClient endpoint maxTx maxRx pw ctx randid bus closer = Ok (pc, start)"
    and "\<not> ctx_Err cancelled ctx" and "closer \<notin> set (cx_cancels ctx)"
  shows "ctx_Err (ProviderClient_Close pc cancelled) (hc_connctx pc)"
    "fst (AsConn_Write (ProviderClient_Close pc cancelled) b pc) = Inr (length b)"
proof -
  have pc: "hc_closeCtx pc = closer" "hc_ctx pc = ctx" "cx_cancels (hc_connctx pc) = closer # cx_cancels ctx"
    using assms(1) by (auto simp: NewProviderClient_def Let_def)
  show "ctx_Err (ProviderClient_Close pc cancelled) (hc_connctx pc)"
    using pc by (simp add: ctx_Err_def ProviderClient_Close_def)
  have "\<not> ctx_Err (ProviderClient_Close pc cancelled) (hc_ctx pc)"
    using pc assms(2,3) by (auto simp: ctx_Err_def ProviderClient_Close_def)
  then show "fst (AsConn_Write (ProviderClient_Close pc cancelled) b pc) = Inr (length b)"
    by (simp add: AsConn_Write_def RxTxToConn_Write_def)
qed

end
