(* ===== verification/RingBuffer.thy ===== *)
theory RingBuffer
  imports Prelude
begin

text \<open>
  The ring buffer the boost controller of the HTTP client keeps its cancel functions in,
  \<^verbatim>\<open>vendor2/github.com/golang-collections/go-datastructures/queue/ring.go\<close>, with 32-bit positions that
  wrap around. The controller is the only goroutine that uses its buffer, so that the
  compare-and-swap of an operation succeeds and a loop that finds the slot not ready finds it so
  for ever: the call does not return (\<open>Blocked\<close>). The locale \<open>bounded_fifo\<close> is the contract the
  controller relies on.
\<close>

section \<open>The code\<close>

definition roundUp :: "u32 \<Rightarrow> u32" where
  "roundUp v0 =
     (let v = v0 - 1;
          v = v OR drop_bit 1 v;
          v = v OR drop_bit 2 v;
          v = v OR drop_bit 4 v;
          v = v OR drop_bit 8 v;
          v = v OR drop_bit 16 v;
          v = v OR drop_bit 32 v
      in v + 1)"

record 'a ring_node =
  nd_position :: u32
  nd_data :: "'a option"

record 'a RingBuffer =
  rb_queue :: u32
  rb_dequeue :: u32
  rb_mask :: u32
  rb_disposed :: bool
  rb_nodes :: "'a ring_node list"

datatype ring_error = disposedError

definition NewRingBuffer :: "u32 \<Rightarrow> 'a RingBuffer" where
  "NewRingBuffer size0 =
     (let size = roundUp size0
      in \<lparr>rb_queue = 0, rb_dequeue = 0, rb_mask = size - 1, rb_disposed = False,
          rb_nodes = map (\<lambda>i. \<lparr>nd_position = of_nat i, nd_data = None\<rparr>) [0..<unat size]\<rparr>)"

text \<open>
  The positions are unsigned, so that the difference of two is never below 0 and the panics the
  operations have for that case are never reached. An empty node list is indexed out of range.
\<close>

definition RingBuffer_Put :: "'a \<Rightarrow> 'a RingBuffer \<Rightarrow> (ring_error, 'a RingBuffer) outcome" where
  "RingBuffer_Put item rb =
     (let pos = rb_queue rb; i = unat (pos AND rb_mask rb) in
      if rb_disposed rb then Err disposedError
      else if length (rb_nodes rb) \<le> i then Panic
      else
        let dif = nd_position (rb_nodes rb ! i) - pos in
        if dif = 0 then
          Ok (rb\<lparr>rb_queue := pos + 1,
                 rb_nodes := (rb_nodes rb)[i := \<lparr>nd_position = pos + 1, nd_data = Some item\<rparr>]\<rparr>)
        else Blocked)"

definition RingBuffer_Get :: "'a RingBuffer \<Rightarrow> (ring_error, 'a option \<times> 'a RingBuffer) outcome" where
  "RingBuffer_Get rb =
     (let pos = rb_dequeue rb; i = unat (pos AND rb_mask rb) in
      if rb_disposed rb then Err disposedError
      else if length (rb_nodes rb) \<le> i then Panic
      else
        let n = rb_nodes rb ! i; dif = nd_position n - (pos + 1) in
        if dif = 0 then
          Ok (nd_data n,
              rb\<lparr>rb_dequeue := pos + 1,
                 rb_nodes := (rb_nodes rb)[i := \<lparr>nd_position = pos + rb_mask rb + 1, nd_data = None\<rparr>]\<rparr>)
        else Blocked)"

definition RingBuffer_Len :: "'a RingBuffer \<Rightarrow> u32" where
  "RingBuffer_Len rb = rb_queue rb - rb_dequeue rb"

definition RingBuffer_Cap :: "'a RingBuffer \<Rightarrow> u32" where
  "RingBuffer_Cap rb = of_nat (length (rb_nodes rb))"

definition RingBuffer_Dispose :: "'a RingBuffer \<Rightarrow> 'a RingBuffer" where
  "RingBuffer_Dispose rb = rb\<lparr>rb_disposed := True\<rparr>"

definition RingBuffer_IsDisposed :: "'a RingBuffer \<Rightarrow> bool" where
  "RingBuffer_IsDisposed rb \<longleftrightarrow> rb_disposed rb"

section \<open>The next power of two\<close>

text \<open>A word whose bits are those of \<open>v\<close> and of the \<open>n - 1\<close> places above, or-ed together.\<close>

definition smeared :: "nat \<Rightarrow> u32 \<Rightarrow> u32 \<Rightarrow> bool" where
  "smeared n v w \<longleftrightarrow> (\<forall>i. bit w i \<longleftrightarrow> (\<exists>j<n. bit v (i + j)))"

lemma smeared_double:
  assumes "smeared n v w"
  shows "smeared (n + n) v (w OR drop_bit n w)"
proof -
  have "bit (w OR drop_bit n w) i \<longleftrightarrow> (\<exists>j<n + n. bit v (i + j))" for i
  proof -
    have "bit (w OR drop_bit n w) i \<longleftrightarrow> (\<exists>j<n. bit v (i + j)) \<or> (\<exists>j<n. bit v (n + i + j))"
      using assms by (simp add: smeared_def bit_or_iff bit_drop_bit_eq)
    also have "\<dots> \<longleftrightarrow> (\<exists>j<n + n. bit v (i + j))"
    proof
      assume "(\<exists>j<n. bit v (i + j)) \<or> (\<exists>j<n. bit v (n + i + j))"
      then show "\<exists>j<n + n. bit v (i + j)"
      proof
        assume "\<exists>j<n. bit v (n + i + j)"
        then obtain j where "j < n" "bit v (n + i + j)" by blast
        then show ?thesis by (intro exI [of _ "n + j"]) (simp add: ac_simps)
      qed (meson trans_less_add1)
    next
      assume "\<exists>j<n + n. bit v (i + j)"
      then obtain j where j: "j < n + n" "bit v (i + j)" by blast
      then show "(\<exists>j<n. bit v (i + j)) \<or> (\<exists>j<n. bit v (n + i + j))"
      proof (cases "j < n")
        case False
        then show ?thesis using j by (intro disjI2 exI [of _ "j - n"]) (simp add: ac_simps)
      qed blast
    qed
    finally show ?thesis .
  qed
  then show ?thesis by (simp add: smeared_def)
qed

lemma smeared_start: "smeared 1 v v"
  by (simp add: smeared_def)

lemma word_bit_unat: "bit (v :: u32) i \<longleftrightarrow> odd (unat v div 2 ^ i)"
  by (simp add: bit_iff_odd [symmetric] bit_unsigned_iff)

lemma smeared_all:
  assumes "smeared 64 v w" and "unat v < 2 ^ Suc k" and "2 ^ k \<le> unat v" and "k < 31"
  shows "w = mask (Suc k)"
proof (rule bit_word_eqI)
  fix i
  assume "i < LENGTH(32)"
  have high: "\<not> bit v j" if "Suc k \<le> j" for j
  proof -
    have "unat v < 2 ^ j"
      using assms(2) power_increasing [OF that, of "2 :: nat"] by simp
    then show ?thesis by (simp add: word_bit_unat)
  qed
  have "unat v div 2 ^ k = 1"
    using assms(2,3) by (intro div_nat_eqI) simp_all
  then have top: "bit v k" by (simp add: word_bit_unat)
  have "bit w i \<longleftrightarrow> i < Suc k"
  proof
    assume "bit w i"
    then obtain j where "bit v (i + j)" using assms(1) by (auto simp: smeared_def)
    then show "i < Suc k" using high [of "i + j"] by (meson not_le trans_le_add1)
  next
    assume "i < Suc k"
    then have "bit v (i + (k - i))" "k - i < 64" using top assms(4) by simp_all
    then show "bit w i" using assms(1) unfolding smeared_def by blast
  qed
  then show "bit w i \<longleftrightarrow> bit (mask (Suc k) :: u32) i"
    using \<open>i < LENGTH(32)\<close> by (simp add: bit_mask_iff)
qed

lemma roundUp_smeared: "\<exists>w. smeared 64 (v - 1) w \<and> roundUp v = w + 1"
proof -
  let ?v0 = "v - 1"
  let ?v1 = "?v0 OR drop_bit 1 ?v0"
  let ?v2 = "?v1 OR drop_bit 2 ?v1"
  let ?v3 = "?v2 OR drop_bit 4 ?v2"
  let ?v4 = "?v3 OR drop_bit 8 ?v3"
  let ?v5 = "?v4 OR drop_bit 16 ?v4"
  let ?v6 = "?v5 OR drop_bit 32 ?v5"
  have 1: "smeared 2 ?v0 ?v1" using smeared_double [OF smeared_start, of ?v0] by (simp add: numeral_2_eq_2)
  have 2: "smeared 4 ?v0 ?v2" using smeared_double [OF 1] by simp
  have 3: "smeared 8 ?v0 ?v3" using smeared_double [OF 2] by simp
  have 4: "smeared 16 ?v0 ?v4" using smeared_double [OF 3] by simp
  have 5: "smeared 32 ?v0 ?v5" using smeared_double [OF 4] by simp
  have 6: "smeared 64 ?v0 ?v6" using smeared_double [OF 5] by simp
  have "roundUp v = ?v6 + 1" by (simp only: roundUp_def Let_def)
  with 6 show ?thesis by blast
qed

lemma unat_mask_plus_1: "k < 32 \<Longrightarrow> unat (mask k + 1 :: u32) = 2 ^ k"
proof -
  assume "k < 32"
  then have "(mask k :: u32) + 1 = 2 ^ k" by (simp add: mask_eq_decr_exp)
  moreover have "(2 ^ k :: nat) < 2 ^ 32" using \<open>k < 32\<close> by (intro power_strict_increasing) simp_all
  then have "unat (of_nat (2 ^ k) :: u32) = 2 ^ k" by (subst unat_of_nat) simp
  ultimately show ?thesis by simp
qed

text \<open>\<open>roundUp\<close> returns the smallest power of two that is not below its argument.\<close>

lemma roundUp_power:
  assumes "1 < unat v" and "unat v \<le> 2 ^ 31"
  shows "\<exists>k. 0 < k \<and> k \<le> 31 \<and> unat (roundUp v) = 2 ^ k \<and> unat v \<le> 2 ^ k \<and> 2 ^ k < 2 * unat v"
proof -
  have v: "unat (v - 1) = unat v - 1"
    using assms(1) by (metis less_eq_Suc_le One_nat_def less_imp_le unat_1 unat_sub_if' word_le_nat_alt)
  obtain k where k: "2 ^ k \<le> unat v - 1" "unat v - 1 < 2 ^ (k + 1)"
    using ex_power_ivl1 [of 2 "unat v - 1"] assms(1) by force
  have "2 ^ k < (2 :: nat) ^ 31"
    using k(1) assms by simp
  then have k31: "k < 31" by (rule power_less_imp_less_exp [rotated]) simp
  obtain w where w: "smeared 64 (v - 1) w" "roundUp v = w + 1"
    using roundUp_smeared by blast
  have "w = mask (Suc k)"
    by (rule smeared_all [OF w(1)]) (use k v k31 in simp_all)
  then have "unat (roundUp v) = 2 ^ Suc k"
    using w(2) unat_mask_plus_1 [of "Suc k"] k31 by simp
  then show ?thesis
    using k k31 assms(1) by (intro exI [of _ "Suc k"]) auto
qed

section \<open>The contract of a bounded queue\<close>

datatype 'a queue_op = OpPut 'a | OpGet

text \<open>A sequence of operations on a queue given by its operations: what the gets return, and the queue.\<close>

fun run_ops ::
  "('a \<Rightarrow> 'q \<Rightarrow> ('e, 'q) outcome) \<Rightarrow> ('q \<Rightarrow> ('e, 'a option \<times> 'q) outcome) \<Rightarrow> 'a queue_op list \<Rightarrow> 'q \<Rightarrow>
   ('e, 'a option list \<times> 'q) outcome" where
  "run_ops put get [] q = Ok ([], q)"
| "run_ops put get (OpPut x # ops) q = bind_outcome (put x q) (\<lambda>q'. run_ops put get ops q')"
| "run_ops put get (OpGet # ops) q =
     bind_outcome (get q) (\<lambda>(x, q'). bind_outcome (run_ops put get ops q') (\<lambda>(xs, q''). Ok (x # xs, q'')))"

text \<open>The same on a list with a capacity: a put on a full and a get on an empty list never return.\<close>

fun fifo_run :: "nat \<Rightarrow> 'a queue_op list \<Rightarrow> 'a list \<Rightarrow> ('e, 'a option list \<times> 'a list) outcome" where
  "fifo_run cap [] xs = Ok ([], xs)"
| "fifo_run cap (OpPut x # ops) xs = (if length xs < cap then fifo_run cap ops (xs @ [x]) else Blocked)"
| "fifo_run cap (OpGet # ops) [] = Blocked"
| "fifo_run cap (OpGet # ops) (x # xs) =
     bind_outcome (fifo_run cap ops xs) (\<lambda>(ys, zs). Ok (Some x # ys, zs))"

locale bounded_fifo =
  fixes invar :: "'q \<Rightarrow> bool" and content :: "'q \<Rightarrow> 'a list" and capacity :: "'q \<Rightarrow> nat"
    and put :: "'a \<Rightarrow> 'q \<Rightarrow> ('e, 'q) outcome" and get :: "'q \<Rightarrow> ('e, 'a option \<times> 'q) outcome"
    and len :: "'q \<Rightarrow> u32"
  assumes put_room: "invar q \<Longrightarrow> length (content q) < capacity q \<Longrightarrow>
      \<exists>q'. put x q = Ok q' \<and> invar q' \<and> content q' = content q @ [x] \<and> capacity q' = capacity q"
    and put_full: "invar q \<Longrightarrow> capacity q \<le> length (content q) \<Longrightarrow> put x q = Blocked"
    and get_first: "invar q \<Longrightarrow> content q = x # xs \<Longrightarrow>
      \<exists>q'. get q = Ok (Some x, q') \<and> invar q' \<and> content q' = xs \<and> capacity q' = capacity q"
    and get_empty: "invar q \<Longrightarrow> content q = [] \<Longrightarrow> get q = Blocked"
    and len_content: "invar q \<Longrightarrow> len q = of_nat (length (content q))"
    and content_bound: "invar q \<Longrightarrow> length (content q) \<le> capacity q \<and> capacity q < 2 ^ 32"
begin

lemma unat_len: "invar q \<Longrightarrow> unat (len q) = length (content q)"
  using content_bound [of q] by (simp add: len_content unat_of_nat)

lemma put_cases:
  assumes "invar q"
  obtains q' where "put x q = Ok q'" "invar q'" "content q' = content q @ [x]" "capacity q' = capacity q"
      "length (content q) < capacity q"
  | "put x q = Blocked" "length (content q) = capacity q"
  using assms put_room [OF assms, of x] put_full [OF assms, of x] content_bound [OF assms] by fastforce

lemma get_cases:
  assumes "invar q"
  obtains x xs q' where "content q = x # xs" "get q = Ok (Some x, q')" "invar q'" "content q' = xs"
      "capacity q' = capacity q"
  | "content q = []" "get q = Blocked"
  using get_first [OF assms] get_empty [OF assms] by (cases "content q") blast+

lemma run_refines:
  assumes "invar q"
  shows "bind_outcome (run_ops put get ops q) (\<lambda>(ys, q'). Ok (ys, content q')) = fifo_run (capacity q) ops (content q)"
  using assms
proof (induction ops arbitrary: q)
  case (Cons op ops)
  show ?case
  proof (cases op)
    case (OpPut x)
    show ?thesis
    proof (rule put_cases [OF Cons.prems, of x])
      fix q' assume "put x q = Ok q'" "invar q'" "content q' = content q @ [x]" "capacity q' = capacity q"
        "length (content q) < capacity q"
      then show ?thesis using Cons.IH [of q'] OpPut by simp
    qed (simp add: OpPut)
  next
    case OpGet
    show ?thesis
    proof (rule get_cases [OF Cons.prems])
      fix x xs q' assume g: "content q = x # xs" "get q = Ok (Some x, q')" "invar q'" "content q' = xs"
        "capacity q' = capacity q"
      then have "fifo_run (capacity q) (op # ops) (content q) =
          bind_outcome (bind_outcome (run_ops put get ops q') (\<lambda>(ys, q'). Ok (ys, content q'))) (\<lambda>(ys, zs). Ok (Some x # ys, zs))"
        using Cons.IH [of q'] OpGet by simp
      also have "\<dots> = bind_outcome (run_ops put get (op # ops) q) (\<lambda>(ys, q'). Ok (ys, content q'))"
        using g OpGet by (simp add: bind_outcome_assoc case_prod_beta)
      finally show ?thesis by simp
    qed (simp add: OpGet)
  qed
qed simp

end

section \<open>The ring buffer fulfils it\<close>

definition slot :: "nat \<Rightarrow> u32 \<Rightarrow> nat" where
  "slot k p = unat p mod 2 ^ k"

text \<open>
  A ring of \<open>2 ^ k\<close> nodes holding \<open>xs\<close>: the node of the i-th position from the read position carries
  the i-th element and the position after its own, the nodes behind carry their own positions.
\<close>

definition ring_ok :: "nat \<Rightarrow> 'a RingBuffer \<Rightarrow> 'a list \<Rightarrow> bool" where
  "ring_ok k rb xs \<longleftrightarrow>
     0 < k \<and> k \<le> 31 \<and> length (rb_nodes rb) = 2 ^ k \<and> rb_mask rb = mask k \<and> \<not> rb_disposed rb \<and>
     rb_queue rb = rb_dequeue rb + of_nat (length xs) \<and> length xs \<le> 2 ^ k \<and>
     (\<forall>i<2 ^ k. let p = rb_dequeue rb + of_nat i; n = rb_nodes rb ! slot k p in
        if i < length xs then n = \<lparr>nd_position = p + 1, nd_data = Some (xs ! i)\<rparr> else nd_position n = p)"

definition ring_content :: "'a RingBuffer \<Rightarrow> 'a list" where
  "ring_content rb =
     map (\<lambda>i. the (nd_data (rb_nodes rb ! unat (rb_dequeue rb + of_nat i AND rb_mask rb)))) [0..<unat (RingBuffer_Len rb)]"

definition ring_invar :: "'a RingBuffer \<Rightarrow> bool" where
  "ring_invar rb \<longleftrightarrow> (\<exists>k xs. ring_ok k rb xs)"

lemma slot_index: "k \<le> 31 \<Longrightarrow> unat (p AND mask k) = slot k p"
  by (simp add: slot_def unsigned_take_bit_eq flip: take_bit_eq_mask take_bit_eq_mod)

lemma slot_add: "k \<le> 31 \<Longrightarrow> slot k (d + of_nat i) = (unat d + i) mod 2 ^ k"
proof -
  assume "k \<le> 31"
  then have dvd: "(2 :: nat) ^ k dvd 2 ^ 32" by (intro le_imp_power_dvd) simp
  have "unat (d + of_nat i) = (unat d + i) mod 2 ^ 32"
    by (simp add: unat_word_ariths unat_of_nat mod_add_right_eq)
  then show ?thesis by (simp add: slot_def mod_mod_cancel [OF dvd] del: power_numeral)
qed

lemma slot_inj:
  assumes "k \<le> 31" and "i < 2 ^ k" and "j < 2 ^ k"
  shows "slot k (d + of_nat i) = slot k (d + of_nat j) \<longleftrightarrow> i = j"
proof
  assume eq: "slot k (d + of_nat i) = slot k (d + of_nat j)"
  let ?m = "2 ^ k :: nat"
  have "(unat d + i) mod ?m = (unat d + j) mod ?m" using eq assms(1) by (simp add: slot_add)
  then have "i mod ?m = j mod ?m" by (simp add: nat_mod_eq_iff) 
  then show "i = j" using assms by simp
qed simp

lemma ring_ok_node:
  assumes "ring_ok k rb xs" and "i < 2 ^ k"
  shows "i < length xs \<Longrightarrow> rb_nodes rb ! slot k (rb_dequeue rb + of_nat i) =
      \<lparr>nd_position = rb_dequeue rb + of_nat i + 1, nd_data = Some (xs ! i)\<rparr>"
    "length xs \<le> i \<Longrightarrow> nd_position (rb_nodes rb ! slot k (rb_dequeue rb + of_nat i)) = rb_dequeue rb + of_nat i"
  using assms by (simp_all add: ring_ok_def Let_def)

lemma ring_ok_len: "ring_ok k rb xs \<Longrightarrow> unat (RingBuffer_Len rb) = length xs"
proof -
  assume ok: "ring_ok k rb xs"
  then have "length xs \<le> 2 ^ k" "k \<le> 31" by (simp_all add: ring_ok_def)
  then have "length xs < 2 ^ 32"
    using power_increasing [of k 31 "2 :: nat"] by simp
  with ok show ?thesis by (simp add: ring_ok_def RingBuffer_Len_def unat_of_nat)
qed

lemma ring_ok_content: "ring_ok k rb xs \<Longrightarrow> ring_content rb = xs"
proof (rule nth_equalityI)
  assume ok: "ring_ok k rb xs"
  show "length (ring_content rb) = length xs"
    using ring_ok_len [OF ok] by (simp add: ring_content_def)
  fix i assume "i < length (ring_content rb)"
  then have i: "i < length xs" using ring_ok_len [OF ok] by (simp add: ring_content_def)
  have "i < 2 ^ k" "k \<le> 31" "rb_mask rb = mask k" using ok i by (simp_all add: ring_ok_def)
  then show "ring_content rb ! i = xs ! i"
    using ring_ok_node(1) [OF ok _ i] i ring_ok_len [OF ok]
    by (simp add: ring_content_def slot_index)
qed

lemma slot_less: "slot k p < 2 ^ k"
  by (simp add: slot_def)

lemma ring_put:
  assumes ok: "ring_ok k rb xs" and room: "length xs < 2 ^ k"
  shows "\<exists>rb'. RingBuffer_Put x rb = Ok rb' \<and> ring_ok k rb' (xs @ [x])"
proof -
  let ?d = "rb_dequeue rb" and ?n = "length xs"
  let ?pos = "?d + of_nat ?n"
  let ?rb = "rb\<lparr>rb_queue := ?pos + 1,
      rb_nodes := (rb_nodes rb)[slot k ?pos := \<lparr>nd_position = ?pos + 1, nd_data = Some x\<rparr>]\<rparr>"
  have k: "k \<le> 31" "rb_queue rb = ?pos" "rb_mask rb = mask k" "length (rb_nodes rb) = 2 ^ k" "\<not> rb_disposed rb"
    using ok by (simp_all add: ring_ok_def)
  have "RingBuffer_Put x rb = Ok ?rb"
    using k ring_ok_node(2) [OF ok room] slot_less [of k ?pos]
    by (simp add: RingBuffer_Put_def Let_def slot_index)
  moreover have "ring_ok k ?rb (xs @ [x])"
    unfolding ring_ok_def Let_def
  proof (intro conjI allI impI)
    fix i :: nat assume i: "i < 2 ^ k"
    show "if i < length (xs @ [x])
          then rb_nodes ?rb ! slot k (rb_dequeue ?rb + of_nat i) =
            \<lparr>nd_position = rb_dequeue ?rb + of_nat i + 1, nd_data = Some ((xs @ [x]) ! i)\<rparr>
          else nd_position (rb_nodes ?rb ! slot k (rb_dequeue ?rb + of_nat i)) = rb_dequeue ?rb + of_nat i"
    proof (cases "i = ?n")
      case True
      then show ?thesis using k slot_less [of k ?pos] by simp
    next
      case False
      then have "slot k (?d + of_nat i) \<noteq> slot k ?pos" using slot_inj [OF k(1) i room] by simp
      then show ?thesis using ring_ok_node [OF ok i] False by (simp add: nth_append)
    qed
  qed (use ok room in \<open>simp_all add: ring_ok_def\<close>)
  ultimately show ?thesis by blast
qed

lemma two_power_word_neq: "0 < k \<Longrightarrow> k \<le> 31 \<Longrightarrow> (2 ^ k :: u32) \<noteq> 1"
proof
  assume k: "0 < k" "k \<le> 31" and "(2 ^ k :: u32) = 1"
  then have "unat (mask k + 1 :: u32) = 1" by (simp add: mask_eq_decr_exp)
  moreover have "(1 :: nat) < 2 ^ k" using k(1) by (intro one_less_power) simp_all
  ultimately show False using k unat_mask_plus_1 [of k] by simp
qed

lemma ring_put_full:
  assumes ok: "ring_ok k rb xs" and full: "2 ^ k \<le> length xs"
  shows "RingBuffer_Put x rb = Blocked"
proof -
  let ?d = "rb_dequeue rb"
  have k: "0 < k" "k \<le> 31" "length xs = 2 ^ k" "rb_mask rb = mask k" "length (rb_nodes rb) = 2 ^ k"
      "\<not> rb_disposed rb" "rb_queue rb = ?d + of_nat (2 ^ k)"
    using ok full by (auto simp: ring_ok_def)
  have "slot k (?d + of_nat (2 ^ k)) = slot k (?d + of_nat 0)"
    using k(2) by (simp only: slot_add) simp
  moreover have "rb_nodes rb ! slot k (?d + of_nat 0) = \<lparr>nd_position = ?d + of_nat 0 + 1, nd_data = Some (xs ! 0)\<rparr>"
    by (rule ring_ok_node(1) [OF ok]) (simp_all add: k(3))
  ultimately have "nd_position (rb_nodes rb ! slot k (rb_queue rb)) = ?d + 1"
    by (simp add: k(7))
  then have "nd_position (rb_nodes rb ! slot k (rb_queue rb)) \<noteq> rb_queue rb"
    using two_power_word_neq [OF k(1,2)] by (simp add: k(7))
  then show ?thesis
    using k(1-6) slot_less [of k "rb_queue rb"] by (simp add: RingBuffer_Put_def Let_def slot_index)
qed

lemma ring_get:
  assumes ok: "ring_ok k rb (x # xs)"
  shows "\<exists>rb'. RingBuffer_Get rb = Ok (Some x, rb') \<and> ring_ok k rb' xs"
proof -
  let ?d = "rb_dequeue rb"
  let ?rb = "rb\<lparr>rb_dequeue := ?d + 1,
      rb_nodes := (rb_nodes rb)[slot k ?d := \<lparr>nd_position = ?d + mask k + 1, nd_data = None\<rparr>]\<rparr>"
  have k: "0 < k" "k \<le> 31" "rb_mask rb = mask k" "length (rb_nodes rb) = 2 ^ k" "\<not> rb_disposed rb"
      "Suc (length xs) \<le> 2 ^ k"
    using ok by (simp_all add: ring_ok_def)
  have first: "rb_nodes rb ! slot k ?d = \<lparr>nd_position = ?d + 1, nd_data = Some x\<rparr>"
    using ring_ok_node(1) [OF ok, of 0] by simp
  have "RingBuffer_Get rb = Ok (Some x, ?rb)"
    using k first slot_less [of k ?d] by (simp add: RingBuffer_Get_def Let_def slot_index)
  moreover have "ring_ok k ?rb xs"
    unfolding ring_ok_def Let_def
  proof (intro conjI allI impI)
    fix i :: nat assume i: "i < 2 ^ k"
    let ?p = "?d + of_nat (Suc i)"
    have p: "rb_dequeue ?rb + of_nat i = ?p" by simp
    have "if i < length xs then rb_nodes ?rb ! slot k ?p = \<lparr>nd_position = ?p + 1, nd_data = Some (xs ! i)\<rparr>
          else nd_position (rb_nodes ?rb ! slot k ?p) = ?p"
    proof (cases "Suc i = 2 ^ k")
      case True
      then have "slot k ?p = slot k ?d" using slot_add [OF k(2), of ?d "Suc i"] by (simp add: slot_def)
      moreover have "?p = ?d + mask k + 1"
        using True by (metis add.assoc mask_eq_decr_exp diff_add_cancel of_nat_numeral of_nat_power)
      ultimately show ?thesis using True k slot_less [of k ?d] by simp
    next
      case False
      then have i': "Suc i < 2 ^ k" using i by simp
      then have "slot k ?p \<noteq> slot k ?d" using slot_inj [OF k(2) i', of 0 ?d] k(1) by simp
      then show ?thesis using ring_ok_node [OF ok i'] by simp
    qed
    then show "if i < length xs
          then rb_nodes ?rb ! slot k (rb_dequeue ?rb + of_nat i) =
            \<lparr>nd_position = rb_dequeue ?rb + of_nat i + 1, nd_data = Some (xs ! i)\<rparr>
          else nd_position (rb_nodes ?rb ! slot k (rb_dequeue ?rb + of_nat i)) = rb_dequeue ?rb + of_nat i"
      unfolding p .
  qed (use ok in \<open>simp_all add: ring_ok_def\<close>)
  ultimately show ?thesis by blast
qed

lemma ring_get_empty:
  assumes ok: "ring_ok k rb []"
  shows "RingBuffer_Get rb = Blocked"
proof -
  have k: "k \<le> 31" "rb_mask rb = mask k" "length (rb_nodes rb) = 2 ^ k" "\<not> rb_disposed rb"
    using ok by (simp_all add: ring_ok_def)
  have "nd_position (rb_nodes rb ! slot k (rb_dequeue rb)) = rb_dequeue rb"
    using ring_ok_node(2) [OF ok, of 0] by simp
  then show ?thesis
    using k slot_less [of k "rb_dequeue rb"] by (simp add: RingBuffer_Get_def Let_def slot_index)
qed

lemma ring_new:
  assumes "1 < unat sz" and "unat sz \<le> 2 ^ 31"
  shows "\<exists>k. ring_ok k (NewRingBuffer sz) [] \<and> unat sz \<le> 2 ^ k \<and> 2 ^ k < 2 * unat sz"
proof -
  obtain k where k: "0 < k" "k \<le> 31" "unat (roundUp sz) = 2 ^ k" "unat sz \<le> 2 ^ k" "2 ^ k < 2 * unat sz"
    using roundUp_power [OF assms] by blast
  have "roundUp sz = 2 ^ k"
    using arg_cong [OF k(3), of "of_nat :: nat \<Rightarrow> u32"] by simp
  then have mask: "roundUp sz - 1 = mask k" by (simp add: mask_eq_decr_exp)
  have "slot k (of_nat i) = i" if "i < 2 ^ k" for i
    using slot_add [OF k(2), of 0 i] that by simp
  then have "ring_ok k (NewRingBuffer sz) []"
    using k(1-3) mask by (simp add: ring_ok_def NewRingBuffer_def Let_def)
  with k show ?thesis by blast
qed

interpretation ring: bounded_fifo ring_invar ring_content "\<lambda>rb. length (rb_nodes rb)"
  RingBuffer_Put RingBuffer_Get RingBuffer_Len
proof
  fix q :: "'a RingBuffer" and x :: 'a
  assume inv: "ring_invar q"
  then obtain k where ok: "ring_ok k q (ring_content q)"
    using ring_ok_content unfolding ring_invar_def by metis
  then have k: "k \<le> 31" "length (rb_nodes q) = 2 ^ k" "length (ring_content q) \<le> 2 ^ k"
    by (simp_all add: ring_ok_def)
  have cap: "length (rb_nodes q') = 2 ^ k" if "ring_ok k q' xs" for q' :: "'a RingBuffer" and xs
    using that by (simp add: ring_ok_def)
  show "length (ring_content q) \<le> length (rb_nodes q) \<and> length (rb_nodes q) < 2 ^ 32"
    using k power_increasing [of k 31 "2 :: nat"] by simp
  show "RingBuffer_Len q = of_nat (length (ring_content q))"
    using ok by (simp add: ring_ok_def RingBuffer_Len_def)
  show "\<exists>q'. RingBuffer_Put x q = Ok q' \<and> ring_invar q' \<and> ring_content q' = ring_content q @ [x] \<and>
      length (rb_nodes q') = length (rb_nodes q)" if "length (ring_content q) < length (rb_nodes q)"
    using ring_put [OF ok, of x] that k ring_ok_content cap unfolding ring_invar_def by metis
  show "RingBuffer_Put x q = Blocked" if "length (rb_nodes q) \<le> length (ring_content q)"
    using ring_put_full [OF ok] that k by simp
  show "RingBuffer_Get q = Blocked" if "ring_content q = []"
    using ring_get_empty ok that by simp
  show "\<exists>q'. RingBuffer_Get q = Ok (Some x, q') \<and> ring_invar q' \<and> ring_content q' = xs \<and>
      length (rb_nodes q') = length (rb_nodes q)" if c: "ring_content q = x # xs" for xs
  proof -
    obtain q' where "RingBuffer_Get q = Ok (Some x, q')" "ring_ok k q' xs"
      using ring_get [of k q x xs] ok [unfolded c] by blast
    then show ?thesis using ring_ok_content [of k q' xs] cap k unfolding ring_invar_def by metis
  qed
qed

lemma ring_new_invar:
  assumes "1 < unat sz" and "unat sz \<le> 2 ^ 31"
  shows "ring_invar (NewRingBuffer sz :: 'a RingBuffer)" "ring_content (NewRingBuffer sz :: 'a RingBuffer) = []"
    "unat sz \<le> length (rb_nodes (NewRingBuffer sz :: 'a RingBuffer))"
    "length (rb_nodes (NewRingBuffer sz :: 'a RingBuffer)) < 2 * unat sz"
proof -
  obtain k where k: "ring_ok k (NewRingBuffer sz :: 'a RingBuffer) []" "unat sz \<le> 2 ^ k" "2 ^ k < 2 * unat sz"
    using ring_new [OF assms] by blast
  show "unat sz \<le> length (rb_nodes (NewRingBuffer sz :: 'a RingBuffer))"
    "length (rb_nodes (NewRingBuffer sz :: 'a RingBuffer)) < 2 * unat sz"
    using k by (simp_all add: ring_ok_def)
  show "ring_invar (NewRingBuffer sz :: 'a RingBuffer)" "ring_content (NewRingBuffer sz :: 'a RingBuffer) = []"
    using ring_new [OF assms] ring_ok_content unfolding ring_invar_def by blast+
qed



text \<open>
  A buffer made for one element does not keep it: the position of a written node equals the next
  write position, so that the second put overwrites the first element instead of waiting.
\<close>

lemma ring_of_one_overwrites:
  "run_ops RingBuffer_Put RingBuffer_Get [OpPut 1, OpPut 2] (NewRingBuffer 1) =
     Ok ([], \<lparr>rb_queue = 2, rb_dequeue = 0, rb_mask = 0, rb_disposed = False,
              rb_nodes = [\<lparr>nd_position = 2, nd_data = Some (2 :: nat)\<rparr>]\<rparr>)"
  by (simp add: RingBuffer_Put_def NewRingBuffer_def roundUp_def)

end
