(* ===== verification/BoostScale.thy ===== *)
theory BoostScale
  imports HttpClient RingBuffer
begin

text \<open>
  The boost controller of the HTTP client, \<^verbatim>\<open>transport/http/httpClient/boost.go\<close>. A worker turns boost
  requests into the number of additional connections wanted in each direction; one manager per
  direction starts one connection per second or ends one every 15 seconds until it has as many, and
  keeps the cancel functions of its connections in a ring buffer (\<open>RingBuffer\<close>).
\<close>

section \<open>The worker\<close>

record boost_worker =
  wk_currentlyBoosting :: bool
  wk_TxBoostCurrentSize :: int
  wk_RxBoostCurrentSize :: int
  wk_boostEnd :: "int option"
  wk_TxBoostExpectedSize :: "int chan"
  wk_RxBoostExpectedSize :: "int chan"

definition http_boostWorker_start :: boost_worker where
  "http_boostWorker_start = \<lparr>wk_currentlyBoosting = False, wk_TxBoostCurrentSize = 0, wk_RxBoostCurrentSize = 0,
     wk_boostEnd = None, wk_TxBoostExpectedSize = make_chan 8, wk_RxBoostExpectedSize = make_chan 8\<rparr>"

text \<open>Integer division of Go by 8 cuts toward zero.\<close>

definition eighth :: "int \<Rightarrow> int" where
  "eighth n = (if n < 0 then - ((- n) div 8) else n div 8)"

definition send_sizes :: "int \<Rightarrow> int \<Rightarrow> boost_worker \<Rightarrow> boost_worker" where
  "send_sizes tx rx w = w\<lparr>wk_TxBoostExpectedSize := chan_send (wk_TxBoostExpectedSize w) tx,
     wk_RxBoostExpectedSize := chan_send (wk_RxBoostExpectedSize w) rx\<rparr>"

text \<open>
  One turn of the worker; the Boolean is that it returns. The events are those of the worker of the
  server: a request, the end of the context, the timer.
\<close>

definition http_boostWorker_step :: "ProviderClient \<Rightarrow> int \<Rightarrow> boost_event \<Rightarrow> boost_worker \<Rightarrow> bool \<times> boost_worker" where
  "http_boostWorker_step pc now ev w =
     (let maxTx = hc_MaxBoostTxConnection pc; maxRx = hc_MaxBoostRxConnection pc in
      case ev of
        BoostInfo enable boosttime \<Rightarrow>
          if enable then
            let w1 = (if \<not> wk_currentlyBoosting w then
                        (send_sizes (eighth maxTx) (eighth maxRx) w)\<lparr>wk_currentlyBoosting := True,
                          wk_TxBoostCurrentSize := eighth maxTx, wk_RxBoostCurrentSize := eighth maxRx\<rparr>
                      else w);
                w2 = w1\<lparr>wk_boostEnd := Some (now + boosttime)\<rparr>;
                w3 = (if maxTx > wk_TxBoostCurrentSize w2 then
                        w2\<lparr>wk_TxBoostCurrentSize := wk_TxBoostCurrentSize w2 + 1,
                           wk_TxBoostExpectedSize := chan_send (wk_TxBoostExpectedSize w2) (wk_TxBoostCurrentSize w2 + 1)\<rparr>
                      else w2);
                w4 = (if maxRx > wk_RxBoostCurrentSize w3 then
                        w3\<lparr>wk_RxBoostCurrentSize := wk_RxBoostCurrentSize w3 + 1,
                           wk_RxBoostExpectedSize := chan_send (wk_RxBoostExpectedSize w3) (wk_RxBoostCurrentSize w3 + 1)\<rparr>
                      else w3)
            in (False, w4)
          else (False, (send_sizes 0 0 w)\<lparr>wk_currentlyBoosting := False\<rparr>)
      | BoostTimer \<Rightarrow> (False, (send_sizes 0 0 w)\<lparr>wk_currentlyBoosting := False, wk_boostEnd := None\<rparr>)
      | BoostDone \<Rightarrow> (True, w))"

section \<open>The managers\<close>

text \<open>
  A manager with what it did: the contexts it has started a dialer in, and those it cancelled, in
  order. Contexts are numbered. The redial flag is shared by all dialers of the manager.
\<close>

record scale_mgr =
  sm_cancelQueue :: "nat RingBuffer"
  sm_expectedSizeLast :: int
  sm_RxGracePeriodCharges :: int
  sm_ShouldNotReDial :: bool
  sm_next :: nat
  sm_dialed :: "(nat \<times> dialer) list"
  sm_cancelled :: "nat list"

definition boostConnScaleMgr_start :: "ProviderClient \<Rightarrow> scale_mgr" where
  "boostConnScaleMgr_start pc =
     \<lparr>sm_cancelQueue = NewRingBuffer (of_int (hc_MaxBoostRxConnection pc + hc_MaxTxConnection pc + 10)),
      sm_expectedSizeLast = 0, sm_RxGracePeriodCharges = 4, sm_ShouldNotReDial = True, sm_next = 0,
      sm_dialed = [], sm_cancelled = []\<rparr>"

datatype mgr_event = MgrDone | DownscaleTick | ExpectedSize int | UpscaleTick

text \<open>One turn of a manager; a missing cancel function would fail the type assertion.\<close>

definition boostConnScaleMgr_step ::
  "ProviderClient \<Rightarrow> bool \<Rightarrow> mgr_event \<Rightarrow> scale_mgr \<Rightarrow> (ring_error, bool \<times> scale_mgr) outcome" where
  "boostConnScaleMgr_step pc isTx ev m =
     (case ev of
        MgrDone \<Rightarrow> Ok (True, m)
      | DownscaleTick \<Rightarrow>
          if RingBuffer_Len (sm_cancelQueue m) > of_int (sm_expectedSizeLast m) then
            let m1 = m\<lparr>sm_ShouldNotReDial := True\<rparr> in
            if sm_RxGracePeriodCharges m \<le> 0 \<or> isTx then
              (case RingBuffer_Get (sm_cancelQueue m) of
                 Ok (Some c, q) \<Rightarrow> Ok (False, m1\<lparr>sm_cancelQueue := q, sm_cancelled := sm_cancelled m @ [c]\<rparr>)
               | Ok (None, q) \<Rightarrow> Panic
               | Err e \<Rightarrow> Panic
               | Panic \<Rightarrow> Panic
               | Blocked \<Rightarrow> Blocked)
            else Ok (False, m1\<lparr>sm_RxGracePeriodCharges := sm_RxGracePeriodCharges m - 1\<rparr>)
          else Ok (False, m)
      | ExpectedSize n \<Rightarrow> Ok (False, m\<lparr>sm_expectedSizeLast := n\<rparr>)
      | UpscaleTick \<Rightarrow>
          if of_int (sm_expectedSizeLast m) > RingBuffer_Len (sm_cancelQueue m) then
            let c = sm_next m;
                d = (if hc_useWebsocket pc then WsDialer else if isTx then TxDialer else RxDialer);
                m1 = m\<lparr>sm_ShouldNotReDial := False, sm_RxGracePeriodCharges := 4, sm_next := Suc c,
                       sm_dialed := sm_dialed m @ [(c, d)]\<rparr>
            in bind_outcome (RingBuffer_Put c (sm_cancelQueue m)) (\<lambda>q. Ok (False, m1\<lparr>sm_cancelQueue := q\<rparr>))
          else Ok (False, m))"

text \<open>The context a boost connection is dialled in.\<close>

definition boost_ctx :: "go_ctx \<Rightarrow> nat \<Rightarrow> nat \<Rightarrow> go_ctx" where
  "boost_ctx boostingconnctx c flag =
     WithValue (WithCancel (WithValue boostingconnctx ExtraOptionsHTTPTransportConnIsBoostConnection (OV_bool True)) c)
       ExtraOptionsBoostConnectionShouldNotRedial (OV_ShouldNotRedial flag)"

section \<open>Turns of a manager\<close>

abbreviation live :: "scale_mgr \<Rightarrow> nat list" where
  "live m \<equiv> ring_content (sm_cancelQueue m)"

text \<open>
  What holds of a manager that is never asked for more than \<open>M\<close> connections: it has at most \<open>M\<close>, there
  is room for them, and it has dialled the cancelled and the live ones, in this order and each once.
\<close>

definition mgr_ok :: "nat \<Rightarrow> scale_mgr \<Rightarrow> bool" where
  "mgr_ok M m \<longleftrightarrow> ring_invar (sm_cancelQueue m) \<and> M \<le> length (rb_nodes (sm_cancelQueue m)) \<and>
     0 \<le> sm_expectedSizeLast m \<and> sm_expectedSizeLast m \<le> int M \<and> length (live m) \<le> M \<and>
     0 \<le> sm_RxGracePeriodCharges m \<and> sm_RxGracePeriodCharges m \<le> 4 \<and>
     map fst (sm_dialed m) = sm_cancelled m @ live m \<and> sm_cancelled m @ live m = [0..<sm_next m]"

lemma expected_word:
  assumes "mgr_ok M m"
  shows "unat (of_int (sm_expectedSizeLast m) :: u32) = nat (sm_expectedSizeLast m)"
    "(of_int (sm_expectedSizeLast m) > RingBuffer_Len (sm_cancelQueue m)) \<longleftrightarrow> length (live m) < nat (sm_expectedSizeLast m)"
    "(RingBuffer_Len (sm_cancelQueue m) > of_int (sm_expectedSizeLast m)) \<longleftrightarrow> nat (sm_expectedSizeLast m) < length (live m)"
proof -
  have m: "ring_invar (sm_cancelQueue m)" "0 \<le> sm_expectedSizeLast m" "nat (sm_expectedSizeLast m) < 2 ^ 32"
    using assms ring.content_bound [of "sm_cancelQueue m"] by (auto simp: mgr_ok_def)
  then have "of_int (sm_expectedSizeLast m) = (of_nat (nat (sm_expectedSizeLast m)) :: u32)" by simp
  then show e: "unat (of_int (sm_expectedSizeLast m) :: u32) = nat (sm_expectedSizeLast m)"
    using m(3) by (simp only: unat_of_nat) simp
  show "(of_int (sm_expectedSizeLast m) > RingBuffer_Len (sm_cancelQueue m)) \<longleftrightarrow> length (live m) < nat (sm_expectedSizeLast m)"
    "(RingBuffer_Len (sm_cancelQueue m) > of_int (sm_expectedSizeLast m)) \<longleftrightarrow> nat (sm_expectedSizeLast m) < length (live m)"
    using e ring.unat_len [OF m(1)] by (simp_all add: word_less_nat_alt)
qed

lemma upscale_cases:
  assumes "mgr_ok M m"
  shows "if length (live m) < nat (sm_expectedSizeLast m)
     then \<exists>m'. boostConnScaleMgr_step pc isTx UpscaleTick m = Ok (False, m') \<and> mgr_ok M m' \<and>
       live m' = live m @ [sm_next m] \<and> sm_expectedSizeLast m' = sm_expectedSizeLast m \<and>
       sm_RxGracePeriodCharges m' = 4 \<and> \<not> sm_ShouldNotReDial m' \<and> sm_cancelled m' = sm_cancelled m
     else boostConnScaleMgr_step pc isTx UpscaleTick m = Ok (False, m)"
proof (cases "length (live m) < nat (sm_expectedSizeLast m)")
  case True
  have m: "ring_invar (sm_cancelQueue m)" "length (live m) < length (rb_nodes (sm_cancelQueue m))"
    using assms True by (auto simp: mgr_ok_def)
  obtain q where q: "RingBuffer_Put (sm_next m) (sm_cancelQueue m) = Ok q" "ring_invar q"
      "ring_content q = live m @ [sm_next m]" "length (rb_nodes q) = length (rb_nodes (sm_cancelQueue m))"
    using ring.put_room [OF m] by blast
  show ?thesis
    using True q assms expected_word(2) [OF assms]
    by (auto simp: boostConnScaleMgr_step_def Let_def mgr_ok_def)
qed (use expected_word(2) [OF assms] in \<open>simp add: boostConnScaleMgr_step_def\<close>)

lemma downscale_cases:
  assumes "mgr_ok M m"
  shows "if nat (sm_expectedSizeLast m) < length (live m) then
       \<exists>m'. boostConnScaleMgr_step pc isTx DownscaleTick m = Ok (False, m') \<and> mgr_ok M m' \<and>
         sm_expectedSizeLast m' = sm_expectedSizeLast m \<and> sm_ShouldNotReDial m' \<and>
         (if sm_RxGracePeriodCharges m \<le> 0 \<or> isTx
          then live m' = tl (live m) \<and> sm_cancelled m' = sm_cancelled m @ [hd (live m)] \<and>
            sm_RxGracePeriodCharges m' = sm_RxGracePeriodCharges m
          else live m' = live m \<and> sm_cancelled m' = sm_cancelled m \<and>
            sm_RxGracePeriodCharges m' = sm_RxGracePeriodCharges m - 1)
     else boostConnScaleMgr_step pc isTx DownscaleTick m = Ok (False, m)"
proof (cases "nat (sm_expectedSizeLast m) < length (live m)")
  case True
  then obtain c cs where c: "live m = c # cs" by (cases "live m") auto
  have "ring_invar (sm_cancelQueue m)" using assms by (simp add: mgr_ok_def)
  from ring.get_first [OF this c] obtain q where q: "RingBuffer_Get (sm_cancelQueue m) = Ok (Some c, q)" "ring_invar q"
      "ring_content q = cs" "length (rb_nodes q) = length (rb_nodes (sm_cancelQueue m))"
    by blast
  show ?thesis
    using True q c assms expected_word(3) [OF assms]
    by (auto simp: boostConnScaleMgr_step_def Let_def mgr_ok_def)
qed (use expected_word(3) [OF assms] in \<open>simp add: boostConnScaleMgr_step_def\<close>)

lemma mgr_step_ok:
  assumes "mgr_ok M m" and "\<And>n. ev = ExpectedSize n \<Longrightarrow> 0 \<le> n \<and> n \<le> int M"
  shows "\<exists>stop m'. boostConnScaleMgr_step pc isTx ev m = Ok (stop, m') \<and> mgr_ok M m'"
proof (cases ev)
  case (ExpectedSize n)
  then show ?thesis using assms by (auto simp: boostConnScaleMgr_step_def mgr_ok_def)
next
  case UpscaleTick
  then show ?thesis using upscale_cases [OF assms(1), of pc isTx] assms(1) by (auto split: if_splits)
next
  case DownscaleTick
  then show ?thesis using downscale_cases [OF assms(1), of pc isTx] assms(1) by (fastforce split: if_splits)
qed (use assms in \<open>auto simp: boostConnScaleMgr_step_def\<close>)

lemma mgr_start_ok:
  assumes "0 \<le> hc_MaxBoostRxConnection pc" and "0 \<le> hc_MaxTxConnection pc"
    and "hc_MaxBoostRxConnection pc + hc_MaxTxConnection pc + 10 \<le> 2 ^ 31"
    and "int M \<le> hc_MaxBoostRxConnection pc + hc_MaxTxConnection pc + 10"
  shows "mgr_ok M (boostConnScaleMgr_start pc)"
proof -
  let ?n = "hc_MaxBoostRxConnection pc + hc_MaxTxConnection pc + 10"
  have "of_int ?n = (of_nat (nat ?n) :: u32)" using assms by simp
  moreover have "unat (of_nat (nat ?n) :: u32) = nat ?n" using assms by (subst unat_of_nat) simp
  ultimately have n: "unat (of_int ?n :: u32) = nat ?n" by simp
  then have "1 < unat (of_int ?n :: u32)" "unat (of_int ?n :: u32) \<le> 2 ^ 31" using assms by simp_all
  from ring_new_invar [OF this, where 'a = nat] show ?thesis
    using n assms by (simp add: mgr_ok_def boostConnScaleMgr_start_def)
qed

section \<open>The controller\<close>

text \<open>
  Worker and managers together: turns of the worker, ticks of the managers, and the managers taking
  the next size from their channels.
\<close>

record boost_sys =
  bs_worker :: boost_worker
  bs_tx :: scale_mgr
  bs_rx :: scale_mgr

datatype sys_event = WorkerTurn int boost_event | MgrTick bool bool | TakeSize bool

definition boost_sys_start :: "ProviderClient \<Rightarrow> boost_sys" where
  "boost_sys_start pc = \<lparr>bs_worker = http_boostWorker_start, bs_tx = boostConnScaleMgr_start pc, bs_rx = boostConnScaleMgr_start pc\<rparr>"

definition sys_mgr :: "ProviderClient \<Rightarrow> bool \<Rightarrow> mgr_event \<Rightarrow> boost_sys \<Rightarrow> (ring_error, boost_sys) outcome" where
  "sys_mgr pc isTx ev s =
     bind_outcome (boostConnScaleMgr_step pc isTx ev (if isTx then bs_tx s else bs_rx s)) (\<lambda>(_, m).
       Ok (if isTx then s\<lparr>bs_tx := m\<rparr> else s\<lparr>bs_rx := m\<rparr>))"

definition boost_sys_step :: "ProviderClient \<Rightarrow> sys_event \<Rightarrow> boost_sys \<Rightarrow> (ring_error, boost_sys) outcome" where
  "boost_sys_step pc ev s =
     (case ev of
        WorkerTurn now e \<Rightarrow> Ok (s\<lparr>bs_worker := snd (http_boostWorker_step pc now e (bs_worker s))\<rparr>)
      | MgrTick isTx up \<Rightarrow> sys_mgr pc isTx (if up then UpscaleTick else DownscaleTick) s
      | TakeSize isTx \<Rightarrow>
          (case chan_recv (if isTx then wk_TxBoostExpectedSize (bs_worker s) else wk_RxBoostExpectedSize (bs_worker s)) of
             None \<Rightarrow> Ok s
           | Some (n, ch) \<Rightarrow>
               sys_mgr pc isTx (ExpectedSize n)
                 (s\<lparr>bs_worker := (if isTx then (bs_worker s)\<lparr>wk_TxBoostExpectedSize := ch\<rparr>
                                  else (bs_worker s)\<lparr>wk_RxBoostExpectedSize := ch\<rparr>)\<rparr>)))"

fun boost_sys_run :: "ProviderClient \<Rightarrow> sys_event list \<Rightarrow> boost_sys \<Rightarrow> (ring_error, boost_sys) outcome" where
  "boost_sys_run pc [] s = Ok s"
| "boost_sys_run pc (e # es) s = bind_outcome (boost_sys_step pc e s) (boost_sys_run pc es)"

text \<open>The worker only ever asks for sizes between 0 and the configured maximum.\<close>

definition worker_ok :: "ProviderClient \<Rightarrow> boost_worker \<Rightarrow> bool" where
  "worker_ok pc w \<longleftrightarrow>
     0 \<le> wk_TxBoostCurrentSize w \<and> wk_TxBoostCurrentSize w \<le> hc_MaxBoostTxConnection pc \<and>
     0 \<le> wk_RxBoostCurrentSize w \<and> wk_RxBoostCurrentSize w \<le> hc_MaxBoostRxConnection pc \<and>
     (\<forall>n\<in>set (ch_buf (wk_TxBoostExpectedSize w)). 0 \<le> n \<and> n \<le> hc_MaxBoostTxConnection pc) \<and>
     (\<forall>n\<in>set (ch_buf (wk_RxBoostExpectedSize w)). 0 \<le> n \<and> n \<le> hc_MaxBoostRxConnection pc)"

definition sizes_ok :: "ProviderClient \<Rightarrow> bool" where
  "sizes_ok pc \<longleftrightarrow> 0 \<le> hc_MaxTxConnection pc \<and> 0 \<le> hc_MaxBoostRxConnection pc \<and> 0 \<le> hc_MaxBoostTxConnection pc \<and>
     hc_MaxBoostRxConnection pc + hc_MaxTxConnection pc + 10 \<le> 2 ^ 31 \<and>
     hc_MaxBoostTxConnection pc \<le> hc_MaxBoostRxConnection pc + hc_MaxTxConnection pc + 10"

lemma eighth_bounds: "0 \<le> n \<Longrightarrow> 0 \<le> eighth n \<and> eighth n \<le> n"
  by (simp add: eighth_def) presburger

lemma send_sizes_simps [simp]:
  "wk_currentlyBoosting (send_sizes tx rx w) = wk_currentlyBoosting w"
  "wk_TxBoostCurrentSize (send_sizes tx rx w) = wk_TxBoostCurrentSize w"
  "wk_RxBoostCurrentSize (send_sizes tx rx w) = wk_RxBoostCurrentSize w"
  "wk_TxBoostExpectedSize (send_sizes tx rx w) = chan_send (wk_TxBoostExpectedSize w) tx"
  "wk_RxBoostExpectedSize (send_sizes tx rx w) = chan_send (wk_RxBoostExpectedSize w) rx"
  by (simp_all add: send_sizes_def)

lemma worker_step_ok:
  assumes "sizes_ok pc" and "worker_ok pc w"
  shows "worker_ok pc (snd (http_boostWorker_step pc now ev w))"
proof (cases ev)
  case (BoostInfo enable t)
  have "0 \<le> eighth (hc_MaxBoostTxConnection pc)" "eighth (hc_MaxBoostTxConnection pc) \<le> hc_MaxBoostTxConnection pc"
    "0 \<le> eighth (hc_MaxBoostRxConnection pc)" "eighth (hc_MaxBoostRxConnection pc) \<le> hc_MaxBoostRxConnection pc"
    using assms(1) eighth_bounds by (auto simp: sizes_ok_def)
  then show ?thesis
    using assms BoostInfo by (auto simp: http_boostWorker_step_def worker_ok_def sizes_ok_def Let_def)
qed (use assms in \<open>auto simp: http_boostWorker_step_def worker_ok_def sizes_ok_def\<close>)

definition boost_sys_ok :: "ProviderClient \<Rightarrow> boost_sys \<Rightarrow> bool" where
  "boost_sys_ok pc s \<longleftrightarrow> worker_ok pc (bs_worker s) \<and> mgr_ok (nat (hc_MaxBoostTxConnection pc)) (bs_tx s) \<and>
     mgr_ok (nat (hc_MaxBoostRxConnection pc)) (bs_rx s)"

lemma sys_mgr_ok:
  assumes "boost_sys_ok pc s" and "sizes_ok pc"
    and "\<And>n. ev = ExpectedSize n \<Longrightarrow> 0 \<le> n \<and> n \<le> (if isTx then hc_MaxBoostTxConnection pc else hc_MaxBoostRxConnection pc)"
  shows "\<exists>s'. sys_mgr pc isTx ev s = Ok s' \<and> boost_sys_ok pc s'"
proof -
  let ?M = "nat (if isTx then hc_MaxBoostTxConnection pc else hc_MaxBoostRxConnection pc)"
  have "mgr_ok ?M (if isTx then bs_tx s else bs_rx s)"
    using assms(1) by (simp add: boost_sys_ok_def)
  from mgr_step_ok [OF this, of ev pc isTx] assms(2,3)
  obtain stop m' where "boostConnScaleMgr_step pc isTx ev (if isTx then bs_tx s else bs_rx s) = Ok (stop, m')" "mgr_ok ?M m'"
    by (fastforce simp: sizes_ok_def)
  then show ?thesis using assms(1) by (auto simp: sys_mgr_def boost_sys_ok_def)
qed

lemma boost_sys_step_ok:
  assumes "sizes_ok pc" and "boost_sys_ok pc s"
  shows "\<exists>s'. boost_sys_step pc ev s = Ok s' \<and> boost_sys_ok pc s'"
proof (cases ev)
  case (WorkerTurn now e)
  then show ?thesis
    using worker_step_ok [OF assms(1)] assms(2) by (simp add: boost_sys_step_def boost_sys_ok_def)
next
  case (MgrTick isTx up)
  then show ?thesis
    using sys_mgr_ok [OF assms(2,1), of UpscaleTick isTx] sys_mgr_ok [OF assms(2,1), of DownscaleTick isTx]
    by (simp add: boost_sys_step_def)
next
  case (TakeSize isTx)
  let ?ch = "if isTx then wk_TxBoostExpectedSize (bs_worker s) else wk_RxBoostExpectedSize (bs_worker s)"
  show ?thesis
  proof (cases "ch_buf ?ch")
    case Nil
    then show ?thesis using TakeSize assms(2) by (auto simp: boost_sys_step_def chan_recv_def split: if_splits)
  next
    case (Cons n ns)
    let ?ch' = "?ch\<lparr>ch_buf := ns\<rparr>"
    let ?s = "s\<lparr>bs_worker := (if isTx then (bs_worker s)\<lparr>wk_TxBoostExpectedSize := ?ch'\<rparr>
        else (bs_worker s)\<lparr>wk_RxBoostExpectedSize := ?ch'\<rparr>)\<rparr>"
    have s: "boost_sys_ok pc ?s" and n: "0 \<le> n \<and> n \<le> (if isTx then hc_MaxBoostTxConnection pc else hc_MaxBoostRxConnection pc)"
      using assms(2) Cons by (auto simp: boost_sys_ok_def worker_ok_def split: if_splits)
    have "boost_sys_step pc ev s = sys_mgr pc isTx (ExpectedSize n) ?s"
      using TakeSize Cons by (simp add: boost_sys_step_def chan_recv_def)
    then show ?thesis
      using sys_mgr_ok [OF s assms(1), of "ExpectedSize n" isTx] n by simp
  qed
qed

lemma boost_sys_run_ok:
  assumes "sizes_ok pc" and "boost_sys_ok pc s"
  shows "\<exists>s'. boost_sys_run pc evs s = Ok s' \<and> boost_sys_ok pc s'"
  using assms(2)
proof (induction evs arbitrary: s)
  case (Cons e es)
  then show ?case using boost_sys_step_ok [OF assms(1) Cons.prems, of e] by auto
qed simp

lemma boost_sys_start_ok: "sizes_ok pc \<Longrightarrow> boost_sys_ok pc (boost_sys_start pc)"
  using mgr_start_ok [of pc "nat (hc_MaxBoostTxConnection pc)"] mgr_start_ok [of pc "nat (hc_MaxBoostRxConnection pc)"]
  by (auto simp: sizes_ok_def boost_sys_ok_def boost_sys_start_def worker_ok_def http_boostWorker_start_def)

text \<open>C31.
  The boost controller keeps to its limits. Whatever requests come and however worker, managers and
  timers interleave, no turn panics or waits for room in a ring buffer, the connections alive in a
  direction are at most the configured number, every connection is dialled once and cancelled at
  most once, and the oldest is cancelled first. This holds for every configuration whose sending
  limit is at most ten plus the receiving limit plus the number of plain connections.
\<close>

theorem boost_controller_bounded:
  assumes "sizes_ok pc"
  shows "\<exists>s. boost_sys_run pc evs (boost_sys_start pc) = Ok s \<and>
     int (length (live (bs_tx s))) \<le> hc_MaxBoostTxConnection pc \<and>
     int (length (live (bs_rx s))) \<le> hc_MaxBoostRxConnection pc \<and>
     (\<forall>m\<in>{bs_tx s, bs_rx s}. map fst (sm_dialed m) = sm_cancelled m @ live m \<and> distinct (sm_cancelled m @ live m))"
proof -
  obtain s where s: "boost_sys_run pc evs (boost_sys_start pc) = Ok s" "boost_sys_ok pc s"
    using boost_sys_run_ok [OF assms boost_sys_start_ok [OF assms]] by blast
  have "map fst (sm_dialed m) = sm_cancelled m @ live m \<and> distinct (sm_cancelled m @ live m)" if "mgr_ok M m" for M m
    using that distinct_upt [of 0 "sm_next m"] unfolding mgr_ok_def by metis
  moreover have "int (length (live (bs_tx s))) \<le> hc_MaxBoostTxConnection pc" "int (length (live (bs_rx s))) \<le> hc_MaxBoostRxConnection pc"
    using s(2) assms by (auto simp: boost_sys_ok_def mgr_ok_def sizes_ok_def)
  ultimately show ?thesis using s by (auto simp: boost_sys_ok_def)
qed

text \<open>The configuration of the constructor's defaults, for two connections in each direction.\<close>

definition ex_boost_client :: ProviderClient where
  "ex_boost_client = \<lparr>hc_HttpRequestEndpoint = str_bytes ''http://a'', hc_MaxTxConnection = 2, hc_MaxRxConnection = 2,
     hc_MaxBoostTxConnection = 16, hc_MaxBoostRxConnection = 16, hc_TxChan = make_chan 8, hc_RxChan = make_chan 8,
     hc_ID = replicate 24 1, hc_hh = NewHttpHeaderHolderProcessor [5], hc_authlocation = Authlocation_Path,
     hc_useWebsocket = False, hc_ctx = Background, hc_connctx = Background, hc_closeCtx = 0\<rparr>"

lemma ex_boost_sizes: "sizes_ok ex_boost_client"
  by (simp add: sizes_ok_def ex_boost_client_def)

theorem boost_controller_bounded_witness:
  "\<exists>s. boost_sys_run ex_boost_client [WorkerTurn 0 (BoostInfo True 60), TakeSize True, MgrTick True True] (boost_sys_start ex_boost_client) = Ok s \<and>
     int (length (live (bs_tx s))) \<le> 16"
  using boost_controller_bounded [OF ex_boost_sizes, of "[WorkerTurn 0 (BoostInfo True 60), TakeSize True, MgrTick True True]"]
  by (auto simp: ex_boost_client_def)

section \<open>Reaching the expected size\<close>

fun mgr_run :: "ProviderClient \<Rightarrow> bool \<Rightarrow> mgr_event list \<Rightarrow> scale_mgr \<Rightarrow> (ring_error, scale_mgr) outcome" where
  "mgr_run pc isTx [] m = Ok m"
| "mgr_run pc isTx (e # es) m = bind_outcome (boostConnScaleMgr_step pc isTx e m) (\<lambda>(_, m'). mgr_run pc isTx es m')"

text \<open>
  With the expected size fixed, a manager below it only grows and one above it only shrinks; the
  charges of the receiving direction put off the first cancellations.
\<close>

definition charges_left :: "bool \<Rightarrow> scale_mgr \<Rightarrow> nat" where
  "charges_left isTx m = (if isTx then 0 else nat (sm_RxGracePeriodCharges m))"

lemma ticks_grow:
  assumes "mgr_ok M m" and "length (live m) \<le> nat (sm_expectedSizeLast m)" and "set evs \<subseteq> {UpscaleTick, DownscaleTick}"
  shows "\<exists>m'. mgr_run pc isTx evs m = Ok m' \<and> mgr_ok M m' \<and> sm_expectedSizeLast m' = sm_expectedSizeLast m \<and>
     length (live m') = min (nat (sm_expectedSizeLast m)) (length (live m) + count_list evs UpscaleTick)"
  using assms
proof (induction evs arbitrary: m)
  case (Cons e es)
  show ?case
  proof (cases "e = UpscaleTick \<and> length (live m) < nat (sm_expectedSizeLast m)")
    case True
    then obtain m1 where m1: "boostConnScaleMgr_step pc isTx e m = Ok (False, m1)" "mgr_ok M m1"
        "live m1 = live m @ [sm_next m]" "sm_expectedSizeLast m1 = sm_expectedSizeLast m"
      using upscale_cases [OF Cons.prems(1), of pc isTx] by auto
    then show ?thesis using Cons.IH [of m1] Cons.prems True by auto
  next
    case False
    then have "boostConnScaleMgr_step pc isTx e m = Ok (False, m)"
      using upscale_cases [OF Cons.prems(1), of pc isTx] downscale_cases [OF Cons.prems(1), of pc isTx] Cons.prems(2,3)
      by auto
    then show ?thesis using Cons.IH [of m] Cons.prems False by auto
  qed
qed auto

lemma ticks_shrink:
  assumes "mgr_ok M m" and "nat (sm_expectedSizeLast m) \<le> length (live m)" and "set evs \<subseteq> {UpscaleTick, DownscaleTick}"
  shows "\<exists>m'. mgr_run pc isTx evs m = Ok m' \<and> mgr_ok M m' \<and> sm_expectedSizeLast m' = sm_expectedSizeLast m \<and>
     length (live m') = max (nat (sm_expectedSizeLast m))
       (length (live m) - (count_list evs DownscaleTick - charges_left isTx m))"
  using assms
proof (induction evs arbitrary: m)
  case (Cons e es)
  show ?case
  proof (cases "e = DownscaleTick \<and> nat (sm_expectedSizeLast m) < length (live m)")
    case True
    let ?now = "sm_RxGracePeriodCharges m \<le> 0 \<or> isTx"
    obtain m1 where m1: "boostConnScaleMgr_step pc isTx e m = Ok (False, m1)" "mgr_ok M m1"
        "sm_expectedSizeLast m1 = sm_expectedSizeLast m"
        "if ?now then live m1 = tl (live m) \<and> sm_RxGracePeriodCharges m1 = sm_RxGracePeriodCharges m
         else live m1 = live m \<and> sm_RxGracePeriodCharges m1 = sm_RxGracePeriodCharges m - 1"
      using downscale_cases [OF Cons.prems(1), of pc isTx] True by (auto split: if_splits)
    have "length (live m1) = length (live m) - (if ?now then 1 else 0)"
      "charges_left isTx m1 = charges_left isTx m - (if ?now then 0 else 1)"
      "?now \<Longrightarrow> charges_left isTx m = 0" "\<not> ?now \<Longrightarrow> 0 < charges_left isTx m"
      using m1(4) by (auto simp: charges_left_def split: if_splits)
    then show ?thesis
      using Cons.IH [of m1] Cons.prems m1 True by (auto simp: max_def split: if_splits)
  next
    case False
    then have "boostConnScaleMgr_step pc isTx e m = Ok (False, m)"
      using upscale_cases [OF Cons.prems(1), of pc isTx] downscale_cases [OF Cons.prems(1), of pc isTx] Cons.prems(2,3)
      by auto
    then show ?thesis using Cons.IH [of m] Cons.prems False by auto
  qed
qed auto



section \<open>Where the controller fails\<close>

text \<open>
  Reducing the number of boost connections also ends those that are to stay. A 15-second tick that
  finds more connections than expected sets the redial flag all dialers of the manager share, so that
  a connection that is kept is not dialled again when it drops; its cancel function stays in the
  queue, and as long as not more than these are expected no tick of the manager starts another.
\<close>

theorem boost_kept_connections_not_redialled:
  assumes "mgr_ok M m" and "nat (sm_expectedSizeLast m) < length (live m)"
    and "boostConnScaleMgr_step pc isTx DownscaleTick m = Ok (stop, m')"
    and "flags flag = sm_ShouldNotReDial m'"
  shows "redial cancelled flags (boost_ctx ctx c flag) = Ok False \<and>
     nat (sm_expectedSizeLast m) \<le> length (live m') \<and>
     boostConnScaleMgr_step pc isTx UpscaleTick m' = Ok (False, m')"
proof -
  have m': "mgr_ok M m'" "sm_expectedSizeLast m' = sm_expectedSizeLast m" "sm_ShouldNotReDial m'"
      "length (live m) - 1 \<le> length (live m')"
    using downscale_cases [OF assms(1), of pc isTx] assms(2,3) by (auto split: if_splits)
  have "boostConnScaleMgr_step pc isTx UpscaleTick m' = Ok (False, m')"
    using upscale_cases [OF m'(1), of pc isTx] m'(2,4) assms(2) by auto
  then show ?thesis
    using m' assms(2,4) by (auto simp: redial_def boost_ctx_def ctx_opt_def)
qed

lemma two_live:
  "\<exists>m. mgr_run ex_boost_client True [UpscaleTick, UpscaleTick] ((boostConnScaleMgr_start ex_boost_client)\<lparr>sm_expectedSizeLast := 2\<rparr>) = Ok m \<and>
     mgr_ok 16 (m\<lparr>sm_expectedSizeLast := 1\<rparr>) \<and> length (live m) = 2"
proof -
  have "mgr_ok 16 ((boostConnScaleMgr_start ex_boost_client)\<lparr>sm_expectedSizeLast := 2\<rparr>)"
    "live (boostConnScaleMgr_start ex_boost_client) = []"
    using mgr_start_ok [of ex_boost_client 16] ring_new_invar(2) [of 28, where 'a = nat]
    by (simp_all add: ex_boost_client_def mgr_ok_def boostConnScaleMgr_start_def)
  from ticks_grow [OF this(1), of "[UpscaleTick, UpscaleTick]" ex_boost_client True] this(2)
  show ?thesis by (auto simp: mgr_ok_def)
qed

theorem boost_kept_connections_not_redialled_witness:
  "\<exists>m m'. mgr_ok 16 m \<and> boostConnScaleMgr_step ex_boost_client True DownscaleTick m = Ok (False, m') \<and> 1 \<le> length (live m') \<and>
     redial {} (\<lambda>_. sm_ShouldNotReDial m') (boost_ctx Background 1 0) = Ok False"
proof -
  obtain m0 where m0: "mgr_ok 16 (m0\<lparr>sm_expectedSizeLast := 1\<rparr>)" "length (live m0) = 2"
    using two_live by blast
  let ?m = "m0\<lparr>sm_expectedSizeLast := 1\<rparr>"
  obtain m' where m': "boostConnScaleMgr_step ex_boost_client True DownscaleTick ?m = Ok (False, m')"
    using downscale_cases [OF m0(1), of ex_boost_client True] m0(2) by auto
  have "nat (sm_expectedSizeLast ?m) < length (live ?m)" using m0(2) by simp
  from boost_kept_connections_not_redialled [OF m0(1) this m', where flags = "\<lambda>_. sm_ShouldNotReDial m'" and cancelled = "{}" and ctx = Background and c = 1 and flag = 0]
    m0 m' show ?thesis by auto
qed

lemma upscale_until_full:
  assumes "ring_invar (sm_cancelQueue m)" and "length (rb_nodes (sm_cancelQueue m)) = cap"
    and "cap < nat (sm_expectedSizeLast m)" and "nat (sm_expectedSizeLast m) < 2 ^ 32"
  shows "mgr_run pc isTx (replicate (Suc (cap - length (live m))) UpscaleTick) m = Blocked"
  using assms
proof (induction "cap - length (live m)" arbitrary: m)
  case (0 m)
  have "of_int (sm_expectedSizeLast m) = (of_nat (nat (sm_expectedSizeLast m)) :: u32)" using 0(4) by simp
  then have e: "unat (of_int (sm_expectedSizeLast m) :: u32) = nat (sm_expectedSizeLast m)"
    using 0(5) by (simp only: unat_of_nat) simp
  have "length (live m) = cap" using 0 ring.content_bound [OF 0(2)] by simp
  then show ?case
    using 0 e ring.unat_len [OF 0(2)] ring.put_full [OF 0(2), of "sm_next m"]
    by (simp add: boostConnScaleMgr_step_def word_less_nat_alt Let_def)
next
  case (Suc d m)
  have "of_int (sm_expectedSizeLast m) = (of_nat (nat (sm_expectedSizeLast m)) :: u32)" using Suc(5) by simp
  then have e: "unat (of_int (sm_expectedSizeLast m) :: u32) = nat (sm_expectedSizeLast m)"
    using Suc(6) by (simp only: unat_of_nat) simp
  have room: "length (live m) < length (rb_nodes (sm_cancelQueue m))" using Suc(2,4) by simp
  obtain q where q: "RingBuffer_Put (sm_next m) (sm_cancelQueue m) = Ok q" "ring_invar q"
      "ring_content q = live m @ [sm_next m]" "length (rb_nodes q) = cap"
    using ring.put_room [OF Suc(3) room] Suc(4) by blast
  then obtain m1 where m1: "boostConnScaleMgr_step pc isTx UpscaleTick m = Ok (False, m1)"
      "sm_cancelQueue m1 = q" "sm_expectedSizeLast m1 = sm_expectedSizeLast m"
    using room Suc(4,5) e ring.unat_len [OF Suc(3)]
    by (simp add: boostConnScaleMgr_step_def word_less_nat_alt Let_def)
  have d: "d = cap - length (live m1)" using Suc(2) q(3) m1(2) by simp
  then have "mgr_run pc isTx (replicate (Suc d) UpscaleTick) m1 = Blocked"
    using Suc(1) [OF d] q m1 Suc(5,6) by simp
  then show ?case
    using m1(1) Suc(2) by simp
qed

text \<open>
  Both ring buffers are sized by the receiving limit. A sending limit of at least twice ten plus
  the receiving limit plus the number of plain connections lets the sending manager run full: asked
  for that many, it waits for room in its own buffer for ever after fewer ticks than that, so that it
  neither ends connections nor hears that the boost is over.
\<close>

theorem boost_tx_manager_blocks:
  assumes "0 \<le> hc_MaxBoostRxConnection pc" and "0 \<le> hc_MaxTxConnection pc"
    and "n = hc_MaxBoostRxConnection pc + hc_MaxTxConnection pc + 10" and "2 * n \<le> e" and "e < 2 ^ 31"
  shows "\<exists>k. int k < 2 * n \<and>
     mgr_run pc True (ExpectedSize e # replicate (Suc k) UpscaleTick) (boostConnScaleMgr_start pc) = Blocked"
proof -
  let ?m = "(boostConnScaleMgr_start pc)\<lparr>sm_expectedSizeLast := e\<rparr>"
  let ?cap = "length (rb_nodes (sm_cancelQueue ?m))"
  have "of_int n = (of_nat (nat n) :: u32)" using assms by simp
  moreover have "unat (of_nat (nat n) :: u32) = nat n" using assms by (subst unat_of_nat) simp
  ultimately have n: "unat (of_int n :: u32) = nat n" by simp
  then have "1 < unat (of_int n :: u32)" "unat (of_int n :: u32) \<le> 2 ^ 31" using assms by simp_all
  note new = ring_new_invar [OF this, where 'a = nat]
  have m: "ring_invar (sm_cancelQueue ?m)" "int ?cap < 2 * n" "live ?m = []"
    using new n assms(1-3) by (simp_all add: boostConnScaleMgr_start_def)
  then have "?cap < nat (sm_expectedSizeLast ?m)" "nat (sm_expectedSizeLast ?m) < 2 ^ 32" using assms(4,5) by simp_all
  from upscale_until_full [OF m(1) refl this, of pc True] m(3)
  have "mgr_run pc True (replicate (Suc ?cap) UpscaleTick) ?m = Blocked" by simp
  then have "mgr_run pc True (ExpectedSize e # replicate (Suc ?cap) UpscaleTick) (boostConnScaleMgr_start pc) = Blocked"
    by (simp add: boostConnScaleMgr_step_def)
  with m(2) show ?thesis by blast
qed

theorem boost_tx_manager_blocks_witness:
  "\<exists>k. int k < 56 \<and>
     mgr_run ex_boost_client True (ExpectedSize 64 # replicate (Suc k) UpscaleTick) (boostConnScaleMgr_start ex_boost_client) = Blocked"
  using boost_tx_manager_blocks [of ex_boost_client 28 64] by (simp add: ex_boost_client_def)

end
