(* ===== verification/UniIdle.thy ===== *)
theory UniIdle
  imports UniHub
begin

text \<open>
  The idle timer of a unified connection on the server: started for 600 seconds when the transport
  is made (\<^verbatim>\<open>uniserver/connin.go\<close>), set again by every packet its receive pump reads, and watched once by
  \<open>timeoutWatcher\<close>, which cancels the connection context of the transport (\<^verbatim>\<open>uniserver/rxtx.go\<close>). The
  context of every connection of the transport is a child of that context.
\<close>

section \<open>Transports with their timers\<close>

record idle_timer =
  it_deadline :: int
  it_watching :: bool
  it_connDone :: bool

record 'f idle_hub =
  ih_hub :: "'f UnifiedConnectionTransportHub"
  ih_timers :: "bytes \<rightharpoonup> idle_timer"

definition new_idle_hub :: "'f idle_hub" where
  "new_idle_hub = \<lparr>ih_hub = NewUnifiedConnectionTransportHub, ih_timers = Map.empty\<rparr>"

definition idle_start :: "int \<Rightarrow> idle_timer" where
  "idle_start now = \<lparr>it_deadline = now + 600, it_watching = True, it_connDone = False\<rparr>"

text \<open>A connection at the hub: a timer starts with the transport, which is made for an unknown identity.\<close>

definition idle_onConnection ::
  "'f cuckoo_lib \<Rightarrow> int \<Rightarrow> nat \<Rightarrow> ExtraOptionsUniConnAttribValue \<Rightarrow> 'f idle_hub \<Rightarrow>
   (unit, nat option \<times> 'f idle_hub) outcome" where
  "idle_onConnection C now conn att h =
     bind_outcome (onConnection C now now conn att (ih_hub h)) (\<lambda>(res, hub').
       Ok (res, h\<lparr>ih_hub := hub',
                  ih_timers := (case hub_Conns (ih_hub h) (ua_ID att) of
                                  None \<Rightarrow> (ih_timers h)(ua_ID att \<mapsto> idle_start now)
                                | Some _ \<Rightarrow> ih_timers h)\<rparr>))"

text \<open>
  A turn of the receive pump of identity \<open>i\<close> with a packet or an error: the timer is set again by a
  packet, which then goes into the channel, and the pump ends when a context has ended.
\<close>

definition idle_Rx_step ::
  "bytes \<Rightarrow> int \<Rightarrow> (io_error + bytes) \<Rightarrow> bool \<Rightarrow> 'f idle_hub \<Rightarrow> bool \<times> 'f idle_hub" where
  "idle_Rx_step i now res ctxErr h =
     (case (hub_Conns (ih_hub h) i, ih_timers h i) of
        (Some uct, Some t) \<Rightarrow>
          (let (stop, rx) = uct_Rx_step res ctxErr (it_connDone t) (uct_RxChan uct)
           in (stop, h\<lparr>ih_hub := (ih_hub h)\<lparr>hub_Conns := (hub_Conns (ih_hub h))(i \<mapsto> uct\<lparr>uct_RxChan := rx\<rparr>)\<rparr>,
                       ih_timers := (case res of
                                       Inl e \<Rightarrow> ih_timers h
                                     | Inr data \<Rightarrow> (ih_timers h)(i \<mapsto> t\<lparr>it_deadline := now + 600\<rparr>))\<rparr>))
      | _ \<Rightarrow> (True, h))"

text \<open>The watcher waits for the timer once.\<close>

definition timeoutWatcher :: "bytes \<Rightarrow> int \<Rightarrow> 'f idle_hub \<Rightarrow> 'f idle_hub" where
  "timeoutWatcher i now h =
     (case ih_timers h i of
        None \<Rightarrow> h
      | Some t \<Rightarrow>
          if it_watching t \<and> it_deadline t \<le> now
          then h\<lparr>ih_timers := (ih_timers h)(i \<mapsto> t\<lparr>it_watching := False, it_connDone := True\<rparr>)\<rparr>
          else h)"

definition idle_Close :: "bytes \<Rightarrow> 'f idle_hub \<Rightarrow> 'f idle_hub" where
  "idle_Close i h = h\<lparr>ih_hub := UnifiedConnectionTransport_Close i (ih_hub h)\<rparr>"

text \<open>The context of connection number \<open>n\<close> of identity \<open>i\<close> lives.\<close>

definition conn_alive :: "bytes \<Rightarrow> nat \<Rightarrow> 'f idle_hub \<Rightarrow> bool" where
  "conn_alive i n h \<longleftrightarrow> n \<notin> hub_cancelled (ih_hub h) \<and> (\<exists>t. ih_timers h i = Some t \<and> \<not> it_connDone t)"

inductive idle_steps :: "'f cuckoo_lib \<Rightarrow> int \<Rightarrow> 'f idle_hub \<Rightarrow> int \<Rightarrow> 'f idle_hub \<Rightarrow> bool" for C where
  is_refl: "idle_steps C t h t h"
| is_connection: "idle_steps C t h t' h' \<Longrightarrow> t' \<le> now \<Longrightarrow> idle_onConnection C now conn att h' = Ok (res, h'') \<Longrightarrow>
    idle_steps C t h now h''"
| is_rx: "idle_steps C t h t' h' \<Longrightarrow> t' \<le> now \<Longrightarrow> idle_steps C t h now (snd (idle_Rx_step i now r ctxErr h'))"
| is_watch: "idle_steps C t h t' h' \<Longrightarrow> t' \<le> now \<Longrightarrow> idle_steps C t h now (timeoutWatcher i now h')"
| is_close: "idle_steps C t h t' h' \<Longrightarrow> idle_steps C t h t' (idle_Close i h')"

section \<open>The effect of a turn on one identity\<close>

text \<open>An identity that is known and idle: its transport is in the table, its connection context over.\<close>

definition idle_dead :: "bytes \<Rightarrow> 'f idle_hub \<Rightarrow> bool" where
  "idle_dead i h \<longleftrightarrow> hub_Conns (ih_hub h) i \<noteq> None \<and> (\<exists>t. ih_timers h i = Some t \<and> it_connDone t)"

lemma onConnection_keeps:
  assumes "onConnection C t0 tnow conn att hub = Ok (res, hub')"
  shows "hub_Conns hub i \<noteq> None \<Longrightarrow> hub_Conns hub' i \<noteq> None"
    "hub_Conns hub i \<noteq> None \<Longrightarrow> count_list (hub_passed hub') i = count_list (hub_passed hub) i"
  using assms
  by (auto simp: onConnection_def LoadOrStore_def Let_def split: option.splits prod.splits if_splits)

lemma idle_dead_connection:
  assumes "idle_dead i h" and "idle_onConnection C now conn att h = Ok (res, h')"
  shows "idle_dead i h'" "count_list (hub_passed (ih_hub h')) i = count_list (hub_passed (ih_hub h)) i"
proof -
  obtain hub' where hub': "onConnection C now now conn att (ih_hub h) = Ok (res, hub')" "ih_hub h' = hub'"
      "ih_timers h' = (case hub_Conns (ih_hub h) (ua_ID att) of
         None \<Rightarrow> (ih_timers h)(ua_ID att \<mapsto> idle_start now) | Some _ \<Rightarrow> ih_timers h)"
    using assms(2) by (auto simp: idle_onConnection_def)
  then show "count_list (hub_passed (ih_hub h')) i = count_list (hub_passed (ih_hub h)) i"
    using onConnection_keeps(2) [OF hub'(1)] assms(1) by (simp add: idle_dead_def)
  have "ua_ID att = i \<Longrightarrow> hub_Conns (ih_hub h) (ua_ID att) \<noteq> None" using assms(1) by (auto simp: idle_dead_def)
  then show "idle_dead i h'"
    using onConnection_keeps(1) [OF hub'(1), of i] assms(1) hub'(2,3) by (auto simp: idle_dead_def split: option.splits)
qed

lemma idle_dead_steps:
  assumes "idle_steps C t h t' h'" and "idle_dead i h"
  shows "idle_dead i h' \<and> count_list (hub_passed (ih_hub h')) i = count_list (hub_passed (ih_hub h)) i"
  using assms
proof (induction rule: idle_steps.induct)
  case (is_connection t h t' h' now conn att res h'')
  then show ?case using idle_dead_connection by (metis (no_types))
next
  case (is_rx t h t' h' now j r ctxErr)
  then show ?case
    by (auto simp: idle_dead_def idle_Rx_step_def split: option.splits prod.splits sum.splits)
next
  case (is_watch t h t' h' now j)
  then show ?case
    by (auto simp: idle_dead_def timeoutWatcher_def split: option.splits)
next
  case (is_close t h t' h' j)
  then show ?case
    by (auto simp: idle_dead_def idle_Close_def UnifiedConnectionTransport_Close_def split: option.splits)
qed simp

text \<open>C38.
  An identity that was idle for 600 seconds is dead for good. Once the timer of its transport has
  fired, whatever connections, packets and timers follow: the transport stays in the table, so that
  no new one is made and the layers above never see the identity again; every connection the hub
  accepts for it has an ended context; and a receive pump ends after at most one packet. The client
  can reconnect as often as it likes.
\<close>

theorem idle_identity_never_recovers:
  assumes "ih_timers h i = Some t" and "it_watching t" and "it_deadline t \<le> now" and "hub_Conns (ih_hub h) i \<noteq> None"
    and "idle_steps C now (timeoutWatcher i now h) t' h'"
  shows "hub_Conns (ih_hub h') i \<noteq> None \<and>
     count_list (hub_passed (ih_hub h')) i = count_list (hub_passed (ih_hub h)) i \<and>
     \<not> conn_alive i n h' \<and> fst (idle_Rx_step i now' r ctxErr h')"
proof -
  have "idle_dead i (timeoutWatcher i now h)" "ih_hub (timeoutWatcher i now h) = ih_hub h"
    using assms(1-4) by (simp_all add: idle_dead_def timeoutWatcher_def)
  then have "idle_dead i h'" and passed: "count_list (hub_passed (ih_hub h')) i = count_list (hub_passed (ih_hub h)) i"
    using idle_dead_steps [OF assms(5)] by auto
  moreover from this(1) have "fst (idle_Rx_step i now' r ctxErr h')"
    by (auto simp: idle_dead_def idle_Rx_step_def uct_Rx_step_def split: sum.splits)
  ultimately show ?thesis by (auto simp: idle_dead_def conn_alive_def)
qed

definition ex_att :: "byte \<Rightarrow> ExtraOptionsUniConnAttribValue" where
  "ex_att r = \<lparr>ua_ID = [1], ua_Rand = [r], ua_Iter = 1\<rparr>"

lemma ex_idle_connection:
  "\<exists>h n. idle_onConnection list_filter 1000 0 (ex_att 7) new_idle_hub = Ok (Some n, h) \<and>
     ih_timers h [1] = Some (idle_start 1000) \<and> hub_Conns (ih_hub h) [1] \<noteq> None \<and> count_list (hub_passed (ih_hub h)) [1] = 1 \<and>
     (\<exists>h' n'. idle_onConnection list_filter 1700 1 (ex_att 8) (timeoutWatcher [1] 1700 h) = Ok (Some n', h'))"
  by (simp add: idle_onConnection_def new_idle_hub_def onConnection_def NewUnifiedConnectionTransportHub_def ex_att_def
      LoadOrStore_def new_transport_def NewAntiReplayWindow_def window_defs iter_of_def idle_start_def timeoutWatcher_def)

theorem idle_identity_never_recovers_witness:
  "\<exists>h n h' n'. idle_onConnection list_filter 1000 0 (ex_att 7) new_idle_hub = Ok (Some n, h) \<and>
     idle_onConnection list_filter 1700 1 (ex_att 8) (timeoutWatcher [1] 1700 h) = Ok (Some n', h') \<and>
     \<not> conn_alive [1] n' h'"
proof -
  obtain h n h' n' where h: "idle_onConnection list_filter 1000 0 (ex_att 7) new_idle_hub = Ok (Some n, h)"
      "ih_timers h [1] = Some (idle_start 1000)" "hub_Conns (ih_hub h) [1] \<noteq> None"
      "idle_onConnection list_filter 1700 1 (ex_att 8) (timeoutWatcher [1] 1700 h) = Ok (Some n', h')"
    using ex_idle_connection by blast
  have "idle_steps list_filter 1700 (timeoutWatcher [1] 1700 h) 1700 h'"
    by (rule is_connection [OF is_refl _ h(4)]) simp
  from idle_identity_never_recovers [OF h(2) _ _ h(3) this, of n'] h show ?thesis
    by (auto simp: idle_start_def)
qed

text \<open>A transport that receives a packet at least every 600 seconds keeps its context.\<close>

lemma busy_transport_stays:
  assumes "ih_timers h i = Some t" and "now < it_deadline t"
  shows "timeoutWatcher i now h = h"
  using assms by (simp add: timeoutWatcher_def)

lemma packet_recharges:
  assumes "ih_timers h i = Some t" and "hub_Conns (ih_hub h) i = Some uct"
  shows "\<exists>t'. ih_timers (snd (idle_Rx_step i now (Inr data) ctxErr h)) i = Some t' \<and> it_deadline t' = now + 600 \<and>
     it_connDone t' = it_connDone t"
  using assms by (simp add: idle_Rx_step_def split: prod.splits)

end
