(* ===== verification/SctpRelay.thy ===== *)
theory SctpRelay
  imports StreamMux Options "HOL-Library.Multiset"
begin

text \<open>
  The relay between the workers and one carrier connection:
  \<^verbatim>\<open>transport/packetsctp/sctprelay\<close> (\<open>relay.go\<close>, \<open>bufconn.go\<close>, \<open>stats.go\<close>) and
  \<^verbatim>\<open>transport/contextAwareConn/sac.go\<close>. The carrier is protected by DTLS and split into streams by
  SCTP and smux; these libraries enter through their results: whether a handshake gave a connection,
  whether a stream could be opened, and the messages a stream delivers. Control traffic is stream 0,
  the TCP streams are stream 1, data packets go past SCTP through the filtered connection.
\<close>

section \<open>A connection that ends with its context\<close>

record ContextAwareConn =
  aw_conn :: dgram_conn
  aw_ctx :: go_ctx

datatype aware_error = UnderError io_error | ContextError

definition NewContextAwareConn :: "dgram_conn \<Rightarrow> go_ctx \<Rightarrow> ContextAwareConn" where
  "NewContextAwareConn conn ctx = \<lparr>aw_conn = conn, aw_ctx = ctx\<rparr>"

definition ContextAwareConn_Read ::
  "nat set \<Rightarrow> nat \<Rightarrow> ContextAwareConn \<Rightarrow> (aware_error + bytes) \<times> ContextAwareConn" where
  "ContextAwareConn_Read cancelled k c =
     (if ctx_Err cancelled (aw_ctx c) then (Inl ContextError, c)
      else case conn_Read k (aw_conn c) of
             (Inl e, u) \<Rightarrow> (Inl (UnderError e), c\<lparr>aw_conn := u\<rparr>)
           | (Inr d, u) \<Rightarrow> (Inr d, c\<lparr>aw_conn := u\<rparr>))"

definition ContextAwareConn_Write ::
  "nat set \<Rightarrow> bytes \<Rightarrow> ContextAwareConn \<Rightarrow> (aware_error + nat) \<times> ContextAwareConn" where
  "ContextAwareConn_Write cancelled b c =
     (if ctx_Err cancelled (aw_ctx c) then (Inl ContextError, c)
      else case conn_Write b (aw_conn c) of
             (Some e, u) \<Rightarrow> (Inl (UnderError e), c\<lparr>aw_conn := u\<rparr>)
           | (None, u) \<Rightarrow> (Inr (length b), c\<lparr>aw_conn := u\<rparr>))"

definition ContextAwareConn_Close :: "nat set \<Rightarrow> ContextAwareConn \<Rightarrow> aware_error option \<times> ContextAwareConn" where
  "ContextAwareConn_Close cancelled c =
     (if ctx_Err cancelled (aw_ctx c) then (Some ContextError, c)
      else (None, c\<lparr>aw_conn := (aw_conn c)\<lparr>dc_closed := True\<rparr>\<rparr>))"

definition ContextAwareConn_SetDeadline :: "int \<Rightarrow> ContextAwareConn \<Rightarrow> (unit, ContextAwareConn) outcome" where
  "ContextAwareConn_SetDeadline t c = Panic"

section \<open>Reads of any size from a stream of messages\<close>

text \<open>
  \<open>BufferedConn\<close> puts a \<open>bufio.Reader\<close> of four times 65535 bytes before an SCTP stream, whose \<open>Read\<close> takes a
  whole message. Only a read larger than the buffer goes to the stream directly.
\<close>

record BufferedConn =
  bc_rwc :: dgram_conn
  bc_buf :: bytes

definition NewBufferedConn :: "dgram_conn \<Rightarrow> BufferedConn" where
  "NewBufferedConn str = \<lparr>bc_rwc = str, bc_buf = []\<rparr>"

definition bufio_size :: nat where
  "bufio_size = 65535 * 4"

text \<open>The stream never returns data together with an error, so the reader has no error to keep.\<close>

definition BufferedConn_Read :: "nat \<Rightarrow> BufferedConn \<Rightarrow> (io_error + bytes) \<times> BufferedConn" where
  "BufferedConn_Read n b =
     (if n = 0 then (Inr [], b)
      else if bc_buf b \<noteq> [] then (Inr (take n (bc_buf b)), b\<lparr>bc_buf := drop n (bc_buf b)\<rparr>)
      else if bufio_size \<le> n then
        (case conn_Read n (bc_rwc b) of
           (Inl e, c) \<Rightarrow> (Inl e, b\<lparr>bc_rwc := c\<rparr>)
         | (Inr d, c) \<Rightarrow> (Inr d, b\<lparr>bc_rwc := c\<rparr>))
      else
        (case conn_Read bufio_size (bc_rwc b) of
           (Inl e, c) \<Rightarrow> (Inl e, b\<lparr>bc_rwc := c\<rparr>)
         | (Inr d, c) \<Rightarrow> (Inr (take n d), b\<lparr>bc_rwc := c, bc_buf := drop n d\<rparr>)))"

definition BufferedConn_Write :: "bytes \<Rightarrow> BufferedConn \<Rightarrow> io_error option \<times> BufferedConn" where
  "BufferedConn_Write p b = (let (err, c) = conn_Write p (bc_rwc b) in (err, b\<lparr>bc_rwc := c\<rparr>))"

definition BufferedConn_Close :: "BufferedConn \<Rightarrow> BufferedConn" where
  "BufferedConn_Close b = b\<lparr>bc_rwc := (bc_rwc b)\<lparr>dc_closed := True\<rparr>\<rparr>"

text \<open>The bytes a sequence of reads of the given sizes returns, up to the first error.\<close>

fun buffered_reads :: "nat list \<Rightarrow> BufferedConn \<Rightarrow> bytes \<times> BufferedConn" where
  "buffered_reads [] b = ([], b)"
| "buffered_reads (n # ns) b =
     (case BufferedConn_Read n b of
        (Inl e, b') \<Rightarrow> ([], b')
      | (Inr d, b') \<Rightarrow> (let (ds, b'') = buffered_reads ns b' in (d @ ds, b'')))"

section \<open>The relay\<close>

text \<open>What the libraries gave in the handshake of a relay.\<close>

record handshake_libs =
  hl_dtls :: bool
  hl_sctp :: bool
  hl_OpenStream :: "u16 \<Rightarrow> bool"
  hl_smux :: bool

text \<open>The sender of control packets: waiting, with a packet in its hand, or gone.\<close>

datatype tx_state = TxIdle | TxHolding TrafficWithChannelTag | TxGone

text \<open>
  The frontier is the filtered connection; it and the relay use the same data channels, which are
  kept in it. The flag \<open>ps_fec\<close> says that packet assembly lies below it. A pointer that may be nil is a
  Boolean.
\<close>

record PacketSCTPRelay =
  ps_ctx :: go_ctx
  ps_Password :: bytes
  ps_TxChannel :: "TrafficWithChannelTag chan"
  ps_tlsconn :: bool
  ps_scconn :: bool
  ps_scconnctl :: bool
  ps_muxer :: bool
  ps_frontier :: "FilteredConn option"
  ps_fec :: bool
  ps_listening :: bool
  ps_ctl_reader :: bool
  ps_txstate :: tx_state
  ps_ctlout :: "bytes list"
  ps_ctllost :: "bytes list"
  ps_relayed :: "nat list"
  ps_discarded :: "u16 list"
  ps_ratelimit :: "int \<times> int \<times> int"

definition fresh_relay :: "TrafficWithChannelTag chan \<Rightarrow> bytes \<Rightarrow> go_ctx \<Rightarrow> PacketSCTPRelay" where
  "fresh_relay tx pw ctx =
     \<lparr>ps_ctx = ctx, ps_Password = pw, ps_TxChannel = tx, ps_tlsconn = False, ps_scconn = False,
      ps_scconnctl = False, ps_muxer = False, ps_frontier = None, ps_fec = False, ps_listening = False,
      ps_ctl_reader = False, ps_txstate = TxIdle, ps_ctlout = [], ps_ctllost = [], ps_relayed = [],
      ps_discarded = [], ps_ratelimit = (0, 0, 0)\<rparr>"

definition getConn ::
  "dgram_conn \<Rightarrow> TrafficWithChannelTag chan \<Rightarrow> TrafficWithChannelTag chan \<Rightarrow> PacketSCTPRelay \<Rightarrow>
   ('e, PacketSCTPRelay) outcome" where
  "getConn conn txData rx s =
     (case ps_frontier s of
        Some fc \<Rightarrow> Ok s
      | None \<Rightarrow>
          bind_outcome (ctx_opt as_bool False ExtraOptionsUDPFECEnabled (ps_ctx s)) (\<lambda>fec.
            Ok (s\<lparr>ps_frontier := Some (NewFilteredConn conn txData rx), ps_fec := fec\<rparr>)))"

text \<open>
  \<open>tlsopenServer\<close> and \<open>tlsopenClient\<close>: an error of either handshake is logged, the connection of that
  layer stays nil, and the function goes on. \<open>conn\<close> is the connection DTLS gives over the carrier.
\<close>

definition tlsopen ::
  "handshake_libs \<Rightarrow> dgram_conn \<Rightarrow> TrafficWithChannelTag chan \<Rightarrow> TrafficWithChannelTag chan \<Rightarrow> PacketSCTPRelay \<Rightarrow>
   ('e, PacketSCTPRelay) outcome" where
  "tlsopen lib conn txData rx s =
     bind_outcome (getConn conn txData rx (s\<lparr>ps_tlsconn := hl_dtls lib\<rparr>)) (\<lambda>s1.
       Ok (s1\<lparr>ps_scconn := hl_sctp lib\<rparr>))"

definition NewPacketRelayServer ::
  "handshake_libs \<Rightarrow> dgram_conn \<Rightarrow> TrafficWithChannelTag chan \<Rightarrow> TrafficWithChannelTag chan \<Rightarrow>
   TrafficWithChannelTag chan \<Rightarrow> bytes \<Rightarrow> go_ctx \<Rightarrow> ('e, PacketSCTPRelay) outcome" where
  "NewPacketRelayServer lib conn tx txData rx pw ctx =
     bind_outcome (tlsopen lib conn txData rx (fresh_relay tx pw ctx)) (\<lambda>s. Ok (s\<lparr>ps_listening := True\<rparr>))"

text \<open>
  \<open>tcprelayconn\<close> begins with the session over the stream; an error leaves it nil, and the loop that
  follows uses it.
\<close>

definition tcprelayconn_start :: "handshake_libs \<Rightarrow> PacketSCTPRelay \<Rightarrow> ('e, PacketSCTPRelay) outcome" where
  "tcprelayconn_start lib s = (if hl_smux lib then Ok (s\<lparr>ps_muxer := True\<rparr>) else Panic)"

text \<open>
  A turn of \<open>Listen\<close> with the result of \<open>AcceptStream\<close>. A new control stream replaces the old one and
  gets a reader.
\<close>

definition Listen_step :: "handshake_libs \<Rightarrow> (unit + u16) \<Rightarrow> PacketSCTPRelay \<Rightarrow> ('e, PacketSCTPRelay) outcome" where
  "Listen_step lib accepted s =
     (if \<not> ps_listening s then Ok s
      else if \<not> ps_scconn s then Ok (s\<lparr>ps_listening := False\<rparr>)
      else case accepted of
             Inl _ \<Rightarrow> Ok (s\<lparr>ps_listening := False\<rparr>)
           | Inr i \<Rightarrow>
               if i = 0 then Ok (s\<lparr>ps_scconnctl := True, ps_ctl_reader := True\<rparr>)
               else if i = 1 then tcprelayconn_start lib s
               else Ok (s\<lparr>ps_discarded := ps_discarded s @ [i]\<rparr>))"

text \<open>
  \<open>ClientOpen\<close> runs beside the constructor. When stream 1 cannot be opened, it reads the text of the
  error of stream 0, which is nil unless that failed too, and then the missing stream is used. A
  missing control stream is used at the end.
\<close>

definition ClientOpen :: "handshake_libs \<Rightarrow> PacketSCTPRelay \<Rightarrow> ('e, PacketSCTPRelay) outcome" where
  "ClientOpen lib s =
     (if \<not> ps_scconn s then Ok s
      else
        let s1 = s\<lparr>ps_scconnctl := hl_OpenStream lib 0\<rparr>
        in if \<not> hl_OpenStream lib 1 then Panic
           else
             let s2 = s1\<lparr>ps_muxer := hl_smux lib\<rparr>
             in if \<not> ps_scconnctl s2 then Panic else Ok (s2\<lparr>ps_ctl_reader := True\<rparr>))"

definition NewPacketRelayClient ::
  "handshake_libs \<Rightarrow> dgram_conn \<Rightarrow> TrafficWithChannelTag chan \<Rightarrow> TrafficWithChannelTag chan \<Rightarrow>
   TrafficWithChannelTag chan \<Rightarrow> bytes \<Rightarrow> go_ctx \<Rightarrow> ('e, PacketSCTPRelay) outcome" where
  "NewPacketRelayClient lib conn tx txData rx pw ctx = tlsopen lib conn txData rx (fresh_relay tx pw ctx)"

text \<open>
  \<open>ClientOpenStream\<close>: a nil session panics; a stream that cannot be opened is logged and returned as nil.
\<close>

definition relay_ClientOpenStream :: "nat option \<Rightarrow> PacketSCTPRelay \<Rightarrow> ('e, nat option) outcome" where
  "relay_ClientOpenStream opened s = (if ps_muxer s then Ok opened else Panic)"

text \<open>
  A turn of \<open>tcprelayconn\<close> with what \<open>Accept\<close> returned: an error, a nil connection, or a connection,
  which is relayed. The Boolean is that the loop goes on.
\<close>

definition tcprelayconn_step :: "nat set \<Rightarrow> (unit + nat option) \<Rightarrow> PacketSCTPRelay \<Rightarrow> bool \<times> PacketSCTPRelay" where
  "tcprelayconn_step cancelled accepted s =
     (case accepted of
        Inl _ \<Rightarrow> (False, s)
      | Inr None \<Rightarrow> (True, s)
      | Inr (Some c) \<Rightarrow> (\<not> ctx_Err cancelled (ps_ctx s), s\<lparr>ps_relayed := ps_relayed s @ [c]\<rparr>))"

text \<open>
  A turn of \<open>CtlConn\<close>: a message of the control stream goes up on channel 0. \<open>pickDone\<close> is what the select
  takes when the context has ended.
\<close>

definition CtlConn_step :: "nat set \<Rightarrow> bool \<Rightarrow> (io_error + bytes) \<Rightarrow> PacketSCTPRelay \<Rightarrow> PacketSCTPRelay" where
  "CtlConn_step cancelled pickDone msg s =
     (if \<not> ps_ctl_reader s then s
      else case (msg, ps_frontier s) of
             (Inr data, Some fc) \<Rightarrow>
               if ctx_Err cancelled (ps_ctx s) \<and> pickDone then s\<lparr>ps_ctl_reader := False\<rparr>
               else s\<lparr>ps_frontier := Some (fc\<lparr>fc_RxChannel := chan_send (fc_RxChannel fc) (mk_traffic 0 (take 65536 data))\<rparr>)\<rparr>
           | _ \<Rightarrow> s\<lparr>ps_ctl_reader := False\<rparr>)"

text \<open>
  \<open>PacketTx\<close> in three moves. It takes a packet, waits as long as there is no control stream, whatever
  the context, and writes the payload; the tag of the packet is not sent, a failed write is logged.
\<close>

definition PacketTx_take :: "PacketSCTPRelay \<Rightarrow> PacketSCTPRelay option" where
  "PacketTx_take s =
     (case (ps_txstate s, chan_recv (ps_TxChannel s)) of
        (TxIdle, Some (data, ch)) \<Rightarrow> Some (s\<lparr>ps_txstate := TxHolding data, ps_TxChannel := ch\<rparr>)
      | _ \<Rightarrow> None)"

definition PacketTx_write :: "bool \<Rightarrow> PacketSCTPRelay \<Rightarrow> PacketSCTPRelay option" where
  "PacketTx_write ok s =
     (case ps_txstate s of
        TxHolding data \<Rightarrow>
          if \<not> ps_scconnctl s then None
          else Some (s\<lparr>ps_txstate := TxIdle,
                       ps_ctlout := ps_ctlout s @ (if ok then [tr_Payload data] else []),
                       ps_ctllost := ps_ctllost s @ (if ok then [] else [tr_Payload data])\<rparr>)
      | _ \<Rightarrow> None)"

definition PacketTx_quit :: "nat set \<Rightarrow> PacketSCTPRelay \<Rightarrow> PacketSCTPRelay option" where
  "PacketTx_quit cancelled s =
     (if ps_txstate s = TxIdle \<and> ctx_Err cancelled (ps_ctx s) then Some (s\<lparr>ps_txstate := TxGone\<rparr>) else None)"

definition relay_RateLimitTcpServerWrite :: "int \<Rightarrow> int \<Rightarrow> int \<Rightarrow> PacketSCTPRelay \<Rightarrow> PacketSCTPRelay" where
  "relay_RateLimitTcpServerWrite a b c s = s\<lparr>ps_ratelimit := (a, b, c)\<rparr>"

definition relay_GetTransmitLayerSentRecvStats :: "PacketSCTPRelay \<Rightarrow> ('e, u64 \<times> u64) outcome" where
  "relay_GetTransmitLayerSentRecvStats s =
     (case ps_frontier s of None \<Rightarrow> Panic | Some fc \<Rightarrow> Ok (fc_packetSent fc, fc_packetRecv fc))"

section \<open>Properties\<close>

lemma BufferedConn_Read_keeps:
  assumes "\<forall>m\<in>set (dc_in (bc_rwc b)). length m \<le> bufio_size \<and> m \<noteq> []" and "BufferedConn_Read k b = (Inr d, b')"
  shows "d @ bc_buf b' @ concat (dc_in (bc_rwc b')) = bc_buf b @ concat (dc_in (bc_rwc b)) \<and>
    set (dc_in (bc_rwc b')) \<subseteq> set (dc_in (bc_rwc b))"
proof (cases "k = 0 \<or> bc_buf b \<noteq> []")
  case True
  then show ?thesis using assms(2) by (auto simp: BufferedConn_Read_def split: if_splits)
next
  case False
  then show ?thesis
    using assms by (auto simp: BufferedConn_Read_def conn_Read_def split: if_splits list.splits)
qed

lemma BufferedConn_Read_error: "BufferedConn_Read k b = (Inl e, b') \<Longrightarrow> b' = b"
  by (auto simp: BufferedConn_Read_def conn_Read_def split: if_splits list.splits)



text \<open>
  Turns of the sender with a packet each, all writes successful, and turns of the reader with a
  message each.
\<close>

fun PacketTx_run :: "nat \<Rightarrow> PacketSCTPRelay \<Rightarrow> PacketSCTPRelay option" where
  "PacketTx_run 0 s = Some s"
| "PacketTx_run (Suc n) s =
     Option.bind (PacketTx_take s) (\<lambda>s1. Option.bind (PacketTx_write True s1) (PacketTx_run n))"

definition CtlConn_run :: "nat set \<Rightarrow> bool \<Rightarrow> bytes list \<Rightarrow> PacketSCTPRelay \<Rightarrow> PacketSCTPRelay" where
  "CtlConn_run cancelled pickDone ms s = fold (CtlConn_step cancelled pickDone \<circ> Inr) ms s"

lemma PacketTx_run_sends:
  assumes "ps_txstate s = TxIdle" and "ps_scconnctl s" and "ch_buf (ps_TxChannel s) = ts"
  shows "PacketTx_run (length ts) s = Some (s\<lparr>ps_TxChannel := (ps_TxChannel s)\<lparr>ch_buf := []\<rparr>,
     ps_ctlout := ps_ctlout s @ map tr_Payload ts\<rparr>)"
  using assms
proof (induction ts arbitrary: s)
  case Nil
  then have "(ps_TxChannel s)\<lparr>ch_buf := []\<rparr> = ps_TxChannel s" by (cases "ps_TxChannel s") simp
  then show ?case by simp
next
  case (Cons t ts)
  then show ?case by (simp add: PacketTx_take_def PacketTx_write_def chan_recv_def)
qed

lemma CtlConn_run_receives:
  assumes "ps_ctl_reader s" and "ps_frontier s = Some fc" and "\<not> ctx_Err cancelled (ps_ctx s)"
    and "\<forall>m\<in>set ms. length m \<le> 65536"
  shows "\<exists>fc'. ps_frontier (CtlConn_run cancelled pickDone ms s) = Some fc' \<and>
     ch_buf (fc_RxChannel fc') = ch_buf (fc_RxChannel fc) @ map (mk_traffic 0) ms"
  using assms
proof (induction ms arbitrary: s fc)
  case (Cons m ms)
  let ?fc = "fc\<lparr>fc_RxChannel := chan_send (fc_RxChannel fc) (mk_traffic 0 m)\<rparr>"
  have "CtlConn_run cancelled pickDone (m # ms) s = CtlConn_run cancelled pickDone ms (s\<lparr>ps_frontier := Some ?fc\<rparr>)"
    using Cons.prems by (simp add: CtlConn_run_def CtlConn_step_def)
  then show ?case using Cons.IH [of "s\<lparr>ps_frontier := Some ?fc\<rparr>" ?fc] Cons.prems by simp
qed (simp add: CtlConn_run_def)

text \<open>
  C26. Control traffic over a carrier. The packets the workers put into the control channel of one relay
  go out on its control stream, one message each and in order. The stream is unordered: the other
  relay reads the messages in some order \<open>ms\<close>. Every packet then comes out on the other side exactly
  once, whole and on channel 0, and nothing else does.
\<close>

theorem relay_control_delivered:
  assumes "ps_txstate a = TxIdle" and "ps_scconnctl a" and "ch_buf (ps_TxChannel a) = ts" and "ps_ctlout a = []"
    and "\<And>t. t \<in> set ts \<Longrightarrow> tr_Channel t = 0 \<and> length (tr_Payload t) \<le> 65536"
    and "ps_ctl_reader b" and "ps_frontier b = Some fc" and "\<not> ctx_Err cancelled (ps_ctx b)"
  shows "\<exists>a'. PacketTx_run (length ts) a = Some a' \<and> ps_ctlout a' = map tr_Payload ts \<and>
     (\<forall>ms. mset ms = mset (ps_ctlout a') \<longrightarrow>
        (\<exists>fc' rx. ps_frontier (CtlConn_run cancelled pickDone ms b) = Some fc' \<and>
           ch_buf (fc_RxChannel fc') = ch_buf (fc_RxChannel fc) @ rx \<and> mset rx = mset ts))"
proof -
  obtain a' where a': "PacketTx_run (length ts) a = Some a'" "ps_ctlout a' = map tr_Payload ts"
    using PacketTx_run_sends [OF assms(1-3)] assms(4) by simp
  have "\<exists>fc' rx. ps_frontier (CtlConn_run cancelled pickDone ms b) = Some fc' \<and>
      ch_buf (fc_RxChannel fc') = ch_buf (fc_RxChannel fc) @ rx \<and> mset rx = mset ts"
    if "mset ms = mset (ps_ctlout a')" for ms
  proof -
    have ms: "mset ms = image_mset tr_Payload (mset ts)" using that a'(2) by simp
    have "set ms = tr_Payload ` set ts" using arg_cong [OF ms, of set_mset] by simp
    then have "\<forall>m\<in>set ms. length m \<le> 65536" using assms(5) by auto
    from CtlConn_run_receives [OF assms(6-8) this]
    obtain fc' where fc': "ps_frontier (CtlConn_run cancelled pickDone ms b) = Some fc'"
      "ch_buf (fc_RxChannel fc') = ch_buf (fc_RxChannel fc) @ map (mk_traffic 0) ms" by blast
    have "mk_traffic 0 (tr_Payload t) = t" if "t \<in> set ts" for t
      using assms(5) [OF that] mk_traffic_eta [of t] by simp
    then have "map (\<lambda>t. mk_traffic 0 (tr_Payload t)) ts = ts" by (intro map_idI) simp
    then have "image_mset (\<lambda>t. mk_traffic 0 (tr_Payload t)) (mset ts) = mset ts"
      by (metis mset_map)
    then have "mset (map (mk_traffic 0) ms) = mset ts"
      using ms by (simp add: image_mset.compositionality comp_def)
    with fc' show ?thesis by blast
  qed
  with a' show ?thesis by blast
qed

definition ex_relay :: PacketSCTPRelay where
  "ex_relay = (fresh_relay (make_chan 8) [1] Background)\<lparr>ps_tlsconn := True, ps_scconn := True, ps_scconnctl := True,
     ps_ctl_reader := True, ps_muxer := True, ps_frontier := Some (NewFilteredConn ex_dgram (make_chan 8) (make_chan 8))\<rparr>"

theorem relay_control_delivered_witness:
  "\<exists>a'. PacketTx_run 2 (ex_relay\<lparr>ps_TxChannel := \<lparr>ch_cap = 8, ch_buf = [mk_traffic 0 [1], mk_traffic 0 [2]]\<rparr>\<rparr>) = Some a' \<and>
     ps_ctlout a' = [[1], [2]] \<and>
     (\<exists>fc' rx. ps_frontier (CtlConn_run {} False [[2], [1]] ex_relay) = Some fc' \<and>
        ch_buf (fc_RxChannel fc') = rx \<and> mset rx = {#mk_traffic 0 [1], mk_traffic 0 [2]#})"
proof -
  let ?ts = "[mk_traffic 0 [1], mk_traffic 0 [2]]"
  let ?a = "ex_relay\<lparr>ps_TxChannel := \<lparr>ch_cap = 8, ch_buf = ?ts\<rparr>\<rparr>"
  let ?fc = "NewFilteredConn ex_dgram (make_chan 8) (make_chan 8)"
  have 1: "ps_txstate ?a = TxIdle" "ps_scconnctl ?a" "ch_buf (ps_TxChannel ?a) = ?ts" "ps_ctlout ?a = []"
    "ps_ctl_reader ex_relay" "ps_frontier ex_relay = Some ?fc" "\<not> ctx_Err {} (ps_ctx ex_relay)"
    by (simp_all add: ex_relay_def fresh_relay_def ctx_Err_def)
  have 2: "tr_Channel t = 0 \<and> length (tr_Payload t) \<le> 65536" if "t \<in> set ?ts" for t
    using that by (auto simp: mk_traffic_def)
  obtain a' where a1: "PacketTx_run (length ?ts) ?a = Some a'" "ps_ctlout a' = map tr_Payload ?ts"
    and rx: "\<And>ms. mset ms = mset (ps_ctlout a') \<Longrightarrow> \<exists>fc' rx. ps_frontier (CtlConn_run {} False ms ex_relay) = Some fc' \<and>
      ch_buf (fc_RxChannel fc') = ch_buf (fc_RxChannel ?fc) @ rx \<and> mset rx = mset ?ts"
    using relay_control_delivered [OF 1(1-4) 2 1(5-7), of False] by blast
  have a': "PacketTx_run 2 ?a = Some a'" "ps_ctlout a' = [[1], [2]]"
    using a1 by (simp_all add: mk_traffic_def eval_nat_numeral)
  have "mset [[2 :: byte], [1]] = mset (ps_ctlout a')" using a'(2) by simp
  from rx [OF this] have "\<exists>fc' rx. ps_frontier (CtlConn_run {} False [[2], [1]] ex_relay) = Some fc' \<and>
        ch_buf (fc_RxChannel fc') = rx \<and> mset rx = {#mk_traffic 0 [1], mk_traffic 0 [2]#}"
    by (simp add: NewFilteredConn_def)
  with a' show ?thesis by blast
qed

text \<open>
  When the second stream cannot be opened, the client reads the message of an error that is nil and
  the process ends, although the carrier works; it opens only when both streams do.
\<close>

lemma ClientOpen_outcome:
  "ClientOpen lib s =
     (if \<not> ps_scconn s then Ok s
      else if hl_OpenStream lib 0 \<and> hl_OpenStream lib 1
      then Ok (s\<lparr>ps_scconnctl := True, ps_muxer := hl_smux lib, ps_ctl_reader := True\<rparr>)
      else Panic)"
  by (simp add: ClientOpen_def)

text \<open>
  A relay whose handshake failed still starts its sender, which takes one packet and then waits for a
  control stream; it never comes to look at its context again.
\<close>

lemma failed_handshake_sender_stuck:
  assumes "NewPacketRelayClient lib conn tx txData rx pw ctx = Ok s" and "\<not> hl_sctp lib"
    and "chan_recv tx = Some (data, ch)"
  shows "ClientOpen lib s = (Ok s :: ('e, PacketSCTPRelay) outcome) \<and> (\<exists>s'. PacketTx_take s = Some s' \<and>
     (\<forall>ok cancelled. PacketTx_write ok s' = None \<and> PacketTx_quit cancelled s' = None \<and> PacketTx_take s' = None))"
proof -
  have "ps_TxChannel s = tx" "ps_txstate s = TxIdle" "\<not> ps_scconn s" "\<not> ps_scconnctl s"
    using assms(1,2) by (auto simp: NewPacketRelayClient_def tlsopen_def getConn_def fresh_relay_def)
  then show ?thesis
    using assms(3) by (simp add: ClientOpen_def PacketTx_take_def PacketTx_write_def PacketTx_quit_def)
qed

end
