(* ===== verification/PacketUni.thy ===== *)
theory PacketUni
  imports SctpRelay UniHub
begin

text \<open>
  The packet connection that survives new handshakes: \<^verbatim>\<open>transport/packetuni\<close> (\<open>puniClient\<close>, \<open>puniServer\<close>,
  \<open>puniCommon\<close>). Each handshake makes a carrier: a cancellable context, a relay, and three goroutines that
  move packets between the channels of the workers and those of the relay. \<open>OnCarrier\<close> runs in a
  goroutine of its own and waits in the handshake, so it is two moves here, its begin and its finish, and
  the moves of all goroutines interleave. A move that cannot happen yet is \<open>Blocked\<close>.
\<close>

section \<open>Pumps\<close>

text \<open>
  The loop of all these goroutines: a select between a packet of the source and the end of the
  context, then a send that is not part of the select. A packet can be in its hand.
\<close>

record pump =
  pm_ctx :: go_ctx
  pm_hand :: "TrafficWithChannelTag list"
  pm_running :: bool

definition start_pump :: "go_ctx \<Rightarrow> pump" where
  "start_pump ctx = \<lparr>pm_ctx = ctx, pm_hand = [], pm_running = True\<rparr>"

definition pump_take ::
  "TrafficWithChannelTag chan \<Rightarrow> pump \<Rightarrow> (unit, TrafficWithChannelTag chan \<times> pump) outcome" where
  "pump_take src p =
     (if pm_running p \<and> pm_hand p = [] then
        (case chan_recv src of None \<Rightarrow> Blocked | Some (data, src') \<Rightarrow> Ok (src', p\<lparr>pm_hand := [data]\<rparr>))
      else Blocked)"

definition pump_put ::
  "pump \<Rightarrow> TrafficWithChannelTag chan \<Rightarrow> (unit, pump \<times> TrafficWithChannelTag chan) outcome" where
  "pump_put p dst =
     (case pm_hand p of
        [] \<Rightarrow> Blocked
      | data # rest \<Rightarrow>
          (let (dst', sent) = chan_try_send dst data
           in if sent then Ok (p\<lparr>pm_hand := rest\<rparr>, dst') else Blocked))"

definition pump_quit :: "nat set \<Rightarrow> pump \<Rightarrow> (unit, pump) outcome" where
  "pump_quit cancelled p =
     (if pm_running p \<and> pm_hand p = [] \<and> ctx_Err cancelled (pm_ctx p) then Ok (p\<lparr>pm_running := False\<rparr>) else Blocked)"

lemma pump_take_order: "pump_take src p = Ok (src', p') \<Longrightarrow>
    pm_hand p = [] \<and> pm_hand p' @ ch_buf src' = ch_buf src \<and> pm_ctx p' = pm_ctx p \<and> pm_running p"
  by (auto simp: pump_take_def chan_recv_def split: if_splits list.splits option.splits)

lemma pump_put_order: "pump_put p dst = Ok (p', dst') \<Longrightarrow>
    ch_buf dst' @ pm_hand p' = ch_buf dst @ pm_hand p \<and> pm_ctx p' = pm_ctx p \<and> pm_running p' = pm_running p"
  by (auto simp: pump_put_def chan_try_send_def Let_def split: if_splits list.splits prod.splits)

lemma pump_quit_order: "pump_quit cancelled p = Ok p' \<Longrightarrow> pm_hand p' = pm_hand p \<and> pm_ctx p' = pm_ctx p"
  by (auto simp: pump_quit_def split: if_splits)

section \<open>The packet connection\<close>

record puni_carrier =
  pc_ctx :: go_ctx
  pc_relay :: "PacketSCTPRelay option"
  pc_tx :: pump
  pc_txdata :: pump
  pc_rx :: pump

text \<open>
  \<open>PacketUniClient\<close> and \<open>PacketUniServer\<close>. The relay in use is given by the number of its carrier.
\<close>

record PacketUni =
  pu_TxChannel :: "TrafficWithChannelTag chan"
  pu_TxDataChannel :: "TrafficWithChannelTag chan"
  pu_RxChannel :: "TrafficWithChannelTag chan"
  pu_Password :: bytes
  pu_ctx :: go_ctx
  pu_carrierCtx :: go_ctx
  pu_carrierCancel :: "nat option"
  pu_relay :: "nat option"
  pu_carriers :: "puni_carrier list"
  pu_next :: nat
  pu_cancelled :: "nat set"

text \<open>The cancel functions made here have numbers from \<open>next\<close> on; those of the contexts given are smaller.\<close>

definition NewPacketUni ::
  "TrafficWithChannelTag chan \<Rightarrow> TrafficWithChannelTag chan \<Rightarrow> TrafficWithChannelTag chan \<Rightarrow> bytes \<Rightarrow> go_ctx \<Rightarrow>
   nat \<Rightarrow> PacketUni" where
  "NewPacketUni tx txData rx pw ctx nxt =
     \<lparr>pu_TxChannel = tx, pu_TxDataChannel = txData, pu_RxChannel = rx, pu_Password = pw, pu_ctx = ctx,
      pu_carrierCtx = Background, pu_carrierCancel = None, pu_relay = None, pu_carriers = [], pu_next = nxt,
      pu_cancelled = {}\<rparr>"

definition new_carrier :: "go_ctx \<Rightarrow> puni_carrier" where
  "new_carrier ctx =
     (let p = (start_pump ctx)\<lparr>pm_running := False\<rparr>
      in \<lparr>pc_ctx = ctx, pc_relay = None, pc_tx = p, pc_txdata = p, pc_rx = p\<rparr>)"

text \<open>
  \<open>OnCarrier\<close> up to the handshake: the last carrier is cancelled, a context and channels are made. The
  parent of the context is the context of the client, on the server that of the connection.
\<close>

definition OnCarrier_begin :: "go_ctx \<Rightarrow> PacketUni \<Rightarrow> PacketUni" where
  "OnCarrier_begin parent pu =
     (let n = pu_next pu; cctx = WithCancel parent n
      in pu\<lparr>pu_cancelled := pu_cancelled pu \<union> set_option (pu_carrierCancel pu),
            pu_carrierCtx := cctx, pu_carrierCancel := Some n, pu_next := Suc n,
            pu_carriers := pu_carriers pu @ [new_carrier cctx]\<rparr>)"

type_synonym relay_maker =
  "TrafficWithChannelTag chan \<Rightarrow> TrafficWithChannelTag chan \<Rightarrow> TrafficWithChannelTag chan \<Rightarrow> bytes \<Rightarrow> go_ctx \<Rightarrow>
   (unit, PacketSCTPRelay) outcome"

text \<open>
  \<open>OnCarrier\<close> after the handshake of carrier \<open>i\<close>: the goroutines start with the context the field
  \<open>carrierCtx\<close> has now, and the relay becomes the one in use.
\<close>

definition OnCarrier_finish :: "relay_maker \<Rightarrow> nat \<Rightarrow> PacketUni \<Rightarrow> (unit, PacketUni) outcome" where
  "OnCarrier_finish mk i pu =
     (if i < length (pu_carriers pu) \<and> pc_relay (pu_carriers pu ! i) = None then
        (let c = pu_carriers pu ! i; p = start_pump (pu_carrierCtx pu)
         in bind_outcome (mk (make_chan 8) (make_chan 8) (make_chan 8) (pu_Password pu) (pc_ctx c)) (\<lambda>r.
              Ok (pu\<lparr>pu_carriers := (pu_carriers pu)[i :=
                        c\<lparr>pc_relay := Some r, pc_tx := p, pc_txdata := p, pc_rx := p\<rparr>],
                     pu_relay := Some i\<rparr>)))
      else Blocked)"

definition client_relay :: "dgram_conn \<Rightarrow> handshake_libs \<Rightarrow> relay_maker" where
  "client_relay conn lib = NewPacketRelayClient lib conn"

definition server_relay :: "dgram_conn \<Rightarrow> handshake_libs \<Rightarrow> relay_maker" where
  "server_relay conn lib = NewPacketRelayServer lib conn"

definition puni_GetTransmitLayerSentRecvStats :: "PacketUni \<Rightarrow> (unit, u64 \<times> u64) outcome" where
  "puni_GetTransmitLayerSentRecvStats pu =
     (case pu_relay pu of
        None \<Rightarrow> Ok (0, 0)
      | Some i \<Rightarrow>
          (case pc_relay (pu_carriers pu ! i) of
             None \<Rightarrow> Ok (0, 0)
           | Some r \<Rightarrow> relay_GetTransmitLayerSentRecvStats r))"

text \<open>
  \<open>ClientOpenStream\<close> looks 6001 times whether there is a relay and sleeps a tenth of a second when there
  is none; \<open>seen t\<close> is the state after \<open>t\<close> tenths. A relay still missing is a nil receiver.
\<close>

fun puni_wait :: "(nat \<Rightarrow> PacketUni) \<Rightarrow> nat \<Rightarrow> nat \<Rightarrow> nat" where
  "puni_wait seen 0 t = t"
| "puni_wait seen (Suc n) t = puni_wait seen n (if pu_relay (seen t) = None then Suc t else t)"

definition puni_ClientOpenStream :: "nat option \<Rightarrow> (nat \<Rightarrow> PacketUni) \<Rightarrow> (unit, nat option) outcome" where
  "puni_ClientOpenStream opened seen =
     (let pu = seen (puni_wait seen 6001 0)
      in case pu_relay pu of
           None \<Rightarrow> Panic
         | Some i \<Rightarrow>
             (case pc_relay (pu_carriers pu ! i) of None \<Rightarrow> Panic | Some r \<Rightarrow> relay_ClientOpenStream opened r))"

section \<open>New handshakes on request\<close>

text \<open>
  \<open>ReHandshake2\<close> puts an event on the bus of the connection. \<open>onAutoCarrier\<close> listens with a channel of 8;
  the client begins a carrier for a full handshake only, the server for every event.
\<close>

definition ReHandshake2 :: "go_ctx \<Rightarrow> bool \<Rightarrow> (unit, nat \<times> bytes \<times> ConnReHandshake) outcome" where
  "ReHandshake2 ctx rehandshake =
     bind_outcome (ConnectionMessageBusFromContext ctx) (\<lambda>msgbus.
       bind_outcome (ConnIDToString ctx) (\<lambda>connstr.
         Ok (msgbus, topic_ConnReHandShake connstr, \<lparr>rh_Fire = True, rh_FullReHandshake = rehandshake\<rparr>)))"

record auto_carrier =
  au_bus :: nat
  au_topic :: bytes
  au_opt :: "ConnReHandshake chan"

definition auto_listen :: "go_ctx \<Rightarrow> (unit, auto_carrier) outcome" where
  "auto_listen connctx =
     bind_outcome (ConnIDToString connctx) (\<lambda>i.
       bind_outcome (ConnectionMessageBusFromContext connctx) (\<lambda>b.
         Ok \<lparr>au_bus = b, au_topic = topic_ConnReHandShake i, au_opt = make_chan 8\<rparr>))"

definition client_onAutoCarrier_start :: "go_ctx \<Rightarrow> PacketUni \<Rightarrow> (unit, auto_carrier \<times> PacketUni) outcome" where
  "client_onAutoCarrier_start connctx pu =
     bind_outcome (auto_listen connctx) (\<lambda>a. Ok (a, OnCarrier_begin (pu_ctx pu) pu))"

definition server_onAutoCarrier_start :: "go_ctx \<Rightarrow> PacketUni \<Rightarrow> (unit, auto_carrier \<times> PacketUni) outcome" where
  "server_onAutoCarrier_start connctx pu =
     bind_outcome (auto_listen connctx) (\<lambda>a. Ok (a, OnCarrier_begin connctx pu))"

definition auto_on_event :: "nat \<times> bytes \<times> ConnReHandshake \<Rightarrow> auto_carrier \<Rightarrow> auto_carrier" where
  "auto_on_event ev a =
     (case ev of (b, topic, d) \<Rightarrow>
        if b = au_bus a \<and> topic = au_topic a then a\<lparr>au_opt := bus_handle d (au_opt a)\<rparr> else a)"

definition client_onAutoCarrier_step :: "auto_carrier \<Rightarrow> PacketUni \<Rightarrow> auto_carrier \<times> PacketUni" where
  "client_onAutoCarrier_step a pu =
     (case chan_recv (au_opt a) of
        None \<Rightarrow> (a, pu)
      | Some (opt, ch) \<Rightarrow>
          (a\<lparr>au_opt := ch\<rparr>, if rh_FullReHandshake opt then OnCarrier_begin (pu_ctx pu) pu else pu))"

definition server_onAutoCarrier_step :: "go_ctx \<Rightarrow> auto_carrier \<Rightarrow> PacketUni \<Rightarrow> auto_carrier \<times> PacketUni" where
  "server_onAutoCarrier_step connctx a pu =
     (case chan_recv (au_opt a) of
        None \<Rightarrow> (a, pu)
      | Some (opt, ch) \<Rightarrow> (a\<lparr>au_opt := ch\<rparr>, OnCarrier_begin connctx pu))"

section \<open>The moves\<close>

definition on_carrier ::
  "nat \<Rightarrow> (puni_carrier \<Rightarrow> (unit, puni_carrier) outcome) \<Rightarrow> PacketUni \<Rightarrow> (unit, PacketUni) outcome" where
  "on_carrier i f pu =
     (if i < length (pu_carriers pu) then
        bind_outcome (f (pu_carriers pu ! i)) (\<lambda>c. Ok (pu\<lparr>pu_carriers := (pu_carriers pu)[i := c]\<rparr>))
      else Blocked)"

definition on_relay ::
  "(PacketSCTPRelay \<Rightarrow> (unit, PacketSCTPRelay) outcome) \<Rightarrow> puni_carrier \<Rightarrow> (unit, puni_carrier) outcome" where
  "on_relay f c =
     (case pc_relay c of
        None \<Rightarrow> Blocked
      | Some r \<Rightarrow> bind_outcome (f r) (\<lambda>r'. Ok (c\<lparr>pc_relay := Some r'\<rparr>)))"

definition enabled :: "'a option \<Rightarrow> (unit, 'a) outcome" where
  "enabled x = (case x of None \<Rightarrow> Blocked | Some a \<Rightarrow> Ok a)"

text \<open>From the channel of the workers into the hand, and from the hand into the channel of the relay.\<close>

definition puni_tx_take :: "nat \<Rightarrow> PacketUni \<Rightarrow> (unit, PacketUni) outcome" where
  "puni_tx_take i pu =
     (if i < length (pu_carriers pu) then
        (let c = pu_carriers pu ! i
         in bind_outcome (pump_take (pu_TxChannel pu) (pc_tx c)) (\<lambda>(src, p).
              Ok (pu\<lparr>pu_TxChannel := src, pu_carriers := (pu_carriers pu)[i := c\<lparr>pc_tx := p\<rparr>]\<rparr>)))
      else Blocked)"

definition carrier_tx_put :: "puni_carrier \<Rightarrow> (unit, puni_carrier) outcome" where
  "carrier_tx_put c =
     (case pc_relay c of
        None \<Rightarrow> Blocked
      | Some r \<Rightarrow>
          bind_outcome (pump_put (pc_tx c) (ps_TxChannel r)) (\<lambda>(p, dst).
            Ok (c\<lparr>pc_tx := p, pc_relay := Some (r\<lparr>ps_TxChannel := dst\<rparr>)\<rparr>)))"

definition puni_data_take :: "nat \<Rightarrow> PacketUni \<Rightarrow> (unit, PacketUni) outcome" where
  "puni_data_take i pu =
     (if i < length (pu_carriers pu) then
        (let c = pu_carriers pu ! i
         in bind_outcome (pump_take (pu_TxDataChannel pu) (pc_txdata c)) (\<lambda>(src, p).
              Ok (pu\<lparr>pu_TxDataChannel := src, pu_carriers := (pu_carriers pu)[i := c\<lparr>pc_txdata := p\<rparr>]\<rparr>)))
      else Blocked)"

definition carrier_data_put :: "puni_carrier \<Rightarrow> (unit, puni_carrier) outcome" where
  "carrier_data_put c =
     (case pc_relay c of
        None \<Rightarrow> Blocked
      | Some r \<Rightarrow>
          (case ps_frontier r of
             None \<Rightarrow> Blocked
           | Some fc \<Rightarrow>
               bind_outcome (pump_put (pc_txdata c) (fc_TxDataChannel fc)) (\<lambda>(p, dst).
                 Ok (c\<lparr>pc_txdata := p, pc_relay := Some (r\<lparr>ps_frontier := Some (fc\<lparr>fc_TxDataChannel := dst\<rparr>)\<rparr>)\<rparr>))))"

text \<open>From the relay to the workers.\<close>

definition carrier_rx_take :: "puni_carrier \<Rightarrow> (unit, puni_carrier) outcome" where
  "carrier_rx_take c =
     (case pc_relay c of
        None \<Rightarrow> Blocked
      | Some r \<Rightarrow>
          (case ps_frontier r of
             None \<Rightarrow> Blocked
           | Some fc \<Rightarrow>
               bind_outcome (pump_take (fc_RxChannel fc) (pc_rx c)) (\<lambda>(src, p).
                 Ok (c\<lparr>pc_rx := p, pc_relay := Some (r\<lparr>ps_frontier := Some (fc\<lparr>fc_RxChannel := src\<rparr>)\<rparr>)\<rparr>))))"

definition puni_rx_put :: "nat \<Rightarrow> PacketUni \<Rightarrow> (unit, PacketUni) outcome" where
  "puni_rx_put i pu =
     (if i < length (pu_carriers pu) then
        (let c = pu_carriers pu ! i
         in bind_outcome (pump_put (pc_rx c) (pu_RxChannel pu)) (\<lambda>(p, dst).
              Ok (pu\<lparr>pu_RxChannel := dst, pu_carriers := (pu_carriers pu)[i := c\<lparr>pc_rx := p\<rparr>]\<rparr>)))
      else Blocked)"

definition carrier_quit :: "nat set \<Rightarrow> nat \<Rightarrow> puni_carrier \<Rightarrow> (unit, puni_carrier) outcome" where
  "carrier_quit cancelled which c =
     (if which = 0 then bind_outcome (pump_quit cancelled (pc_tx c)) (\<lambda>p. Ok (c\<lparr>pc_tx := p\<rparr>))
      else if which = 1 then bind_outcome (pump_quit cancelled (pc_txdata c)) (\<lambda>p. Ok (c\<lparr>pc_txdata := p\<rparr>))
      else bind_outcome (pump_quit cancelled (pc_rx c)) (\<lambda>p. Ok (c\<lparr>pc_rx := p\<rparr>)))"

text \<open>
  The moves of one side: the workers send and receive, carriers begin and finish, the goroutines of
  carrier \<open>i\<close> move. \<open>mk\<close> makes the relay of a finished handshake, \<open>parent\<close> is the context \<open>OnCarrier\<close> derives.
\<close>

datatype puni_move =
    WorkerSend TrafficWithChannelTag | WorkerSendData TrafficWithChannelTag | WorkerRecv
  | Begin | Finish nat handshake_libs
  | TxTake nat | TxPut nat | DataTake nat | DataPut nat | RxTake nat | RxPut nat | Quit nat nat
  | RelayTake nat | RelayWrite nat bool | RelayQuit nat
  | StreamOpen nat handshake_libs | StreamAccept nat handshake_libs "unit + u16"
  | CtlIn nat bool "io_error + bytes" | DataOut nat

fun puni_exec :: "struc_lib \<Rightarrow> (handshake_libs \<Rightarrow> relay_maker) \<Rightarrow> go_ctx \<Rightarrow> puni_move \<Rightarrow> PacketUni \<Rightarrow> (unit, PacketUni) outcome" where
  "puni_exec S mk parent (WorkerSend t) pu = Ok (pu\<lparr>pu_TxChannel := chan_send (pu_TxChannel pu) t\<rparr>)"
| "puni_exec S mk parent (WorkerSendData t) pu = Ok (pu\<lparr>pu_TxDataChannel := chan_send (pu_TxDataChannel pu) t\<rparr>)"
| "puni_exec S mk parent WorkerRecv pu =
     bind_outcome (enabled (chan_recv (pu_RxChannel pu))) (\<lambda>(t, ch). Ok (pu\<lparr>pu_RxChannel := ch\<rparr>))"
| "puni_exec S mk parent Begin pu = Ok (OnCarrier_begin parent pu)"
| "puni_exec S mk parent (Finish i lib) pu = OnCarrier_finish (mk lib) i pu"
| "puni_exec S mk parent (TxTake i) pu = puni_tx_take i pu"
| "puni_exec S mk parent (TxPut i) pu = on_carrier i carrier_tx_put pu"
| "puni_exec S mk parent (DataTake i) pu = puni_data_take i pu"
| "puni_exec S mk parent (DataPut i) pu = on_carrier i carrier_data_put pu"
| "puni_exec S mk parent (RxTake i) pu = on_carrier i carrier_rx_take pu"
| "puni_exec S mk parent (RxPut i) pu = puni_rx_put i pu"
| "puni_exec S mk parent (Quit i which) pu = on_carrier i (carrier_quit (pu_cancelled pu) which) pu"
| "puni_exec S mk parent (RelayTake i) pu = on_carrier i (on_relay (\<lambda>r. enabled (PacketTx_take r))) pu"
| "puni_exec S mk parent (RelayWrite i ok) pu = on_carrier i (on_relay (\<lambda>r. enabled (PacketTx_write ok r))) pu"
| "puni_exec S mk parent (RelayQuit i) pu = on_carrier i (on_relay (\<lambda>r. enabled (PacketTx_quit (pu_cancelled pu) r))) pu"
| "puni_exec S mk parent (StreamOpen i lib) pu = on_carrier i (on_relay (ClientOpen lib)) pu"
| "puni_exec S mk parent (StreamAccept i lib acc) pu = on_carrier i (on_relay (Listen_step lib acc)) pu"
| "puni_exec S mk parent (CtlIn i done msg) pu =
     on_carrier i (on_relay (\<lambda>r. Ok (CtlConn_step (pu_cancelled pu) done msg r))) pu"
| "puni_exec S mk parent (DataOut i) pu =
     on_carrier i (on_relay (\<lambda>r. Ok (r\<lparr>ps_frontier := map_option (WriteC_step S) (ps_frontier r)\<rparr>))) pu"

inductive puni_run :: "struc_lib \<Rightarrow> (handshake_libs \<Rightarrow> relay_maker) \<Rightarrow> go_ctx \<Rightarrow> PacketUni \<Rightarrow> puni_move list \<Rightarrow> PacketUni \<Rightarrow> bool"
  for S mk parent where
  run_refl: "puni_run S mk parent pu [] pu"
| run_step: "puni_run S mk parent pu ms pu' \<Longrightarrow> puni_exec S mk parent m pu' = Ok pu'' \<Longrightarrow>
    puni_run S mk parent pu (ms @ [m]) pu''"

lemma case_outcome_Ok:
  "(case r of Ok a \<Rightarrow> P a | Err e \<Rightarrow> False | Panic \<Rightarrow> False | Blocked \<Rightarrow> False) \<longleftrightarrow> (\<exists>a. r = Ok a \<and> P a)"
  by (cases r) auto

text \<open>The same runs, executed.\<close>

fun puni_execs :: "struc_lib \<Rightarrow> (handshake_libs \<Rightarrow> relay_maker) \<Rightarrow> go_ctx \<Rightarrow> puni_move list \<Rightarrow> PacketUni \<Rightarrow>
    (unit, PacketUni) outcome" where
  "puni_execs S mk parent [] pu = Ok pu"
| "puni_execs S mk parent (m # ms) pu = bind_outcome (puni_exec S mk parent m pu) (puni_execs S mk parent ms)"

lemma puni_run_Cons:
  "puni_run S mk parent pu' ms pu'' \<Longrightarrow> puni_exec S mk parent m pu = Ok pu' \<Longrightarrow> puni_run S mk parent pu (m # ms) pu''"
proof (induction rule: puni_run.induct)
  case (run_refl pu')
  then show ?case using puni_run.run_step [OF puni_run.run_refl] by fastforce
next
  case (run_step pu' ms pu1 m' pu2)
  then show ?case using puni_run.run_step [of S mk parent pu "m # ms" pu1 m' pu2] by simp
qed

lemma puni_run_execs: "puni_execs S mk parent ms pu = Ok pu' \<Longrightarrow> puni_run S mk parent pu ms pu'"
  by (induction ms arbitrary: pu) (auto intro: puni_run.run_refl puni_run_Cons)

section \<open>What the moves keep\<close>

text \<open>The contexts of a carrier, and the fields of the connection that only \<open>OnCarrier\<close> writes.\<close>

definition carrier_ctxs :: "puni_carrier \<Rightarrow> go_ctx \<times> go_ctx option \<times> go_ctx \<times> go_ctx \<times> go_ctx" where
  "carrier_ctxs c = (pc_ctx c, map_option ps_ctx (pc_relay c), pm_ctx (pc_tx c), pm_ctx (pc_txdata c), pm_ctx (pc_rx c))"

definition carrier_fields :: "PacketUni \<Rightarrow> nat \<times> nat set \<times> go_ctx \<times> nat option \<times> nat option \<times> bytes" where
  "carrier_fields pu = (pu_next pu, pu_cancelled pu, pu_carrierCtx pu, pu_carrierCancel pu, pu_relay pu, pu_Password pu)"

definition keeps_ctxs :: "PacketUni \<Rightarrow> PacketUni \<Rightarrow> bool" where
  "keeps_ctxs pu pu' \<longleftrightarrow> map carrier_ctxs (pu_carriers pu') = map carrier_ctxs (pu_carriers pu) \<and>
     carrier_fields pu' = carrier_fields pu"

section \<open>Where a control packet is\<close>

text \<open>
  The payloads of all control packets given to the connection: in the channel of the workers, in the
  hand of a goroutine, in the channel of a relay, in the hand of its sender, on a control stream, or
  dropped because a stream refused the write.
\<close>

definition relay_ctl :: "PacketSCTPRelay \<Rightarrow> bytes multiset" where
  "relay_ctl r =
     mset (map tr_Payload (ch_buf (ps_TxChannel r))) +
     (case ps_txstate r of TxHolding d \<Rightarrow> {#tr_Payload d#} | _ \<Rightarrow> {#}) + mset (ps_ctlout r) + mset (ps_ctllost r)"

definition carrier_ctl :: "puni_carrier \<Rightarrow> bytes multiset" where
  "carrier_ctl c =
     mset (map tr_Payload (pm_hand (pc_tx c))) + (case pc_relay c of None \<Rightarrow> {#} | Some r \<Rightarrow> relay_ctl r)"

definition ctl_content :: "PacketUni \<Rightarrow> bytes multiset" where
  "ctl_content pu =
     mset (map tr_Payload (ch_buf (pu_TxChannel pu))) + sum_list (map carrier_ctl (pu_carriers pu))"

fun worker_sent :: "puni_move \<Rightarrow> bytes list" where
  "worker_sent (WorkerSend t) = [tr_Payload t]"
| "worker_sent _ = []"

text \<open>Before its handshake is over a carrier has no goroutines and no packet.\<close>

definition carrier_waits :: "puni_carrier \<Rightarrow> bool" where
  "carrier_waits c \<longleftrightarrow> (pc_relay c = None \<longrightarrow> \<not> pm_running (pc_tx c) \<and> pm_hand (pc_tx c) = [])"

definition waits_inv :: "PacketUni \<Rightarrow> bool" where
  "waits_inv pu \<longleftrightarrow> list_all carrier_waits (pu_carriers pu)"

lemma sum_list_map_update:
  fixes f :: "'a \<Rightarrow> 'b multiset"
  assumes "i < length xs"
  shows "sum_list (map f (xs[i := c])) + f (xs ! i) = sum_list (map f xs) + f c"
  using assms
proof (induction xs arbitrary: i)
  case (Cons x xs)
  then show ?case by (cases i) (auto simp: ac_simps)
qed simp

lemma sum_list_map_update_same:
  fixes f :: "'a \<Rightarrow> 'b multiset"
  shows "i < length xs \<Longrightarrow> f c = f (xs ! i) \<Longrightarrow> sum_list (map f (xs[i := c])) = sum_list (map f xs)"
  using sum_list_map_update [of i xs f c] by simp

section \<open>Moves inside a carrier\<close>

text \<open>
  A move of a relay, and a move inside a carrier, keeps the contexts and the control packets.
\<close>

definition relay_move :: "(PacketSCTPRelay \<Rightarrow> (unit, PacketSCTPRelay) outcome) \<Rightarrow> bool" where
  "relay_move f \<longleftrightarrow> (\<forall>r r'. f r = Ok r' \<longrightarrow> ps_ctx r' = ps_ctx r \<and> relay_ctl r' = relay_ctl r)"

definition carrier_move :: "(puni_carrier \<Rightarrow> (unit, puni_carrier) outcome) \<Rightarrow> bool" where
  "carrier_move f \<longleftrightarrow>
     (\<forall>c c'. f c = Ok c' \<longrightarrow> carrier_waits c \<longrightarrow>
        carrier_ctxs c' = carrier_ctxs c \<and> carrier_ctl c' = carrier_ctl c \<and> carrier_waits c')"

lemma enabled_Ok: "enabled x = Ok a \<longleftrightarrow> x = Some a"
  by (simp add: enabled_def split: option.splits)

lemma relay_moves [simp]:
  "relay_move (\<lambda>r. enabled (PacketTx_take r))"
  "relay_move (\<lambda>r. enabled (PacketTx_write ok r))"
  "relay_move (\<lambda>r. enabled (PacketTx_quit cancelled r))"
  "relay_move (ClientOpen lib)"
  "relay_move (Listen_step lib acc)"
  "relay_move (\<lambda>r. Ok (CtlConn_step cancelled pickDone msg r))"
  "relay_move (\<lambda>r. Ok (r\<lparr>ps_frontier := map_option (WriteC_step S) (ps_frontier r)\<rparr>))"
  by (auto simp: relay_move_def enabled_Ok relay_ctl_def PacketTx_take_def PacketTx_write_def PacketTx_quit_def
      ClientOpen_outcome Listen_step_def chan_recv_def tcprelayconn_start_def CtlConn_step_def
      split: tx_state.splits option.splits list.splits if_splits sum.splits)

lemma carrier_move_relay [simp]: "relay_move f \<Longrightarrow> carrier_move (on_relay f)"
  by (auto simp: carrier_move_def on_relay_def relay_move_def carrier_ctxs_def carrier_ctl_def carrier_waits_def
      split: option.splits)

lemma carrier_move_tx_put [simp]: "carrier_move carrier_tx_put"
proof -
  have "carrier_ctxs c' = carrier_ctxs c \<and> carrier_ctl c' = carrier_ctl c \<and> carrier_waits c'"
    if "carrier_tx_put c = Ok c'" for c c'
  proof -
    obtain r p dst where r: "pc_relay c = Some r" "pump_put (pc_tx c) (ps_TxChannel r) = Ok (p, dst)"
      "c' = c\<lparr>pc_tx := p, pc_relay := Some (r\<lparr>ps_TxChannel := dst\<rparr>)\<rparr>"
      using \<open>carrier_tx_put c = Ok c'\<close> by (auto simp: carrier_tx_put_def split: option.splits)
    have "mset (map tr_Payload (ch_buf dst @ pm_hand p)) = mset (map tr_Payload (ch_buf (ps_TxChannel r) @ pm_hand (pc_tx c)))"
      and "pm_ctx p = pm_ctx (pc_tx c)"
      using pump_put_order [OF r(2)] by simp_all
    then show ?thesis
      using r(1) by (simp add: r(3) carrier_ctxs_def carrier_ctl_def relay_ctl_def carrier_waits_def ac_simps)
  qed
  then show ?thesis by (simp add: carrier_move_def)
qed

lemma carrier_moves [simp]:
  "carrier_move carrier_data_put" "carrier_move carrier_rx_take" "carrier_move (carrier_quit cancelled which)"
  by (auto simp: carrier_move_def carrier_data_put_def carrier_rx_take_def carrier_quit_def pump_quit_def
      carrier_ctxs_def carrier_ctl_def relay_ctl_def carrier_waits_def dest: pump_put_order pump_take_order
      split: option.splits if_splits)

section \<open>Moves of the connection\<close>

definition puni_keeps :: "PacketUni \<Rightarrow> PacketUni \<Rightarrow> bool" where
  "puni_keeps pu pu' \<longleftrightarrow> keeps_ctxs pu pu' \<and> ctl_content pu' = ctl_content pu \<and> waits_inv pu'"

lemma update_keeps:
  assumes "waits_inv pu" and "i < length (pu_carriers pu)" and "carrier_ctxs c = carrier_ctxs (pu_carriers pu ! i)"
    and "carrier_ctl c = carrier_ctl (pu_carriers pu ! i)" and "carrier_waits c"
    and "pu_carriers pu' = (pu_carriers pu)[i := c]" and "pu_TxChannel pu' = pu_TxChannel pu" and "carrier_fields pu' = carrier_fields pu"
  shows "puni_keeps pu pu'"
proof -
  have "ctl_content pu' = ctl_content pu"
    using assms(2,4) by (simp add: assms(6,7) ctl_content_def sum_list_map_update_same)
  moreover have "waits_inv pu'"
    using assms(1,2,5) by (auto simp: assms(6) waits_inv_def list_all_length nth_list_update)
  moreover have "keeps_ctxs pu pu'"
    using assms(2,3) by (simp add: assms(6,8) keeps_ctxs_def map_update list_update_same_conv)
  ultimately show ?thesis by (simp add: puni_keeps_def)
qed

lemma on_carrier_move:
  assumes "on_carrier i f pu = Ok pu'" and "waits_inv pu" and "carrier_move f"
  shows "puni_keeps pu pu'"
proof -
  obtain c where c: "i < length (pu_carriers pu)" "f (pu_carriers pu ! i) = Ok c"
    "pu' = pu\<lparr>pu_carriers := (pu_carriers pu)[i := c]\<rparr>"
    using assms(1) by (auto simp: on_carrier_def split: if_splits)
  have w: "carrier_waits (pu_carriers pu ! i)" using assms(2) c(1) by (simp add: waits_inv_def list_all_length)
  then have k: "carrier_ctxs c = carrier_ctxs (pu_carriers pu ! i)" "carrier_ctl c = carrier_ctl (pu_carriers pu ! i)" "carrier_waits c"
    using assms(3) c(2) by (auto simp: carrier_move_def)
  show ?thesis by (rule update_keeps [OF assms(2) c(1) k]) (simp_all add: c(3) carrier_fields_def)
qed

lemma tx_take_content:
  assumes "puni_tx_take i pu = Ok pu'" and "waits_inv pu"
  shows "puni_keeps pu pu'"
proof -
  let ?c = "pu_carriers pu ! i"
  obtain src p where i: "i < length (pu_carriers pu)" and p: "pump_take (pu_TxChannel pu) (pc_tx ?c) = Ok (src, p)"
    and pu': "pu' = pu\<lparr>pu_TxChannel := src, pu_carriers := (pu_carriers pu)[i := ?c\<lparr>pc_tx := p\<rparr>]\<rparr>"
    using assms(1) by (auto simp: puni_tx_take_def Let_def split: if_splits)
  have w: "carrier_waits ?c" using assms(2) i by (simp add: waits_inv_def list_all_length)
  have o: "pm_hand (pc_tx ?c) = []" "ch_buf (pu_TxChannel pu) = pm_hand p @ ch_buf src" "pm_running (pc_tx ?c)"
    "pm_ctx p = pm_ctx (pc_tx ?c)"
    using pump_take_order [OF p] by simp_all
  then have "carrier_ctl (?c\<lparr>pc_tx := p\<rparr>) = mset (map tr_Payload (pm_hand p)) + carrier_ctl ?c"
    by (simp add: carrier_ctl_def)
  then have "sum_list (map carrier_ctl ((pu_carriers pu)[i := ?c\<lparr>pc_tx := p\<rparr>])) =
      mset (map tr_Payload (pm_hand p)) + sum_list (map carrier_ctl (pu_carriers pu))"
    using sum_list_map_update [OF i, of carrier_ctl "?c\<lparr>pc_tx := p\<rparr>"] by simp
  then have "ctl_content pu' = ctl_content pu" by (simp add: pu' ctl_content_def o(2) ac_simps)
  moreover have "carrier_waits (?c\<lparr>pc_tx := p\<rparr>)" using w o(3) by (auto simp: carrier_waits_def)
  moreover have "keeps_ctxs pu pu'"
    using i o(4) by (simp add: pu' keeps_ctxs_def carrier_fields_def carrier_ctxs_def map_update list_update_same_conv)
  ultimately show ?thesis
    using assms(2) i by (auto simp: puni_keeps_def pu' waits_inv_def list_all_length nth_list_update)
qed

lemma data_moves_content:
  assumes "waits_inv pu"
  shows "puni_data_take i pu = Ok pu' \<Longrightarrow> puni_keeps pu pu'" "puni_rx_put i pu = Ok pu' \<Longrightarrow> puni_keeps pu pu'"
proof -
  let ?c = "pu_carriers pu ! i"
  have w: "i < length (pu_carriers pu) \<Longrightarrow> carrier_waits ?c"
    using assms by (simp add: waits_inv_def list_all_length)
  show "puni_keeps pu pu'" if d: "puni_data_take i pu = Ok pu'"
  proof -
    obtain src p where i: "i < length (pu_carriers pu)" "pump_take (pu_TxDataChannel pu) (pc_txdata ?c) = Ok (src, p)"
      and pu': "pu' = pu\<lparr>pu_TxDataChannel := src, pu_carriers := (pu_carriers pu)[i := ?c\<lparr>pc_txdata := p\<rparr>]\<rparr>"
      using d by (auto simp: puni_data_take_def Let_def split: if_splits)
    show ?thesis
      by (rule update_keeps [OF assms i(1), of "?c\<lparr>pc_txdata := p\<rparr>"])
         (use pump_take_order [OF i(2)] w [OF i(1)] in
           \<open>simp_all add: pu' carrier_ctxs_def carrier_ctl_def carrier_waits_def carrier_fields_def\<close>)
  qed
  show "puni_keeps pu pu'" if d: "puni_rx_put i pu = Ok pu'"
  proof -
    obtain dst p where i: "i < length (pu_carriers pu)" "pump_put (pc_rx ?c) (pu_RxChannel pu) = Ok (p, dst)"
      and pu': "pu' = pu\<lparr>pu_RxChannel := dst, pu_carriers := (pu_carriers pu)[i := ?c\<lparr>pc_rx := p\<rparr>]\<rparr>"
      using d by (auto simp: puni_rx_put_def Let_def split: if_splits)
    show ?thesis
      by (rule update_keeps [OF assms i(1), of "?c\<lparr>pc_rx := p\<rparr>"])
         (use pump_put_order [OF i(2)] w [OF i(1)] in
           \<open>simp_all add: pu' carrier_ctxs_def carrier_ctl_def carrier_waits_def carrier_fields_def\<close>)
  qed
qed

lemma channel_moves [simp]:
  "ctl_content (pu\<lparr>pu_TxChannel := chan_send (pu_TxChannel pu) t\<rparr>) = add_mset (tr_Payload t) (ctl_content pu)"
  "ctl_content (pu\<lparr>pu_TxDataChannel := ch\<rparr>) = ctl_content pu"
  "ctl_content (pu\<lparr>pu_RxChannel := ch\<rparr>) = ctl_content pu"
  "waits_inv (pu\<lparr>pu_TxChannel := ch\<rparr>) = waits_inv pu"
  "waits_inv (pu\<lparr>pu_TxDataChannel := ch\<rparr>) = waits_inv pu"
  "waits_inv (pu\<lparr>pu_RxChannel := ch\<rparr>) = waits_inv pu"
  "keeps_ctxs pu (pu\<lparr>pu_TxChannel := ch\<rparr>)" "keeps_ctxs pu (pu\<lparr>pu_TxDataChannel := ch\<rparr>)"
  "keeps_ctxs pu (pu\<lparr>pu_RxChannel := ch\<rparr>)"
  by (simp_all add: ctl_content_def waits_inv_def keeps_ctxs_def carrier_fields_def)

lemma exec_keeps:
  assumes "puni_exec S mk parent m pu = Ok pu'" and "waits_inv pu" and "m \<noteq> Begin" and "\<And>i lib. m \<noteq> Finish i lib"
  shows "keeps_ctxs pu pu' \<and> ctl_content pu' = ctl_content pu + mset (worker_sent m) \<and> waits_inv pu'"
proof -
  have "puni_keeps pu pu' \<and> worker_sent m = []" if "\<And>t. m \<noteq> WorkerSend t" "\<And>t. m \<noteq> WorkerSendData t" "m \<noteq> WorkerRecv"
    using assms that by (cases m) (auto dest: on_carrier_move tx_take_content data_moves_content(1) [rotated] data_moves_content(2) [rotated])
  then show ?thesis
    using assms by (cases m) (auto simp: puni_keeps_def)
qed

section \<open>Carriers in every run\<close>

text \<open>
  What both constructors of a relay promise. Cancel functions of the contexts given to the connection
  have numbers below \<open>base\<close>.
\<close>

locale packet_carriers =
  fixes S :: struc_lib and mk :: "handshake_libs \<Rightarrow> relay_maker" and parent :: go_ctx
  assumes made: "mk lib tx txData rx pw ctx = Ok r \<Longrightarrow>
    ps_ctx r = ctx \<and> ps_TxChannel r = tx \<and> ps_txstate r = TxIdle \<and> ps_ctlout r = [] \<and> ps_ctllost r = []"
begin

text \<open>
  The carriers of a connection have the contexts \<open>base\<close>, \<open>base + 1\<close>, and so on; all but the last are
  cancelled; a relay has the context of its carrier.
\<close>

definition carriers_inv :: "nat \<Rightarrow> PacketUni \<Rightarrow> bool" where
  "carriers_inv base pu \<longleftrightarrow>
     (let cs = pu_carriers pu; n = length cs
      in pu_next pu = base + n \<and>
         pu_carrierCancel pu = (if n = 0 then None else Some (base + (n - 1))) \<and>
         pu_cancelled pu = {base..<base + (n - 1)} \<and>
         (n \<noteq> 0 \<longrightarrow> pu_carrierCtx pu = WithCancel parent (base + (n - 1))) \<and>
         (\<forall>i<n. pc_ctx (cs ! i) = WithCancel parent (base + i) \<and>
            (\<forall>r. pc_relay (cs ! i) = Some r \<longrightarrow> ps_ctx r = pc_ctx (cs ! i))))"

lemma carriers_inv_New: "carriers_inv base (NewPacketUni tx txData rx pw ctx base)"
  by (simp add: carriers_inv_def NewPacketUni_def)

lemma keeps_nth:
  assumes "keeps_ctxs pu pu'"
  shows "length (pu_carriers pu') = length (pu_carriers pu)"
    "i < length (pu_carriers pu) \<Longrightarrow> carrier_ctxs (pu_carriers pu' ! i) = carrier_ctxs (pu_carriers pu ! i)"
proof -
  have m: "map carrier_ctxs (pu_carriers pu') = map carrier_ctxs (pu_carriers pu)"
    using assms by (simp add: keeps_ctxs_def)
  show l: "length (pu_carriers pu') = length (pu_carriers pu)" using map_eq_imp_length_eq [OF m] .
  show "i < length (pu_carriers pu) \<Longrightarrow> carrier_ctxs (pu_carriers pu' ! i) = carrier_ctxs (pu_carriers pu ! i)"
    using arg_cong [OF m, of "\<lambda>xs. xs ! i"] l by simp
qed

lemma carriers_inv_keeps:
  assumes "carriers_inv base pu" and "keeps_ctxs pu pu'"
  shows "carriers_inv base pu'"
proof -
  have "pc_ctx (pu_carriers pu' ! i) = WithCancel parent (base + i) \<and>
      (\<forall>r. pc_relay (pu_carriers pu' ! i) = Some r \<longrightarrow> ps_ctx r = pc_ctx (pu_carriers pu' ! i))"
    if i: "i < length (pu_carriers pu)" for i
  proof -
    have e: "pc_ctx (pu_carriers pu' ! i) = pc_ctx (pu_carriers pu ! i)"
      "map_option ps_ctx (pc_relay (pu_carriers pu' ! i)) = map_option ps_ctx (pc_relay (pu_carriers pu ! i))"
      using keeps_nth(2) [OF assms(2) i] by (simp_all add: carrier_ctxs_def)
    have o: "pc_ctx (pu_carriers pu ! i) = WithCancel parent (base + i)"
      "\<And>r. pc_relay (pu_carriers pu ! i) = Some r \<Longrightarrow> ps_ctx r = pc_ctx (pu_carriers pu ! i)"
      using assms(1) i by (simp_all add: carriers_inv_def Let_def)
    have "ps_ctx r = pc_ctx (pu_carriers pu' ! i)" if "pc_relay (pu_carriers pu' ! i) = Some r" for r
    proof -
      have "map_option ps_ctx (pc_relay (pu_carriers pu ! i)) = Some (ps_ctx r)" using e(2) that by simp
      then obtain r0 where "pc_relay (pu_carriers pu ! i) = Some r0" "ps_ctx r0 = ps_ctx r" by blast
      then show ?thesis using o(2) e(1) by metis
    qed
    moreover have "pc_ctx (pu_carriers pu' ! i) = WithCancel parent (base + i)" using e(1) o(1) by simp
    ultimately show ?thesis by blast
  qed
  moreover have "pu_carriers pu' = [] \<longleftrightarrow> pu_carriers pu = []" using keeps_nth(1) [OF assms(2)] by (metis length_0_conv)
  ultimately show ?thesis
    using assms keeps_nth(1) [OF assms(2)] by (simp add: carriers_inv_def keeps_ctxs_def carrier_fields_def Let_def)
qed

lemma carriers_inv_Begin: "carriers_inv base pu \<Longrightarrow> carriers_inv base (OnCarrier_begin parent pu)"
  by (auto simp: carriers_inv_def OnCarrier_begin_def new_carrier_def Let_def nth_append less_Suc_eq split: if_splits)

lemma finish_cases:
  assumes "OnCarrier_finish (mk lib) i pu = Ok pu'"
  obtains r where "i < length (pu_carriers pu)" "pc_relay (pu_carriers pu ! i) = None"
    "ps_ctx r = pc_ctx (pu_carriers pu ! i)" "ps_TxChannel r = make_chan 8" "ps_txstate r = TxIdle"
    "ps_ctlout r = []" "ps_ctllost r = []"
    "pu' = pu\<lparr>pu_carriers := (pu_carriers pu)[i := (pu_carriers pu ! i)\<lparr>pc_relay := Some r,
        pc_tx := start_pump (pu_carrierCtx pu), pc_txdata := start_pump (pu_carrierCtx pu),
        pc_rx := start_pump (pu_carrierCtx pu)\<rparr>], pu_relay := Some i\<rparr>"
proof -
  have i: "i < length (pu_carriers pu)" "pc_relay (pu_carriers pu ! i) = None"
    using assms by (simp_all add: OnCarrier_finish_def split: if_splits)
  then obtain r where r: "mk lib (make_chan 8) (make_chan 8) (make_chan 8) (pu_Password pu) (pc_ctx (pu_carriers pu ! i)) = Ok r"
    "pu' = pu\<lparr>pu_carriers := (pu_carriers pu)[i := (pu_carriers pu ! i)\<lparr>pc_relay := Some r,
        pc_tx := start_pump (pu_carrierCtx pu), pc_txdata := start_pump (pu_carrierCtx pu),
        pc_rx := start_pump (pu_carrierCtx pu)\<rparr>], pu_relay := Some i\<rparr>"
    using assms by (auto simp: OnCarrier_finish_def Let_def)
  show ?thesis using made [OF r(1)] i r(2) by (intro that [of r]) simp_all
qed

lemma carriers_inv_Finish:
  assumes "carriers_inv base pu" and "OnCarrier_finish (mk lib) i pu = Ok pu'"
  shows "carriers_inv base pu'"
  by (rule finish_cases [OF assms(2)]) (use assms(1) in \<open>auto simp: carriers_inv_def Let_def nth_list_update\<close>)

text \<open>Whether the context of a carrier has ended.\<close>

lemma carrier_ended:
  assumes "carriers_inv base pu" and "i < length (pu_carriers pu)" and "set (cx_cancels parent) \<subseteq> {..<base}"
  shows "ctx_Err (pu_cancelled pu) (pc_ctx (pu_carriers pu ! i)) \<longleftrightarrow> Suc i < length (pu_carriers pu)"
proof -
  have "pu_cancelled pu = {base..<base + (length (pu_carriers pu) - 1)}" "pc_ctx (pu_carriers pu ! i) = WithCancel parent (base + i)"
    using assms(1,2) by (simp_all add: carriers_inv_def Let_def)
  then show ?thesis using assms(2,3) by (auto simp: ctx_Err_def)
qed

lemma finish_content:
  assumes "OnCarrier_finish (mk lib) i pu = Ok pu'" and "waits_inv pu"
  shows "ctl_content pu' = ctl_content pu \<and> waits_inv pu'"
proof (rule finish_cases [OF assms(1)])
  fix r
  let ?c = "pu_carriers pu ! i" and ?p = "start_pump (pu_carrierCtx pu)"
  assume i: "i < length (pu_carriers pu)" "pc_relay ?c = None" and r: "ps_TxChannel r = make_chan 8"
    "ps_txstate r = TxIdle" "ps_ctlout r = []" "ps_ctllost r = []"
    and pu': "pu' = pu\<lparr>pu_carriers := (pu_carriers pu)[i := ?c\<lparr>pc_relay := Some r, pc_tx := ?p, pc_txdata := ?p,
      pc_rx := ?p\<rparr>], pu_relay := Some i\<rparr>"
  have "carrier_waits ?c" using assms(2) i(1) by (simp add: waits_inv_def list_all_length)
  then have "carrier_ctl (?c\<lparr>pc_relay := Some r, pc_tx := ?p, pc_txdata := ?p, pc_rx := ?p\<rparr>) = carrier_ctl ?c"
    using i(2) r by (simp add: carrier_waits_def carrier_ctl_def relay_ctl_def start_pump_def)
  then show ?thesis
    using assms(2) i(1)
    by (auto simp: pu' ctl_content_def waits_inv_def sum_list_map_update_same list_all_length nth_list_update carrier_waits_def)
qed

lemma begin_content:
  "waits_inv pu \<Longrightarrow> ctl_content (OnCarrier_begin parent pu) = ctl_content pu \<and> waits_inv (OnCarrier_begin parent pu)"
  by (auto simp: OnCarrier_begin_def new_carrier_def start_pump_def ctl_content_def waits_inv_def carrier_ctl_def
      carrier_waits_def Let_def)

lemma exec_inv:
  assumes "puni_exec S mk parent m pu = Ok pu'" and "waits_inv pu" and "carriers_inv base pu"
  shows "ctl_content pu' = ctl_content pu + mset (worker_sent m) \<and> waits_inv pu' \<and> carriers_inv base pu'"
proof (cases "m = Begin \<or> (\<exists>i lib. m = Finish i lib)")
  case True
  then show ?thesis
    using assms begin_content finish_content carriers_inv_Begin carriers_inv_Finish by auto
next
  case False
  then show ?thesis using assms carriers_inv_keeps exec_keeps by blast
qed

lemma run_inv:
  assumes "puni_run S mk parent pu ms pu'" and "waits_inv pu" and "carriers_inv base pu"
  shows "ctl_content pu' = ctl_content pu + mset (concat (map worker_sent ms)) \<and> waits_inv pu' \<and> carriers_inv base pu'"
  using assms
proof (induction rule: puni_run.induct)
  case (run_step pu ms pu' m pu'')
  then show ?case using exec_inv [OF run_step.hyps(2), of base] by (simp add: ac_simps)
qed simp

lemma finish_length: "OnCarrier_finish (mk lib) i pu = Ok pu' \<Longrightarrow> length (pu_carriers pu') = length (pu_carriers pu)"
  by (rule finish_cases) (auto)

lemma exec_length:
  assumes "puni_exec S mk parent m pu = Ok pu'" and "waits_inv pu"
  shows "length (pu_carriers pu') = length (pu_carriers pu) + (if m = Begin then 1 else 0)"
proof (cases "m = Begin \<or> (\<exists>i lib. m = Finish i lib)")
  case True
  then show ?thesis using assms finish_length by (auto simp: OnCarrier_begin_def Let_def)
next
  case False
  then have m: "m \<noteq> Begin" "\<And>i lib. m \<noteq> Finish i lib" by auto
  then have "keeps_ctxs pu pu'" using exec_keeps [OF assms m] by blast
  then show ?thesis using keeps_nth(1) m(1) by simp
qed

lemma run_length:
  assumes "puni_run S mk parent pu ms pu'" and "waits_inv pu" and "carriers_inv base pu"
  shows "length (pu_carriers pu') = length (pu_carriers pu) + count_list ms Begin"
  using assms
proof (induction rule: puni_run.induct)
  case (run_step pu ms pu' m pu'')
  then show ?case
    using exec_length [OF run_step.hyps(2)] run_inv [OF run_step.hyps(1), of base] by (simp add: count_list_append)
qed simp

lemma New_inv: "waits_inv (NewPacketUni tx txData rx pw ctx nxt)"
    "ctl_content (NewPacketUni tx txData rx pw ctx nxt) = mset (map tr_Payload (ch_buf tx))"
  by (simp_all add: waits_inv_def NewPacketUni_def ctl_content_def)

end

interpretation puc: packet_carriers S "client_relay conn" parent for S conn parent
  by unfold_locales
     (auto simp: client_relay_def NewPacketRelayClient_def tlsopen_def getConn_def fresh_relay_def)

interpretation pus: packet_carriers S "server_relay conn" parent for S conn parent
  by unfold_locales
     (auto simp: server_relay_def NewPacketRelayServer_def tlsopen_def getConn_def fresh_relay_def)

end
