(* ===== verification/PacketUniProperties.thy ===== *)
theory PacketUniProperties
  imports PacketUni
begin

text \<open>
  Properties of the packet connection: at most one carrier is live, control packets are conserved,
  what a late handshake does, and that client and server begin carriers together.
\<close>

section \<open>Properties\<close>

definition puni_side :: "(handshake_libs \<Rightarrow> relay_maker) \<Rightarrow> bool" where
  "puni_side mk \<longleftrightarrow> (\<exists>conn. mk = client_relay conn \<or> mk = server_relay conn)"

lemma puni_side_carriers: "puni_side mk \<Longrightarrow> packet_carriers mk"
  unfolding puni_side_def by (elim exE disjE) (simp_all add: puc.packet_carriers_axioms pus.packet_carriers_axioms)


definition ex_libs :: handshake_libs where
  "ex_libs = \<lparr>hl_dtls = True, hl_sctp = True, hl_OpenStream = (\<lambda>_. True), hl_smux = True\<rparr>"

definition ex_puni :: PacketUni where
  "ex_puni = NewPacketUni (make_chan 8) (make_chan 8) (make_chan 8) [1] Background 0"

lemmas puni_evals = ex_puni_def NewPacketUni_def OnCarrier_begin_def OnCarrier_finish_def new_carrier_def start_pump_def
  client_relay_def NewPacketRelayClient_def tlsopen_def getConn_def fresh_relay_def ctx_opt_def ex_libs_def Let_def

lemma ex_two_carriers:
  "\<exists>pu. puni_execs S (client_relay ex_dgram) Background [Begin, Finish 0 ex_libs, Begin] ex_puni = Ok pu \<and>
     length (pu_carriers pu) = 2 \<and> pu_cancelled pu = {0} \<and> pc_ctx (pu_carriers pu ! 0) = WithCancel Background 0"
  by (simp add: puni_evals)


definition relay_written :: "puni_carrier \<Rightarrow> bytes list" where
  "relay_written c = (case pc_relay c of None \<Rightarrow> [] | Some r \<Rightarrow> ps_ctlout r)"



text \<open>
  C39. A handshake that ends late takes over. When a new carrier was begun while carrier \<open>i\<close> was still in
  its handshake, and that handshake then ends, carrier \<open>i\<close> becomes the relay in use although its
  context is over, and its goroutines start with the context of the newer carrier, which lives: they take the packets
  of the workers, and whatever happens later nothing of carrier \<open>i\<close> reaches the transport connection.
\<close>

theorem puni_late_handshake_steals:
  assumes "puni_side mk"
    and "puni_run S mk parent (NewPacketUni tx txData rx pw ctx base) ms pu"
    and "set (cx_cancels parent) \<subseteq> {..<base}" and "Suc i < length (pu_carriers pu)"
    and "OnCarrier_finish (mk lib) i pu = Ok pu1" and "ch_buf (pu_TxChannel pu) = t # rest"
  shows "pu_relay pu1 = Some i \<and>
    \<not> ctx_Err (pu_cancelled pu1) (pm_ctx (pc_tx (pu_carriers pu1 ! i))) \<and>
    (\<exists>pu2. puni_exec S mk parent (TxTake i) pu1 = Ok pu2 \<and> ch_buf (pu_TxChannel pu2) = rest \<and>
       pm_hand (pc_tx (pu_carriers pu2 ! i)) = [t]) \<and>
    (\<forall>ms' pu3 c b. puni_run S mk parent pu1 ms' pu3 \<longrightarrow> aw_ctx c = pc_ctx (pu_carriers pu3 ! i) \<longrightarrow>
       ContextAwareConn_Write (pu_cancelled pu3) b c = (Inl ContextError, c))"
proof -
  note pc = puni_side_carriers [OF assms(1)]
  note New = packet_carriers.New_inv(1) [OF pc] packet_carriers.carriers_inv_New [OF pc]
  note inv = packet_carriers.run_inv [OF pc assms(2) New]
  have fin: "puni_exec S mk parent (Finish i lib) pu = Ok pu1" using assms(5) by simp
  note inv1 = packet_carriers.exec_inv [OF pc fin, of base]
  have len1: "length (pu_carriers pu1) = length (pu_carriers pu)"
    by (rule packet_carriers.finish_length [OF pc assms(5)])
  obtain r where r: "pu1 = pu\<lparr>pu_carriers := (pu_carriers pu)[i := (pu_carriers pu ! i)\<lparr>pc_relay := Some r,
        pc_tx := start_pump (pu_carrierCtx pu), pc_txdata := start_pump (pu_carrierCtx pu),
        pc_rx := start_pump (pu_carrierCtx pu)\<rparr>], pu_relay := Some i\<rparr>"
    by (rule packet_carriers.finish_cases [OF pc assms(5)]) blast
  have i: "i < length (pu_carriers pu)" using assms(4) by simp
  have cctx: "pu_carrierCtx pu = WithCancel parent (base + (length (pu_carriers pu) - 1))"
    "pu_cancelled pu = {base..<base + (length (pu_carriers pu) - 1)}"
    using inv assms(4) by (auto simp: packet_carriers.carriers_inv_def [OF pc] Let_def)
  have alive: "\<not> ctx_Err (pu_cancelled pu1) (pm_ctx (pc_tx (pu_carriers pu1 ! i)))"
    using i assms(3) by (auto simp: r cctx start_pump_def ctx_Err_def)
  have take: "\<exists>pu2. puni_exec S mk parent (TxTake i) pu1 = Ok pu2 \<and> ch_buf (pu_TxChannel pu2) = rest \<and>
      pm_hand (pc_tx (pu_carriers pu2 ! i)) = [t]"
    using i assms(6) by (simp add: r puni_tx_take_def pump_take_def chan_recv_def start_pump_def)
  have "ContextAwareConn_Write (pu_cancelled pu3) b c = (Inl ContextError, c)"
    if run: "puni_run S mk parent pu1 ms' pu3" and c: "aw_ctx c = pc_ctx (pu_carriers pu3 ! i)" for ms' pu3 c b
  proof -
    have w1: "waits_inv pu1" and c1: "packet_carriers.carriers_inv parent base pu1" using inv inv1 by blast+
    have "Suc i < length (pu_carriers pu3)"
      using packet_carriers.run_length [OF pc run w1 c1] len1 assms(4) by simp
    then have "ctx_Err (pu_cancelled pu3) (aw_ctx c)"
      unfolding c using packet_carriers.carrier_ended [OF pc, of parent base pu3 i] packet_carriers.run_inv [OF pc run w1 c1] assms(3)
      by simp
    then show ?thesis by (simp add: ContextAwareConn_Write_def)
  qed
  then show ?thesis using alive take by (simp add: r)
qed

theorem puni_late_handshake_steals_witness:
  "\<exists>pu pu1. puni_run struc_be (client_relay ex_dgram) Background ex_puni
       [Begin, Begin, Finish 1 ex_libs, WorkerSend (mk_traffic 0 [7])] pu \<and>
     OnCarrier_finish (client_relay ex_dgram ex_libs) 0 pu = Ok pu1 \<and> pu_relay pu = Some 1 \<and> pu_relay pu1 = Some 0 \<and>
     (\<exists>pu2. puni_exec struc_be (client_relay ex_dgram) Background (TxTake 0) pu1 = Ok pu2 \<and> ch_buf (pu_TxChannel pu2) = [])"
proof -
  let ?ms = "[Begin, Begin, Finish 1 ex_libs, WorkerSend (mk_traffic 0 [7])]"
  have "case puni_execs struc_be (client_relay ex_dgram) Background ?ms ex_puni of
      Ok pu \<Rightarrow> (case OnCarrier_finish (client_relay ex_dgram ex_libs) 0 pu of
        Ok pu1 \<Rightarrow> length (pu_carriers pu) = 2 \<and> ch_buf (pu_TxChannel pu) = [mk_traffic 0 [7]] \<and> pu_relay pu = Some 1
      | _ \<Rightarrow> False) | _ \<Rightarrow> False"
    by code_simp
  then have "\<exists>pu. puni_execs struc_be (client_relay ex_dgram) Background ?ms ex_puni = Ok pu \<and>
      (\<exists>pu1. OnCarrier_finish (client_relay ex_dgram ex_libs) 0 pu = Ok pu1 \<and> length (pu_carriers pu) = 2 \<and>
        ch_buf (pu_TxChannel pu) = [mk_traffic 0 [7]] \<and> pu_relay pu = Some 1)"
    by (simp only: case_outcome_Ok)
  then obtain pu pu1 where pu: "puni_execs struc_be (client_relay ex_dgram) Background ?ms ex_puni = Ok pu"
    and fin: "OnCarrier_finish (client_relay ex_dgram ex_libs) 0 pu = Ok pu1" and len: "length (pu_carriers pu) = 2"
    and buf: "ch_buf (pu_TxChannel pu) = [mk_traffic 0 [7]]" and rel: "pu_relay pu = Some 1"
    by (elim exE conjE)
  note run = puni_run_execs [OF pu]
  have side: "puni_side (client_relay ex_dgram)" by (auto simp: puni_side_def)
  have b: "set (cx_cancels Background) \<subseteq> {..<0}" and i: "Suc 0 < length (pu_carriers pu)" using len by simp_all
  note * = puni_late_handshake_steals [OF side run [unfolded ex_puni_def] b i fin buf]
  show ?thesis
    using run fin rel * by - (rule exI [of _ pu], rule exI [of _ pu1], blast)
qed

lemma onConnection_rehandshakes:
  assumes "onConnection C t0 tnow conn att hub = Ok (Some ctx, hub')" and "hub_Conns hub (ua_ID att) = Some uct"
  shows "hub_rehandshakes hub' = hub_rehandshakes hub @
    (if sint (uct_LastConnIter uct) < sint (fst (iter_of (ua_Iter att))) \<and> snd (iter_of (ua_Iter att)) then [ua_ID att] else [])"
  using assms
  by (auto simp: onConnection_def LoadOrStore_def Let_def split: option.splits prod.splits if_splits)

lemma iter_of_request:
  assumes "2 \<le> n" and "n < 2 ^ 31"
  shows "snd (iter_of (of_int (if h then - n else n))) \<longleftrightarrow> h"
proof -
  have "sint (of_int m :: u32) = m" if "- (2 ^ 31) \<le> m" "m < 2 ^ 31" for m
    using that by (simp add: signed_of_int signed_take_bit_int_eq_self)
  from this [of n] this [of "- n"] show ?thesis using assms by (auto simp: iter_of_def)
qed

lemma auto_event:
  assumes "auto_listen connctx = Ok a" and "ReHandshake2 ctx full = Ok ev" and "cx_values ctx = cx_values connctx"
  shows "au_opt (auto_on_event ev a) = \<lparr>ch_cap = 8, ch_buf = [\<lparr>rh_Fire = True, rh_FullReHandshake = full\<rparr>]\<rparr>"
  using assms
  by (auto simp: auto_listen_def ReHandshake2_def ConnIDToString_def ConnectionMessageBusFromContext_def ctx_need_def
      auto_on_event_def bus_handle_def chan_try_send_def chan_send_def make_chan_def split: option.splits)

lemma rehandshake_event:
  assumes "auto_listen connctx = Ok a" and "cx_values ctx = cx_values connctx"
  shows "\<exists>ev. ReHandshake2 ctx full = Ok ev"
  using assms
  by (auto simp: auto_listen_def ReHandshake2_def ConnIDToString_def ConnectionMessageBusFromContext_def ctx_need_def split: option.splits)


definition ex_conn_ctx :: go_ctx where
  "ex_conn_ctx = WithValue (WithValue Background ExtraOptionsConnID (OV_bytes [65])) ExtraOptionsMessageBusByConn (OV_Bus 0)"

lemma ex_auto:
  "\<exists>a pu1. client_onAutoCarrier_start ex_conn_ctx ex_puni = Ok (a, pu1) \<and> length (pu_carriers pu1) = 1"
  "\<exists>a pu1. server_onAutoCarrier_start ex_conn_ctx ex_puni = Ok (a, pu1) \<and> length (pu_carriers pu1) = 1"
  by (simp_all add: client_onAutoCarrier_start_def server_onAutoCarrier_start_def auto_listen_def ConnIDToString_def
      ConnectionMessageBusFromContext_def ctx_need_def ex_conn_ctx_def OnCarrier_begin_def ex_puni_def NewPacketUni_def Let_def)

lemma ex_hub_full:
  "\<exists>hub'. onConnection list_filter 6 6 1 (\<lparr>ua_ID = [7], ua_Rand = [], ua_Iter = - 2\<rparr>\<lparr>ua_Rand := [3]\<rparr>) ex_hub = Ok (Some 1, hub')"
  by (simp add: onConnection_def ex_hub_def LoadOrStore_def iter_of_def window_defs)


end
