(* ===== verification/Assembled.thy ===== *)
theory Assembled
  imports PacketUniProperties HttpClient
begin

text \<open>
  How the program is put together: the command lines (\<^verbatim>\<open>ass/udptlssctp/cli\<close>), the clients (\<open>AssClient.go\<close>,
  \<open>AssClientDirect.go\<close>), the server (\<open>assServer.go\<close>), and the UDP dialer (\<^verbatim>\<open>transport/udp/udpClient\<close>). An address
  chooses the transports by its prefixes, and the options travel in a context. Each dialer and
  each listener is described by the layers it puts over the network, from the bottom to the top.
\<close>

section \<open>Contexts from the command line\<close>

record client_flags =
  cf_UseSystemHTTPProxy :: bool
  cf_UseSystemSocksProxy :: bool
  cf_UseUDPPolyMasking :: bool
  cf_HTTPDialAddr :: bytes
  cf_NetworkBuffering :: int
  cf_UDPHandShakeMaskingSize :: int

definition with_if :: "bool \<Rightarrow> option_key \<Rightarrow> option_value \<Rightarrow> go_ctx \<Rightarrow> go_ctx" where
  "with_if b k v ctx = (if b then WithValue ctx k v else ctx)"

definition client_main_ctx :: "client_flags \<Rightarrow> go_ctx" where
  "client_main_ctx f =
     (let ctx = Background;
          ctx = with_if (cf_UseSystemHTTPProxy f) ExtraOptionsHTTPUseSystemHTTPProxy (OV_bool True) ctx;
          ctx = with_if (cf_UseSystemSocksProxy f) ExtraOptionsHTTPUseSystemSocksProxy (OV_bool True) ctx;
          ctx = with_if (cf_UseUDPPolyMasking f) ExtraOptionsUDPShouldMask (OV_bool True) ctx;
          ctx = with_if (cf_HTTPDialAddr f \<noteq> []) ExtraOptionsHTTPDialAddr (OV_HTTPDialAddr (cf_HTTPDialAddr f)) ctx
      in with_if (cf_NetworkBuffering f \<noteq> 0) ExtraOptionsHTTPNetworkBufferSize (OV_HTTPNetworkBufferSize (cf_NetworkBuffering f)) ctx)"

text \<open>The direct client has one flag more.\<close>

definition clientd_main_ctx :: "client_flags \<Rightarrow> go_ctx" where
  "clientd_main_ctx f =
     with_if (cf_UDPHandShakeMaskingSize f \<noteq> 0) ExtraOptionsUsePacketArmor (OV_UsePacketArmor (cf_UDPHandShakeMaskingSize f) True)
       (client_main_ctx f)"

definition server_main_ctx :: "int \<Rightarrow> int \<Rightarrow> bool \<Rightarrow> go_ctx" where
  "server_main_ctx networkBuffering maskingSize polyMasking =
     (let ctx = Background;
          ctx = with_if (networkBuffering \<noteq> 0) ExtraOptionsHTTPNetworkBufferSize (OV_HTTPNetworkBufferSize networkBuffering) ctx;
          ctx = with_if (maskingSize \<noteq> 0) ExtraOptionsUsePacketArmor (OV_UsePacketArmor maskingSize True) ctx
      in with_if polyMasking ExtraOptionsUDPShouldMask (OV_bool True) ctx)"

fun as_UsePacketArmor :: "option_value \<Rightarrow> (int \<times> bool) option" where
  "as_UsePacketArmor (OV_UsePacketArmor n u) = Some (n, u)" | "as_UsePacketArmor _ = None"

fun as_UDPInitialData :: "option_value \<Rightarrow> bytes option" where
  "as_UDPInitialData (OV_UDPInitialData d) = Some d" | "as_UDPInitialData _ = None"

section \<open>Dialers\<close>

datatype transport_dialer =
    UdpDialer bytes bytes go_ctx
  | UdpUniDialer bytes go_ctx transport_dialer
  | HttpDialer bytes int int bytes go_ctx
  | UniDialer transport_dialer go_ctx

definition NewUdpClient :: "bytes \<Rightarrow> go_ctx \<Rightarrow> (unit, transport_dialer) outcome" where
  "NewUdpClient addr ctx =
     bind_outcome (ctx_opt as_string [] ExtraOptionsUDPMask ctx) (\<lambda>masking. Ok (UdpDialer addr masking ctx))"

datatype layer =
    LayerUDP | LayerMask bytes | LayerUdpUni bytes bool | LayerHTTP bytes | LayerUni | LayerPacketUni
  | LayerFEC | LayerDTLS bytes

text \<open>
  What the world answers in a \<open>Connect\<close>: whether the network let it through, the local address, the
  numbers of the new message bus and cancel function, the random identity, and the attributes the
  unified client puts on this attempt.
\<close>

record dial_env =
  de_ok :: bool
  de_local :: bytes
  de_bus :: nat
  de_closer :: nat
  de_randid :: bytes
  de_att :: ExtraOptionsUniConnAttribValue

text \<open>
  \<open>Connect\<close>: the layers and the context of the connection, \<open>None\<close> for an error (the connection and the
  context are nil then). The UDP dialer derives the context from the one it was made with, the HTTP
  dialer from the one it is called with.
\<close>

fun dialer_Connect :: "dial_env \<Rightarrow> transport_dialer \<Rightarrow> go_ctx \<Rightarrow> (unit, (layer list \<times> go_ctx) option) outcome" where
  "dialer_Connect e (UdpDialer dest masking uctx) ctx =
     (if \<not> de_ok e then Ok None
      else bind_outcome (ctx_opt as_bool False ExtraOptionsUDPShouldMask ctx) (\<lambda>shouldMask.
        Ok (Some (LayerUDP # (if shouldMask then [LayerMask masking] else []),
                  WithValue (WithValue uctx ExtraOptionsConnID (OV_bytes (de_local e)))
                    ExtraOptionsMessageBusByConn (OV_Bus (de_bus e))))))"
| "dialer_Connect e (UdpUniDialer password _ lower) ctx =
     bind_outcome (dialer_Connect e lower ctx) (\<lambda>res. case res of
        None \<Rightarrow> Ok None
      | Some (ls, connctx) \<Rightarrow>
          bind_outcome (ctx_opt (map_option Some \<circ> as_UniConnAttrib) None ExtraOptionsUniConnAttrib ctx) (\<lambda>_.
          bind_outcome (ctx_opt as_UsePacketArmor (0, False) ExtraOptionsUsePacketArmor ctx) (\<lambda>(paddingTo, use).
            Ok (Some (ls @ [LayerUdpUni password (use \<and> paddingTo \<noteq> 0)], connctx)))))"
| "dialer_Connect e (HttpDialer endpoint tx rx password _) ctx =
     bind_outcome (NewProviderClient endpoint tx rx password ctx (de_randid e) (de_bus e) (de_closer e)) (\<lambda>(pc, _).
       Ok (Some ([LayerHTTP password], hc_connctx pc)))"
| "dialer_Connect e (UniDialer lower _) ctx =
     bind_outcome (dialer_Connect e lower (WithValue ctx ExtraOptionsUniConnAttrib (OV_UniConnAttrib (de_att e)))) (\<lambda>res.
       Ok (map_option (\<lambda>(ls, connctx). (ls @ [LayerUni], connctx)) res))"

section \<open>The clients\<close>

definition HasPrefix :: "bytes \<Rightarrow> string \<Rightarrow> bool" where
  "HasPrefix s p \<longleftrightarrow> take (length p) s = str_bytes p"

text \<open>
  \<open>NewUdptlsSctpClient\<close> and \<open>NewUdptlsSctpClientDirect\<close> have the same body but for the name of the TUN
  device. \<open>udpdialer\<close>, the context and whether the connection is unified.
\<close>

record UdptlsSctpClient =
  ac_Address :: bytes
  ac_password :: bytes
  ac_ctx :: go_ctx
  ac_udpdialer :: transport_dialer
  ac_uni :: bool
  ac_httpac :: "ProviderClient option"
  ac_puni :: "(auto_carrier \<times> PacketUni) option"
  ac_udprelay :: "PacketSCTPRelay option"
  ac_pumps :: "pump list"
  ac_connCtx :: "go_ctx option"

definition NewUdptlsSctpClient :: "bytes \<Rightarrow> bytes \<Rightarrow> go_ctx \<Rightarrow> nat \<Rightarrow> (unit, UdptlsSctpClient) outcome" where
  "NewUdptlsSctpClient remoteAddress password ctx bus =
     (let ctx0 = WithValue ctx ExtraOptionsMessageBus (OV_Bus bus);
          useUniConn = HasPrefix remoteAddress ''uni+'';
          addr1 = (if useUniConn then drop 4 remoteAddress else remoteAddress);
          useWs = HasPrefix addr1 ''ws+'';
          addr2 = (if useWs then drop 3 addr1 else addr1)
      in bind_outcome
           (if HasPrefix addr2 ''http'' then
              (let ctx1 = with_if useWs ExtraOptionsUseWebSocketInsteadOfHTTP (OV_bool useWs) ctx0
               in Ok (ctx1, HttpDialer addr2 2 2 password ctx1))
            else
              (let fec = HasPrefix addr2 ''fec+'';
                   addr3 = (if fec then drop 4 addr2 else addr2);
                   ctx1 = with_if fec ExtraOptionsUDPFECEnabled (OV_bool True) ctx0;
                   ctx2 = WithValue ctx1 ExtraOptionsUDPMask (OV_string password)
               in bind_outcome (NewUdpClient addr3 ctx2) (\<lambda>d.
                    Ok (ctx2, if useUniConn then UdpUniDialer password ctx2 d else d))))
           (\<lambda>(ctx2, d).
             Ok \<lparr>ac_Address = remoteAddress, ac_password = password, ac_ctx = ctx2,
                 ac_udpdialer = (if useUniConn then UniDialer d ctx2 else d), ac_uni = useUniConn,
                 ac_httpac = None, ac_puni = None, ac_udprelay = None, ac_pumps = [], ac_connCtx = None\<rparr>))"

text \<open>
  \<open>Up\<close>: an error of \<open>Connect\<close> is logged, and then the three pumps evaluate \<open>Done\<close> of the nil context. With
  a connection the pumps start and the packet connection, or for a plain connection the relay, which
  waits for the handshake \<open>lib\<close>.
\<close>

definition client_Up ::
  "dial_env \<Rightarrow> handshake_libs \<Rightarrow> dgram_conn \<Rightarrow> nat \<Rightarrow> UdptlsSctpClient \<Rightarrow> (unit, UdptlsSctpClient) outcome" where
  "client_Up e lib conn nxt s =
     bind_outcome (dialer_Connect e (ac_udpdialer s) (ac_ctx s)) (\<lambda>res. case res of
        None \<Rightarrow> Panic
      | Some (_, connctx) \<Rightarrow>
          (let s1 = s\<lparr>ac_pumps := replicate 3 (start_pump connctx), ac_connCtx := Some connctx\<rparr>
           in if ac_uni s then
                bind_outcome (client_onAutoCarrier_start connctx
                    (NewPacketUni (make_chan 8) (make_chan 8) (make_chan 8) (ac_password s) connctx nxt)) (\<lambda>p.
                  Ok (s1\<lparr>ac_puni := Some p\<rparr>))
              else
                bind_outcome (NewPacketRelayClient lib conn (make_chan 8) (make_chan 8) (make_chan 8) (ac_password s) connctx) (\<lambda>r.
                  Ok (s1\<lparr>ac_udprelay := Some r\<rparr>))))"

text \<open>\<open>Reconnect\<close> of the direct client, on the signal.\<close>

definition client_Reconnect :: "UdptlsSctpClient \<Rightarrow> (unit, nat \<times> bytes \<times> ConnReHandshake) outcome" where
  "client_Reconnect s = (case ac_connCtx s of None \<Rightarrow> Panic | Some connctx \<Rightarrow> ReHandshake2 connctx True)"

definition AlternativeChannel ::
  "bytes \<Rightarrow> bytes \<Rightarrow> nat \<Rightarrow> nat \<Rightarrow> UdptlsSctpClient \<Rightarrow> (unit, UdptlsSctpClient) outcome" where
  "AlternativeChannel url randid bus closer s =
     bind_outcome (NewProviderClient url 0 0 (ac_password s) (ac_ctx s) randid bus closer) (\<lambda>(pc, _).
       Ok (s\<lparr>ac_httpac := Some pc\<rparr>))"

text \<open>The layers between the workers and the network: the relay adds DTLS and, on its context's option, packet assembly.\<close>

definition relay_layers :: "bytes \<Rightarrow> bool \<Rightarrow> go_ctx \<Rightarrow> (unit, layer list) outcome" where
  "relay_layers password uni connctx =
     bind_outcome (ctx_opt as_bool False ExtraOptionsUDPFECEnabled connctx) (\<lambda>fec.
       Ok ((if uni then [LayerPacketUni] else []) @ [LayerDTLS password] @ (if fec then [LayerFEC] else [])))"

definition client_layers :: "dial_env \<Rightarrow> UdptlsSctpClient \<Rightarrow> (unit, layer list option) outcome" where
  "client_layers e s =
     bind_outcome (dialer_Connect e (ac_udpdialer s) (ac_ctx s)) (\<lambda>res. case res of
        None \<Rightarrow> Ok None
      | Some (ls, connctx) \<Rightarrow> bind_outcome (relay_layers (ac_password s) (ac_uni s) connctx) (\<lambda>us. Ok (Some (ls @ us))))"

section \<open>The server\<close>

datatype transport_listener =
    HttpListener bytes bytes bool go_ctx
  | UdpListener bytes bytes bool go_ctx

record UdptlsSctpServer =
  ss_Address :: bytes
  ss_password :: bytes
  ss_ctx :: go_ctx
  ss_useUni :: bool
  ss_udplistener :: "transport_listener option"
  ss_ratelimit :: "int \<times> int \<times> int"

definition NewUdptlsSctpServer :: "bytes \<Rightarrow> bytes \<Rightarrow> go_ctx \<Rightarrow> nat \<Rightarrow> UdptlsSctpServer" where
  "NewUdptlsSctpServer localAddress password ctx bus =
     \<lparr>ss_Address = localAddress, ss_password = password, ss_ctx = WithValue ctx ExtraOptionsMessageBus (OV_Bus bus),
      ss_useUni = False, ss_udplistener = None, ss_ratelimit = (0, 0, 0)\<rparr>"

text \<open>
  \<open>Up\<close>: the HTTP listener reads the stream relay and the abstract listener from the context, the UDP
  listener the mask. The Boolean of a listener is that the hub of unified connections lies above it.
\<close>

definition server_Up :: "UdptlsSctpServer \<Rightarrow> (unit, UdptlsSctpServer) outcome" where
  "server_Up s =
     (let useUniConn = HasPrefix (ss_Address s) ''uni+'';
          addr1 = (if useUniConn then drop 4 (ss_Address s) else ss_Address s);
          s1 = s\<lparr>ss_Address := addr1, ss_useUni := useUniConn\<rparr>
      in if HasPrefix addr1 ''http'' then
           (let ctx1 = WithValue (ss_ctx s) ExtraOptionsHTTPServerStreamRelay (OV_HTTPServerStreamRelay 0)
            in bind_outcome (ctx_opt as_HTTPServerStreamRelay 0 ExtraOptionsHTTPServerStreamRelay ctx1) (\<lambda>_.
               bind_outcome (ctx_opt as_AbstractListener (0, False) ExtraOptionsAbstractListener ctx1) (\<lambda>_.
                 Ok (s1\<lparr>ss_ctx := ctx1,
                        ss_udplistener := Some (HttpListener (drop 4 addr1) (ss_password s) useUniConn ctx1)\<rparr>))))
         else
           (let fec = HasPrefix addr1 ''fec+'';
                addr2 = (if fec then drop 4 addr1 else addr1);
                ctx1 = with_if fec ExtraOptionsUDPFECEnabled (OV_bool True) (ss_ctx s);
                ctx2 = WithValue ctx1 ExtraOptionsUDPMask (OV_string (ss_password s))
            in bind_outcome (ctx_opt as_string [] ExtraOptionsUDPMask ctx2) (\<lambda>masking.
                 Ok (s1\<lparr>ss_Address := addr2, ss_ctx := ctx2,
                        ss_udplistener := Some (UdpListener addr2 masking useUniConn ctx2)\<rparr>))))"

definition server_RateLimitTcpServerWrite :: "int \<Rightarrow> int \<Rightarrow> int \<Rightarrow> UdptlsSctpServer \<Rightarrow> UdptlsSctpServer" where
  "server_RateLimitTcpServerWrite a b c s = s\<lparr>ss_ratelimit := (a, b, c)\<rparr>"

text \<open>
  A connection that comes in: its identity, the number of its message bus, its first datagram before
  and after unmasking, and the attributes the token in it carries. The layers and the context with
  which it reaches \<open>Process\<close>; \<open>UdpUniServer\<close> reads the first datagram and the armor option.
\<close>

record accept_env =
  ae_connid :: bytes
  ae_bus :: nat
  ae_initial :: bytes
  ae_unmasked :: bytes
  ae_att :: ExtraOptionsUniConnAttribValue

definition udp_incoming :: "accept_env \<Rightarrow> go_ctx \<Rightarrow> (unit, layer list \<times> go_ctx) outcome" where
  "udp_incoming e ctx =
     (let c1 = WithValue ctx ExtraOptionsConnID (OV_bytes (ae_connid e));
          c2 = WithValue c1 ExtraOptionsMessageBusByConn (OV_Bus (ae_bus e));
          c3 = WithValue c2 ExtraOptionsUDPInitialData (OV_UDPInitialData (ae_initial e))
      in bind_outcome (ctx_opt as_bool False ExtraOptionsUDPShouldMask ctx) (\<lambda>shouldMask.
           if shouldMask then
             bind_outcome (ctx_opt as_string [] ExtraOptionsUDPMask ctx) (\<lambda>masking.
               Ok ([LayerUDP, LayerMask masking], WithValue c3 ExtraOptionsUDPInitialData (OV_UDPInitialData (ae_unmasked e))))
           else Ok ([LayerUDP], c3)))"

definition udpuni_incoming :: "accept_env \<Rightarrow> bytes \<Rightarrow> layer list \<times> go_ctx \<Rightarrow> (unit, layer list \<times> go_ctx) outcome" where
  "udpuni_incoming e password lc =
     (case lc of (ls, ctx) \<Rightarrow>
        bind_outcome (ctx_need as_UDPInitialData ExtraOptionsUDPInitialData ctx) (\<lambda>_.
        bind_outcome (ctx_opt as_UsePacketArmor (0, False) ExtraOptionsUsePacketArmor ctx) (\<lambda>(_, use).
          Ok (ls @ [LayerUdpUni password use, LayerUni],
              WithValue ctx ExtraOptionsUniConnAttrib (OV_UniConnAttrib (ae_att e))))))"

fun listener_accept :: "accept_env \<Rightarrow> bytes \<Rightarrow> transport_listener \<Rightarrow> (unit, layer list \<times> go_ctx) outcome" where
  "listener_accept e password (UdpListener addr masking uni ctx) =
     bind_outcome (udp_incoming e ctx) (\<lambda>lc. if uni then udpuni_incoming e password lc else Ok lc)"
| "listener_accept e password (HttpListener addr pw uni ctx) =
     Ok (LayerHTTP pw # (if uni then [LayerUni] else []),
         WithValue (WithValue (WithValue ctx ExtraOptionsConnID (OV_bytes (ae_connid e)))
           ExtraOptionsMessageBusByConn (OV_Bus (ae_bus e))) ExtraOptionsUniConnAttrib (OV_UniConnAttrib (ae_att e)))"

text \<open>
  \<open>Process\<close>, run for every connection: the pumps, and the relay or the packet connection. The rate
  limits are stored in the relay; the packet connection ignores them.
\<close>

record server_conn =
  sn_pumps :: "pump list"
  sn_relay :: "PacketSCTPRelay option"
  sn_puni :: "(auto_carrier \<times> PacketUni) option"

definition server_Process ::
  "handshake_libs \<Rightarrow> dgram_conn \<Rightarrow> nat \<Rightarrow> go_ctx \<Rightarrow> UdptlsSctpServer \<Rightarrow> (unit, server_conn) outcome" where
  "server_Process lib conn nxt connctx s =
     (let pumps = replicate 3 (start_pump connctx) in
      if \<not> ss_useUni s then
        bind_outcome (NewPacketRelayServer lib conn (make_chan 8) (make_chan 8) (make_chan 8) (ss_password s) connctx) (\<lambda>r.
          (case ss_ratelimit s of (a, b, c) \<Rightarrow>
             Ok \<lparr>sn_pumps = pumps, sn_relay = Some (relay_RateLimitTcpServerWrite a b c r), sn_puni = None\<rparr>))
      else
        bind_outcome (server_onAutoCarrier_start connctx
            (NewPacketUni (make_chan 8) (make_chan 8) (make_chan 8) (ss_password s) connctx nxt)) (\<lambda>p.
          Ok \<lparr>sn_pumps = pumps, sn_relay = None, sn_puni = Some p\<rparr>))"

definition server_layers :: "accept_env \<Rightarrow> UdptlsSctpServer \<Rightarrow> (unit, layer list) outcome" where
  "server_layers e s =
     (case ss_udplistener s of
        None \<Rightarrow> Blocked
      | Some l \<Rightarrow>
          bind_outcome (listener_accept e (ss_password s) l) (\<lambda>(ls, connctx).
            bind_outcome (relay_layers (ss_password s) (ss_useUni s) connctx) (\<lambda>us. Ok (ls @ us))))"

section \<open>Every context is well typed\<close>

lemma asserts_more [ctx_types, simp]: "asserts as_UsePacketArmor T_UsePacketArmor" "asserts as_UDPInitialData T_UDPInitialData"
    "asserts (map_option Some \<circ> as_UniConnAttrib) T_UniConnAttrib"
  by (auto simp: asserts_def elim: value_type.elims)

lemma ctx_typed_with_if [ctx_types, simp]:
  "(b \<Longrightarrow> value_type v = key_type k) \<Longrightarrow> ctx_typed c \<Longrightarrow> ctx_typed (with_if b k v c)"
  by (simp add: with_if_def)

lemma main_ctx_typed [simp]:
  "ctx_typed (client_main_ctx f)" "ctx_typed (clientd_main_ctx f)" "ctx_typed (server_main_ctx n m p)"
  by (simp_all add: client_main_ctx_def clientd_main_ctx_def server_main_ctx_def Let_def)

primrec dialer_typed :: "transport_dialer \<Rightarrow> bool" where
  "dialer_typed (UdpDialer _ _ c) = ctx_typed c"
| "dialer_typed (UdpUniDialer _ c d) = (ctx_typed c \<and> dialer_typed d)"
| "dialer_typed (HttpDialer _ _ _ _ c) = ctx_typed c"
| "dialer_typed (UniDialer d c) = (ctx_typed c \<and> dialer_typed d)"

text \<open>What the layers above need of the context of a connection.\<close>

definition conn_ctx_ok :: "go_ctx \<Rightarrow> bool" where
  "conn_ctx_ok c \<longleftrightarrow> ctx_typed c \<and> ExtraOptionsConnID \<in> dom (cx_values c) \<and> ExtraOptionsMessageBusByConn \<in> dom (cx_values c)"

lemma NewProviderClient_typed:
  assumes "ctx_typed ctx"
  obtains pc st where "NewProviderClient endpoint tx rx pw ctx randid bus closer = Ok (pc, st)" "conn_ctx_ok (hc_connctx pc)"
    "hc_connctx pc = WithCancel (WithValue (WithValue ctx ExtraOptionsConnID (OV_bytes (hc_ID pc)))
       ExtraOptionsMessageBusByConn (OV_Bus bus)) closer"
proof -
  obtain u :: "ExtraOptionsUniConnAttribValue option" where
    u: "ctx_opt (map_option Some \<circ> as_UniConnAttrib) None ExtraOptionsUniConnAttrib ctx = (Ok u :: (unit, _) outcome)"
    using ctx_opt_typed [OF assms, of "map_option Some \<circ> as_UniConnAttrib" ExtraOptionsUniConnAttrib None] by auto
  obtain b where b: "ctx_opt as_BoostConnectionSettings (16, 16) ExtraOptionsBoostConnectionSettingsHTTPTransport ctx = (Ok b :: (unit, _) outcome)"
    using ctx_opt_typed [OF assms, of as_BoostConnectionSettings ExtraOptionsBoostConnectionSettingsHTTPTransport "(16, 16)"] by auto
  obtain w where w: "ctx_opt as_bool False ExtraOptionsUseWebSocketInsteadOfHTTP ctx = (Ok w :: (unit, _) outcome)"
    using ctx_opt_typed [OF assms, of as_bool ExtraOptionsUseWebSocketInsteadOfHTTP False] by auto
  obtain pc st where n: "NewProviderClient endpoint tx rx pw ctx randid bus closer = Ok (pc, st)"
    "hc_connctx pc = WithCancel (WithValue (WithValue ctx ExtraOptionsConnID (OV_bytes (hc_ID pc)))
       ExtraOptionsMessageBusByConn (OV_Bus bus)) closer"
    using u b w by (cases b) (auto simp: NewProviderClient_def Let_def)
  moreover have "conn_ctx_ok (hc_connctx pc)" using assms n(2) by (simp add: conn_ctx_ok_def)
  ultimately show ?thesis using that by blast
qed

lemma dialer_Connect_typed:
  assumes "dialer_typed d" and "ctx_typed ctx" and "de_ok e"
  shows "\<exists>ls connctx. dialer_Connect e d ctx = Ok (Some (ls, connctx)) \<and> conn_ctx_ok connctx"
  using assms
proof (induction d arbitrary: ctx)
  case (UdpDialer dest masking uctx)
  obtain m where "ctx_opt as_bool False ExtraOptionsUDPShouldMask ctx = (Ok m :: (unit, _) outcome)"
    using ctx_opt_typed [OF UdpDialer.prems(2), of as_bool ExtraOptionsUDPShouldMask False] by auto
  with UdpDialer.prems show ?case by (simp add: conn_ctx_ok_def)
next
  case (UdpUniDialer password c d)
  obtain ls connctx where d: "dialer_Connect e d ctx = Ok (Some (ls, connctx))" "conn_ctx_ok connctx"
    using UdpUniDialer.IH [OF _ UdpUniDialer.prems(2,3)] UdpUniDialer.prems(1) by auto
  obtain u :: "ExtraOptionsUniConnAttribValue option" where
    u: "ctx_opt (map_option Some \<circ> as_UniConnAttrib) None ExtraOptionsUniConnAttrib ctx = (Ok u :: (unit, _) outcome)"
    using ctx_opt_typed [OF UdpUniDialer.prems(2), of "map_option Some \<circ> as_UniConnAttrib" ExtraOptionsUniConnAttrib None] by auto
  obtain a where a: "ctx_opt as_UsePacketArmor (0, False) ExtraOptionsUsePacketArmor ctx = (Ok a :: (unit, _) outcome)"
    using ctx_opt_typed [OF UdpUniDialer.prems(2), of as_UsePacketArmor ExtraOptionsUsePacketArmor "(0, False)"] by auto
  show ?case using d u a by (cases a) simp
next
  case (HttpDialer endpoint tx rx pw c)
  then show ?case
    by (auto intro: NewProviderClient_typed [of ctx endpoint tx rx pw "de_randid e" "de_bus e" "de_closer e"])
next
  case (UniDialer d c)
  then show ?case using UniDialer.IH [of "WithValue ctx ExtraOptionsUniConnAttrib (OV_UniConnAttrib (de_att e))"] by fastforce
qed

lemma NewUdptlsSctpClient_typed:
  assumes "ctx_typed ctx"
  shows "\<exists>c. NewUdptlsSctpClient addr pw ctx bus = Ok c \<and> ctx_typed (ac_ctx c) \<and> dialer_typed (ac_udpdialer c) \<and> ac_password c = pw"
  using assms by (auto simp: NewUdptlsSctpClient_def NewUdpClient_def ctx_opt_def Let_def)

lemma auto_listen_ok: "conn_ctx_ok c \<Longrightarrow> \<exists>a. auto_listen c = Ok a"
  using ctx_need_typed [of c as_bytes ExtraOptionsConnID] ctx_need_typed [of c as_Bus ExtraOptionsMessageBusByConn]
  by (auto simp: conn_ctx_ok_def auto_listen_def ConnIDToString_def ConnectionMessageBusFromContext_def)

lemma relay_made:
  assumes "ctx_typed c"
  shows "\<exists>r. NewPacketRelayClient lib conn tx txData rx pw c = (Ok r :: (unit, PacketSCTPRelay) outcome)"
    "\<exists>r. NewPacketRelayServer lib conn tx txData rx pw c = (Ok r :: (unit, PacketSCTPRelay) outcome)"
  using ctx_opt_typed [OF assms, of as_bool ExtraOptionsUDPFECEnabled False]
  by (auto simp: NewPacketRelayClient_def NewPacketRelayServer_def tlsopen_def getConn_def fresh_relay_def)

lemma client_Up_typed:
  assumes "dialer_typed (ac_udpdialer c)" and "ctx_typed (ac_ctx c)" and "de_ok e"
  shows "\<exists>c' connctx. client_Up e lib conn nxt c = Ok c' \<and> ac_connCtx c' = Some connctx \<and> conn_ctx_ok connctx"
proof -
  obtain ls connctx where d: "dialer_Connect e (ac_udpdialer c) (ac_ctx c) = Ok (Some (ls, connctx))" "conn_ctx_ok connctx"
    using dialer_Connect_typed [OF assms] by blast
  have t: "ctx_typed connctx" using d(2) by (simp add: conn_ctx_ok_def)
  obtain a where a: "auto_listen connctx = Ok a" using auto_listen_ok [OF d(2)] by blast
  obtain r where r: "NewPacketRelayClient lib conn (make_chan 8) (make_chan 8) (make_chan 8) (ac_password c) connctx =
      (Ok r :: (unit, PacketSCTPRelay) outcome)"
    using relay_made(1) [OF t] by blast
  show ?thesis
    using d a r by (cases "ac_uni c") (auto simp: client_Up_def client_onAutoCarrier_start_def Let_def)
qed

fun listener_ctx :: "transport_listener \<Rightarrow> go_ctx" where
  "listener_ctx (UdpListener _ _ _ c) = c"
| "listener_ctx (HttpListener _ _ _ c) = c"

lemma server_Up_typed:
  assumes "ctx_typed ctx"
  shows "\<exists>s l. server_Up (NewUdptlsSctpServer addr pw ctx bus) = Ok s \<and> ss_udplistener s = Some l \<and>
    ctx_typed (ss_ctx s) \<and> listener_ctx l = ss_ctx s"
proof -
  let ?c0 = "WithValue ctx ExtraOptionsMessageBus (OV_Bus bus)"
  let ?c1 = "WithValue ?c0 ExtraOptionsHTTPServerStreamRelay (OV_HTTPServerStreamRelay 0)"
  have "ctx_typed ?c1" using assms by simp
  then obtain a where "ctx_opt as_AbstractListener (0, False) ExtraOptionsAbstractListener ?c1 = (Ok a :: (unit, _) outcome)"
    using ctx_opt_typed [of ?c1 as_AbstractListener ExtraOptionsAbstractListener "(0, False)"] by auto
  moreover have "ctx_opt as_HTTPServerStreamRelay 0 ExtraOptionsHTTPServerStreamRelay ?c1 = (Ok 0 :: (unit, _) outcome)"
    by (simp add: ctx_opt_def)
  moreover have "ctx_opt as_string [] ExtraOptionsUDPMask (WithValue c ExtraOptionsUDPMask (OV_string pw)) = (Ok pw :: (unit, _) outcome)" for c
    by (simp add: ctx_opt_def)
  ultimately show ?thesis
    using assms by (simp add: server_Up_def NewUdptlsSctpServer_def Let_def)
qed

lemma udp_incoming_typed:
  assumes "ctx_typed ctx"
  shows "\<exists>ls c. udp_incoming e ctx = Ok (ls, c) \<and> conn_ctx_ok c \<and> ExtraOptionsUDPInitialData \<in> dom (cx_values c)"
proof -
  obtain m where "ctx_opt as_bool False ExtraOptionsUDPShouldMask ctx = (Ok m :: (unit, _) outcome)"
    using ctx_opt_typed [OF assms, of as_bool ExtraOptionsUDPShouldMask False] by auto
  moreover obtain k where "ctx_opt as_string [] ExtraOptionsUDPMask ctx = (Ok k :: (unit, _) outcome)"
    using ctx_opt_typed [OF assms, of as_string ExtraOptionsUDPMask "[]"] by auto
  ultimately show ?thesis using assms by (simp add: udp_incoming_def conn_ctx_ok_def Let_def)
qed

lemma listener_accept_typed:
  assumes "ctx_typed (listener_ctx l)"
  shows "\<exists>ls c. listener_accept e pw l = Ok (ls, c) \<and> conn_ctx_ok c"
proof (cases l)
  case (HttpListener addr lpw uni ctx)
  then show ?thesis using assms by (simp add: conn_ctx_ok_def)
next
  case (UdpListener addr masking uni ctx)
  obtain ls c where c: "udp_incoming e ctx = Ok (ls, c)" "conn_ctx_ok c" "ExtraOptionsUDPInitialData \<in> dom (cx_values c)"
    using udp_incoming_typed [of ctx e] assms UdpListener by auto
  have t: "ctx_typed c" using c(2) by (simp add: conn_ctx_ok_def)
  obtain d where d: "ctx_need as_UDPInitialData ExtraOptionsUDPInitialData c = (Ok d :: (unit, _) outcome)"
    using ctx_need_typed [OF t, of as_UDPInitialData ExtraOptionsUDPInitialData] c(3) by auto
  obtain a where a: "ctx_opt as_UsePacketArmor (0, False) ExtraOptionsUsePacketArmor c = (Ok a :: (unit, _) outcome)"
    using ctx_opt_typed [OF t, of as_UsePacketArmor ExtraOptionsUsePacketArmor "(0, False)"] by auto
  show ?thesis
    using c d a t by (cases a) (auto simp: UdpListener udpuni_incoming_def conn_ctx_ok_def)
qed

section \<open>Properties\<close>

text \<open>
  C18. The client never fails on the type of an option. Whatever flags, address and password the direct
  client is started with, every context it builds carries under each key a value of the type the key is read with:
  the constructor returns, and when the network lets the dialer through, the context of the connection is well
  typed and has the identity and the message bus the layers above need, so that \<open>Up\<close>, a reconnect and the
  alternative channel all return without a failed type assertion.
\<close>

theorem client_contexts_typed:
  assumes "de_ok e"
  shows "\<exists>c. NewUdptlsSctpClient addr pw (clientd_main_ctx f) bus = Ok c \<and> ctx_typed (ac_ctx c) \<and>
    (\<exists>c' connctx ev. client_Up e lib conn nxt c = Ok c' \<and> ac_connCtx c' = Some connctx \<and> ctx_typed connctx \<and>
       client_Reconnect c' = Ok ev) \<and>
    (\<exists>c''. AlternativeChannel url randid abus closer c = Ok c'' \<and> ac_httpac c'' \<noteq> None)"
proof -
  obtain c where c: "NewUdptlsSctpClient addr pw (clientd_main_ctx f) bus = Ok c" "ctx_typed (ac_ctx c)" "dialer_typed (ac_udpdialer c)"
    using NewUdptlsSctpClient_typed [of "clientd_main_ctx f" addr pw bus] by auto
  obtain c' connctx where c': "client_Up e lib conn nxt c = Ok c'" "ac_connCtx c' = Some connctx" "conn_ctx_ok connctx"
    using client_Up_typed [OF c(3,2) assms] by blast
  obtain a where "auto_listen connctx = Ok a" using auto_listen_ok [OF c'(3)] by blast
  then obtain ev where "ReHandshake2 connctx True = Ok ev" using rehandshake_event by blast
  then have "client_Reconnect c' = Ok ev" using c'(2) by (simp add: client_Reconnect_def)
  moreover obtain pc st where "NewProviderClient url 0 0 (ac_password c) (ac_ctx c) randid abus closer = Ok (pc, st)"
    using NewProviderClient_typed [OF c(2)] by metis
  then have "\<exists>c''. AlternativeChannel url randid abus closer c = Ok c'' \<and> ac_httpac c'' \<noteq> None"
    by (simp add: AlternativeChannel_def)
  moreover have "ctx_typed connctx" using c'(3) by (simp add: conn_ctx_ok_def)
  ultimately show ?thesis using c c' by blast
qed

definition ex_dial_env :: dial_env where
  "ex_dial_env = \<lparr>de_ok = True, de_local = [49], de_bus = 1, de_closer = 0, de_randid = replicate 24 1,
     de_att = \<lparr>ua_ID = replicate 24 2, ua_Rand = [], ua_Iter = - 1\<rparr>\<rparr>"

definition ex_flags :: client_flags where
  "ex_flags = \<lparr>cf_UseSystemHTTPProxy = False, cf_UseSystemSocksProxy = False, cf_UseUDPPolyMasking = True,
     cf_HTTPDialAddr = [], cf_NetworkBuffering = 4096, cf_UDPHandShakeMaskingSize = 1200\<rparr>"

theorem client_contexts_typed_witness:
  "de_ok ex_dial_env \<and>
   (\<exists>c. NewUdptlsSctpClient (str_bytes ''uni+fec+1.2.3.4:443'') [112] (clientd_main_ctx ex_flags) 0 = Ok c \<and> ctx_typed (ac_ctx c) \<and>
     (\<exists>c'. client_Up ex_dial_env ex_libs ex_dgram 9 c = Ok c'))"
proof -
  have ok: "de_ok ex_dial_env" by (simp add: ex_dial_env_def)
  from client_contexts_typed [OF ok, of "str_bytes ''uni+fec+1.2.3.4:443''" "[112]" ex_flags 0 ex_libs ex_dgram 9 "[]" "[]" 0 0] ok
  show ?thesis by blast
qed


lemma with_if_lookup [simp]:
  "cx_values (with_if b k v c) k' = (if b \<and> k' = k then Some v else cx_values c k')"
  by (simp add: with_if_def)

lemma main_ctx_lookups [simp]:
  "cx_values (clientd_main_ctx f) ExtraOptionsUDPShouldMask = (if cf_UseUDPPolyMasking f then Some (OV_bool True) else None)"
  "cx_values (clientd_main_ctx f) ExtraOptionsUsePacketArmor =
     (if cf_UDPHandShakeMaskingSize f \<noteq> 0 then Some (OV_UsePacketArmor (cf_UDPHandShakeMaskingSize f) True) else None)"
  "cx_values (clientd_main_ctx f) ExtraOptionsUDPFECEnabled = None"
  "cx_values (clientd_main_ctx f) ExtraOptionsUniConnAttrib = None"
  "cx_values (clientd_main_ctx f) ExtraOptionsBoostConnectionSettingsHTTPTransport = None"
  "cx_values (clientd_main_ctx f) ExtraOptionsUseWebSocketInsteadOfHTTP = None"
  "cx_values (server_main_ctx n m p) ExtraOptionsUDPShouldMask = (if p then Some (OV_bool True) else None)"
  "cx_values (server_main_ctx n m p) ExtraOptionsUsePacketArmor = (if m \<noteq> 0 then Some (OV_UsePacketArmor m True) else None)"
  "cx_values (server_main_ctx n m p) ExtraOptionsUDPFECEnabled = None"
  "cx_values (server_main_ctx n m p) ExtraOptionsAbstractListener = None"
  by (simp_all add: clientd_main_ctx_def client_main_ctx_def server_main_ctx_def Let_def)

lemma prefix_bytes [simp]:
  "str_bytes ''uni+'' = [117, 110, 105, 43]" "str_bytes ''ws+'' = [119, 115, 43]"
  "str_bytes ''http'' = [104, 116, 116, 112]" "str_bytes ''fec+'' = [102, 101, 99, 43]"
  by code_simp+

lemma HasPrefix_appended [simp]: "HasPrefix (str_bytes p @ s) p"
  by (simp add: HasPrefix_def str_bytes_def)

text \<open>A host name or address that is not taken for a prefix.\<close>

definition plain_host :: "bytes \<Rightarrow> bool" where
  "plain_host h \<longleftrightarrow> \<not> HasPrefix h ''uni+'' \<and> \<not> HasPrefix h ''ws+'' \<and> \<not> HasPrefix h ''http'' \<and> \<not> HasPrefix h ''fec+''"

definition pre_if :: "bool \<Rightarrow> string \<Rightarrow> bytes" where
  "pre_if b p = (if b then str_bytes p else [])"

lemma udp_layers_client:
  assumes "plain_host host" and "de_ok e"
  shows "\<exists>c. NewUdptlsSctpClient (pre_if uni ''uni+'' @ pre_if fec ''fec+'' @ host) pw (clientd_main_ctx f) bus = Ok c \<and>
    client_layers e c = Ok (Some ([LayerUDP] @ (if cf_UseUDPPolyMasking f then [LayerMask pw] else []) @
      (if uni then [LayerUdpUni pw (cf_UDPHandShakeMaskingSize f \<noteq> 0), LayerUni, LayerPacketUni] else []) @ [LayerDTLS pw] @
      (if fec then [LayerFEC] else [])))"
  using assms
  by (cases uni; cases fec; cases "cf_UseUDPPolyMasking f"; cases "cf_UDPHandShakeMaskingSize f = 0")
     (simp_all add: plain_host_def pre_if_def HasPrefix_def NewUdptlsSctpClient_def NewUdpClient_def ctx_opt_def
       client_layers_def relay_layers_def Let_def del: bind_outcome_Ok_iff)

lemma udp_layers_server:
  assumes "plain_host addr"
  shows "\<exists>s. server_Up (NewUdptlsSctpServer (pre_if uni ''uni+'' @ pre_if fec ''fec+'' @ addr) pw (server_main_ctx n m p) bus) = Ok s \<and>
    server_layers e s = Ok ([LayerUDP] @ (if p then [LayerMask pw] else []) @
      (if uni then [LayerUdpUni pw (m \<noteq> 0), LayerUni, LayerPacketUni] else []) @ [LayerDTLS pw] @
      (if fec then [LayerFEC] else []))"
  using assms
  by (cases uni; cases fec; cases p; cases "m = 0")
     (simp_all add: plain_host_def pre_if_def HasPrefix_def NewUdptlsSctpServer_def server_Up_def ctx_opt_def ctx_need_def
       server_layers_def relay_layers_def udp_incoming_def udpuni_incoming_def Let_def del: bind_outcome_Ok_iff)

lemma http_layers_client:
  "\<exists>c. NewUdptlsSctpClient (pre_if uni ''uni+'' @ pre_if ws ''ws+'' @ str_bytes ''http'' @ rest) pw (clientd_main_ctx f) bus = Ok c \<and>
    client_layers e c = Ok (Some ([LayerHTTP pw] @ (if uni then [LayerUni, LayerPacketUni] else []) @ [LayerDTLS pw]))"
  by (cases uni; cases ws)
     (simp_all add: pre_if_def HasPrefix_def NewUdptlsSctpClient_def NewProviderClient_def ctx_opt_def
       client_layers_def relay_layers_def Let_def del: bind_outcome_Ok_iff)

lemma http_layers_server:
  "\<exists>s. server_Up (NewUdptlsSctpServer (pre_if uni ''uni+'' @ str_bytes ''http'' @ rest) pw (server_main_ctx n m p) bus) = Ok s \<and>
    server_layers e s = Ok ([LayerHTTP pw] @ (if uni then [LayerUni, LayerPacketUni] else []) @ [LayerDTLS pw])"
  by (cases uni)
     (simp_all add: pre_if_def HasPrefix_def NewUdptlsSctpServer_def server_Up_def ctx_opt_def server_layers_def relay_layers_def
       Let_def del: bind_outcome_Ok_iff)

definition client_address :: "bool \<Rightarrow> bool \<Rightarrow> bool \<Rightarrow> bool \<Rightarrow> bytes \<Rightarrow> bytes" where
  "client_address uni http ws fec rest =
     pre_if uni ''uni+'' @ (if http then pre_if ws ''ws+'' @ str_bytes ''http'' @ rest else pre_if fec ''fec+'' @ rest)"

text \<open>
  C17. Client and server build the same layers. For the same password, the same masking flags and
  addresses with the same prefixes, over UDP (with or without \<open>uni+\<close> and \<open>fec+\<close>) and over HTTP (with or without
  \<open>uni+\<close>, and \<open>ws+\<close> on the client), the client's connection and a connection the server takes have the same
  layers with the same keys, from the network up to DTLS and packet assembly.
\<close>

theorem client_and_server_layers_agree:
  assumes "de_ok e" and "\<not> http \<Longrightarrow> plain_host host \<and> plain_host addr"
  shows "\<exists>c s ls. NewUdptlsSctpClient (client_address uni http ws fec host) pw (clientd_main_ctx f) cb = Ok c \<and>
    server_Up (NewUdptlsSctpServer (client_address uni http False fec addr) pw
      (server_main_ctx n (cf_UDPHandShakeMaskingSize f) (cf_UseUDPPolyMasking f)) sb) = Ok s \<and>
    client_layers e c = Ok (Some ls) \<and> server_layers ae s = Ok ls \<and>
    LayerDTLS pw \<in> set ls \<and> (LayerFEC \<in> set ls \<longleftrightarrow> fec \<and> \<not> http) \<and> (LayerUni \<in> set ls \<longleftrightarrow> uni)"
proof (cases http)
  case True
  show ?thesis
    using http_layers_client [of uni ws host pw f cb e]
      http_layers_server [of uni addr pw n "cf_UDPHandShakeMaskingSize f" "cf_UseUDPPolyMasking f" sb ae] True
    by (cases uni) (fastforce simp: client_address_def pre_if_def)+
next
  case False
  then have "plain_host host" "plain_host addr" using assms(2) by auto
  then show ?thesis
    using udp_layers_client [of host e uni fec pw f cb] assms(1) False
      udp_layers_server [of addr uni fec pw n "cf_UDPHandShakeMaskingSize f" "cf_UseUDPPolyMasking f" sb ae]
    by (cases uni; cases fec) (fastforce simp: client_address_def pre_if_def)+
qed

definition ex_accept_env :: accept_env where
  "ex_accept_env = \<lparr>ae_connid = [50], ae_bus = 2, ae_initial = [1], ae_unmasked = [1],
     ae_att = \<lparr>ua_ID = replicate 24 2, ua_Rand = [3], ua_Iter = - 1\<rparr>\<rparr>"

lemma ex_flags_size: "cf_UDPHandShakeMaskingSize ex_flags = 1200" "cf_UseUDPPolyMasking ex_flags = True"
  by (simp_all add: ex_flags_def)

theorem client_and_server_layers_agree_witness:
  "de_ok ex_dial_env \<and> plain_host [49] \<and>
   (\<exists>c s ls. NewUdptlsSctpClient (client_address True False False True [49]) [112] (clientd_main_ctx ex_flags) 0 = Ok c \<and>
      server_Up (NewUdptlsSctpServer (client_address True False False True [49]) [112] (server_main_ctx 0 1200 True) 0) = Ok s \<and>
      client_layers ex_dial_env c = Ok (Some ls) \<and> server_layers ex_accept_env s = Ok ls \<and> LayerFEC \<in> set ls \<and> LayerUni \<in> set ls)"
proof -
  have 1: "de_ok ex_dial_env" "plain_host [49]" by (simp_all add: ex_dial_env_def plain_host_def HasPrefix_def)
  then have 2: "\<not> False \<Longrightarrow> plain_host [49] \<and> plain_host [49]" by simp
  show ?thesis
    using client_and_server_layers_agree [OF 1(1) 2, where uni = True and ws = False and fec = True and pw = "[112]" and
        f = ex_flags and cb = 0 and n = 0 and sb = 0 and ae = ex_accept_env] 1
    unfolding ex_flags_size by blast
qed

text \<open>
  A client whose first connection fails does not report it, it crashes: \<open>Up\<close> logs the error and goes on,
  and the goroutines it starts ask the nil context for its end.
\<close>

theorem failed_connect_kills_client:
  assumes "\<not> de_ok e" and "plain_host host"
  shows "\<exists>c. NewUdptlsSctpClient (client_address uni False ws fec host) pw (clientd_main_ctx f) bus = Ok c \<and>
    dialer_Connect e (ac_udpdialer c) (ac_ctx c) = Ok None \<and> client_Up e lib conn nxt c = Panic"
  using assms
  by (cases uni; cases fec)
     (simp_all add: client_address_def plain_host_def pre_if_def HasPrefix_def NewUdptlsSctpClient_def NewUdpClient_def ctx_opt_def
       client_Up_def Let_def del: bind_outcome_Ok_iff)

theorem failed_connect_kills_client_witness:
  "\<exists>c. NewUdptlsSctpClient (client_address True False False False [49]) [112] (clientd_main_ctx ex_flags) 0 = Ok c \<and>
     client_Up (ex_dial_env\<lparr>de_ok := False\<rparr>) ex_libs ex_dgram 9 c = Panic"
proof -
  have "\<not> de_ok (ex_dial_env\<lparr>de_ok := False\<rparr>)" "plain_host [49]" by (simp_all add: plain_host_def HasPrefix_def)
  from failed_connect_kills_client [OF this, of True False False "[112]" ex_flags 0 ex_libs ex_dgram 9] show ?thesis by blast
qed

text \<open>Over UDP the prefix \<open>ws+\<close> is taken off and has no effect.\<close>

lemma ws_prefix_ignored_over_udp:
  assumes "plain_host host" and "NewUdptlsSctpClient (str_bytes ''ws+'' @ host) pw ctx bus = Ok c"
    and "NewUdptlsSctpClient host pw ctx bus = Ok c'"
  shows "ac_udpdialer c = ac_udpdialer c' \<and> ac_ctx c = ac_ctx c'"
  using assms by (auto simp: plain_host_def HasPrefix_def NewUdptlsSctpClient_def NewUdpClient_def Let_def)

end
