(* ===== verification/HostPort.thy ===== *)
theory HostPort
  imports Armor Address
begin

text \<open>
  The parts of Go's \<open>net\<close> and \<open>strconv\<close> packages with which the SOCKS front end and the dialer of the
  server take addresses apart: \<open>SplitHostPort\<close>, \<open>Atoi\<close> and \<open>ParseIP\<close>, and that they are inverse to the
  rendering of \<open>Address\<close> (\<open>JoinHostPort\<close>, \<open>itoa\<close>, and \<open>ip_string\<close> on IPv4 addresses).
\<close>

section \<open>Bytes and strings\<close>

definition bytes_str :: "bytes \<Rightarrow> string" where
  "bytes_str bs = map (\<lambda>b. char_of (unat b)) bs"

lemma unat_byte: "unat (b :: byte) < 256"
proof -
  have "unat b < 2 ^ LENGTH(8)" by (rule unsigned_less)
  then show ?thesis by simp
qed

lemma of_char_less_256: "(of_char c :: nat) < 256"
proof -
  have "of_char c = (of_char c :: nat) mod 256" by simp
  then show ?thesis by (metis mod_less_divisor zero_less_numeral)
qed

lemma str_bytes_bytes_str [simp]: "str_bytes (bytes_str bs) = bs"
proof -
  have "unat b mod 256 = unat b" for b :: byte
    using unat_byte [of b] by simp
  then show ?thesis by (simp add: str_bytes_def bytes_str_def comp_def map_idI)
qed

lemma bytes_str_str_bytes [simp]: "bytes_str (str_bytes s) = s"
proof -
  have "unat (of_nat (of_char c) :: byte) = (of_char c :: nat)" for c :: char
  proof -
    have "(of_char c :: nat) < 256"
      by (rule of_char_less_256)
    then show ?thesis by (simp add: unat_of_nat)
  qed
  then show ?thesis by (simp add: str_bytes_def bytes_str_def comp_def)
qed

section \<open>SplitHostPort\<close>

text \<open>
  \<open>None\<close> for any of its errors. The port stands behind the last colon; a host in brackets ends just
  before it, any other host has no colon, and brackets occur nowhere else.
\<close>

definition SplitHostPort :: "string \<Rightarrow> (string \<times> string) option" where
  "SplitHostPort s =
     (if CHR '':'' \<notin> set s then None
      else
        let port = rev (takeWhile (\<lambda>c. c \<noteq> CHR '':'') (rev s));
            i = length s - Suc (length port)
        in if hd s = CHR ''['' then
             (if CHR '']'' \<notin> set s then None
              else
                let host = takeWhile (\<lambda>c. c \<noteq> CHR '']'') (tl s)
                in if length host + 2 \<noteq> i then None
                   else if CHR ''['' \<in> set host \<union> set port \<or> CHR '']'' \<in> set port then None
                   else Some (host, port))
           else
             (let host = take i s
              in if CHR '':'' \<in> set host then None
                 else if CHR ''['' \<in> set s \<or> CHR '']'' \<in> set s then None
                 else Some (host, port)))"

definition no_brackets :: "string \<Rightarrow> bool" where
  "no_brackets s \<longleftrightarrow> CHR ''['' \<notin> set s \<and> CHR '']'' \<notin> set s"

lemma takeWhile_until: "x \<notin> set xs \<Longrightarrow> takeWhile (\<lambda>c. c \<noteq> x) (xs @ x # ys) = xs"
  by (subst takeWhile_append2) auto

lemma SplitHostPort_Join:
  assumes "no_brackets host" and "no_brackets port" and "CHR '':'' \<notin> set port"
  shows "SplitHostPort (JoinHostPort host port) = Some (host, port)"
proof (cases "CHR '':'' \<in> set host")
  case True
  have "takeWhile (\<lambda>c. c \<noteq> CHR '':'') (rev port @ CHR '':'' # CHR '']'' # rev host @ [CHR ''['']) = rev port"
    using assms(3) by (simp add: takeWhile_until)
  moreover have "takeWhile (\<lambda>c. c \<noteq> CHR '']'') (host @ CHR '']'' # CHR '':'' # port) = host"
    using assms(1) by (simp add: takeWhile_until no_brackets_def)
  ultimately show ?thesis
    using True assms by (simp add: SplitHostPort_def JoinHostPort_def no_brackets_def Let_def)
next
  case False
  have "takeWhile (\<lambda>c. c \<noteq> CHR '':'') (rev port @ CHR '':'' # rev host) = rev port"
    using assms(3) by (simp add: takeWhile_until)
  moreover have "hd (host @ CHR '':'' # port) \<noteq> CHR ''[''"
    using assms(1) by (cases host) (auto simp: no_brackets_def)
  ultimately show ?thesis
    using False assms by (simp add: SplitHostPort_def JoinHostPort_def no_brackets_def Let_def)
qed

section \<open>Atoi\<close>

text \<open>
  The value of \<open>strconv.Atoi\<close> with its error dropped, as the callers do: 0 for text that is no decimal
  number, the nearest 64 bit integer for a number out of range.
\<close>

definition is_digit :: "char \<Rightarrow> bool" where
  "is_digit c \<longleftrightarrow> 48 \<le> (of_char c :: nat) \<and> (of_char c :: nat) \<le> 57"

definition digits_value :: "string \<Rightarrow> nat" where
  "digits_value ds = foldl (\<lambda>n c. 10 * n + (of_char c - 48)) 0 ds"

definition Atoi :: "string \<Rightarrow> int" where
  "Atoi s =
     (let neg = (s \<noteq> [] \<and> hd s = CHR ''-'');
          ds = (if s \<noteq> [] \<and> (hd s = CHR ''-'' \<or> hd s = CHR ''+'') then tl s else s)
      in if ds = [] \<or> \<not> list_all is_digit ds then 0
         else if neg then max (- (2 ^ 63)) (- int (digits_value ds))
         else min (2 ^ 63 - 1) (int (digits_value ds)))"

lemma digit_char: "d < 10 \<Longrightarrow> (of_char (digit d) :: nat) = 48 + d"
  by (simp add: digit_def)

lemma digits_value_snoc: "digits_value (ds @ [c]) = 10 * digits_value ds + (of_char c - 48)"
  by (simp add: digits_value_def)

text \<open>Decimal rendering: digits only, at least one, with the value they render.\<close>

lemma show_base_10: "show_base 10 n \<noteq> [] \<and> list_all is_digit (show_base 10 n) \<and> digits_value (show_base 10 n) = n"
proof (induction n rule: less_induct)
  case (less n)
  show ?case
  proof (cases "n < 10")
    case True
    then show ?thesis
      by (simp add: show_base.simps [of 10 n] digit_char is_digit_def digits_value_def)
  next
    case False
    then have "show_base 10 n = show_base 10 (n div 10) @ [digit (n mod 10)]"
      by (subst show_base.simps) simp
    moreover have "n div 10 < n" using False by simp
    ultimately show ?thesis
      using less.IH [of "n div 10"] by (simp add: digits_value_snoc digit_char is_digit_def)
  qed
qed

lemma digits_plain:
  assumes "list_all is_digit ds" and "c = CHR '':'' \<or> c = CHR ''['' \<or> c = CHR '']'' \<or> c = CHR ''-'' \<or> c = CHR ''+'' \<or> c = CHR ''.'' \<or> c = CHR ''%''"
  shows "c \<notin> set ds"
  using assms by (auto simp: list_all_iff is_digit_def)

lemma Atoi_itoa:
  assumes "0 \<le> n" and "n < 2 ^ 63"
  shows "Atoi (itoa n) = n"
proof -
  let ?ds = "show_base 10 (nat n)"
  have d: "?ds \<noteq> []" "list_all is_digit ?ds" "digits_value ?ds = nat n"
    using show_base_10 [of "nat n"] by simp_all
  then have "hd ?ds \<noteq> CHR ''-''" "hd ?ds \<noteq> CHR ''+''"
    using digits_plain [OF d(2)] hd_in_set [OF d(1)] by metis+
  with d assms show ?thesis
    by (simp add: Atoi_def itoa_def Let_def min_def)
qed

lemma itoa_plain:
  assumes "0 \<le> n"
  shows "no_brackets (itoa n)" "CHR '':'' \<notin> set (itoa n)"
  using digits_plain [of "show_base 10 (nat n)"] show_base_10 [of "nat n"] assms
  by (simp_all add: itoa_def no_brackets_def)

lemma SplitHostPort_itoa:
  assumes "no_brackets host" and "0 \<le> n"
  shows "SplitHostPort (JoinHostPort host (itoa n)) = Some (host, itoa n)"
  by (rule SplitHostPort_Join) (use assms itoa_plain in simp_all)

section \<open>ParseIP\<close>

text \<open>
  \<open>net.ParseIP\<close> of Go 1.21: the 16-byte form of an address, and the empty list (nil) for anything else. The
  first dot or colon decides between the two notations; a zone is refused. An IPv4 field has no leading
  zero; an IPv6 address has up to eight groups, at most one ellipsis, which stands for at least one
  group, and may end in IPv4 notation.
\<close>

fun split_at :: "char \<Rightarrow> string \<Rightarrow> string list" where
  "split_at c [] = [[]]"
| "split_at c (x # xs) =
     (if x = c then [] # split_at c xs else (x # hd (split_at c xs)) # tl (split_at c xs))"

definition octet_ok :: "string \<Rightarrow> bool" where
  "octet_ok f \<longleftrightarrow> f \<noteq> [] \<and> list_all is_digit f \<and> (length f = 1 \<or> hd f \<noteq> CHR ''0'') \<and> digits_value f \<le> 255"

definition parseIPv4 :: "string \<Rightarrow> bytes option" where
  "parseIPv4 s =
     (let fs = split_at CHR ''.'' s
      in if length fs = 4 \<and> list_all octet_ok fs then Some (map (\<lambda>f. of_nat (digits_value f)) fs) else None)"

definition hex_value :: "char \<Rightarrow> nat option" where
  "hex_value c =
     (let n = (of_char c :: nat)
      in if 48 \<le> n \<and> n \<le> 57 then Some (n - 48)
         else if 97 \<le> n \<and> n \<le> 102 then Some (n - 87)
         else if 65 \<le> n \<and> n \<le> 70 then Some (n - 55)
         else None)"

fun parseIPv6_groups :: "nat \<Rightarrow> string \<Rightarrow> bytes \<Rightarrow> nat option \<Rightarrow> (bytes \<times> nat option) option" where
  "parseIPv6_groups 0 s acc ellipsis = (if s = [] then Some (acc, ellipsis) else None)"
| "parseIPv6_groups (Suc k) s acc ellipsis =
     (let h = takeWhile (\<lambda>c. hex_value c \<noteq> None) s;
          s1 = drop (length h) s;
          v = foldl (\<lambda>n c. 16 * n + the (hex_value c)) 0 h;
          acc1 = acc @ be_encode 2 v
      in if h = [] \<or> 4 < length h then None
         else if s1 \<noteq> [] \<and> hd s1 = CHR ''.'' then
           (if ellipsis = None \<and> length acc \<noteq> 12 \<or> 12 < length acc then None
            else map_option (\<lambda>q. (acc @ q, ellipsis)) (parseIPv4 s))
         else if s1 = [] then Some (acc1, ellipsis)
         else if hd s1 \<noteq> CHR '':'' \<or> tl s1 = [] then None
         else if hd (tl s1) = CHR '':'' then
           (if ellipsis \<noteq> None then None
            else if tl (tl s1) = [] then Some (acc1, Some (length acc1))
            else parseIPv6_groups k (tl (tl s1)) acc1 (Some (length acc1)))
         else parseIPv6_groups k (tl s1) acc1 ellipsis)"

definition parseIPv6 :: "string \<Rightarrow> bytes option" where
  "parseIPv6 s =
     (let lead = (take 2 s = ''::'')
      in if s = ''::'' then Some (replicate 16 0)
         else
           case parseIPv6_groups 8 (if lead then drop 2 s else s) [] (if lead then Some 0 else None) of
             None \<Rightarrow> None
           | Some (acc, ellipsis) \<Rightarrow>
               (case ellipsis of
                  None \<Rightarrow> if length acc = 16 then Some acc else None
                | Some p \<Rightarrow>
                    if length acc < 16 then Some (take p acc @ replicate (16 - length acc) 0 @ drop p acc) else None))"

definition ParseIP :: "string \<Rightarrow> ip" where
  "ParseIP s =
     (case dropWhile (\<lambda>c. c \<notin> {CHR ''.'', CHR '':'', CHR ''%''}) s of
        [] \<Rightarrow> []
      | c # _ \<Rightarrow>
          if CHR ''%'' \<in> set s then []
          else if c = CHR ''.'' then (case parseIPv4 s of Some q \<Rightarrow> v4InV6Prefix @ q | None \<Rightarrow> [])
          else (case parseIPv6 s of Some p \<Rightarrow> p | None \<Rightarrow> []))"

lemma ParseIP_v6_example: "ParseIP ''2001:db8::1'' = [32, 1, 13, 184, 0, 0, 0, 0, 0, 0, 0, 0, 0, 0, 0, 1]"
  by code_simp

lemma ParseIP_two_ellipses: "ParseIP ''1::2::3'' = []"
  by code_simp

lemma ParseIP_domain: "ParseIP ''a.org'' = []"
  by code_simp

lemma split_at_plain: "c \<notin> set x \<Longrightarrow> split_at c x = [x]"
  by (induction x) auto

lemma split_at_field: "c \<notin> set x \<Longrightarrow> split_at c (x @ c # ys) = x # split_at c ys"
  by (induction x) auto

lemma show_base_10_hd: "10 \<le> n \<Longrightarrow> hd (show_base 10 n) \<noteq> CHR ''0''"
proof (induction n rule: less_induct)
  case (less n)
  then have step: "show_base 10 n = show_base 10 (n div 10) @ [digit (n mod 10)]"
    by (subst show_base.simps) simp
  show ?case
  proof (cases "n div 10 < 10")
    case True
    then have "show_base 10 (n div 10) = [digit (n div 10)]"
      by (subst show_base.simps) simp
    moreover have "digit (n div 10) \<noteq> CHR ''0''"
    proof
      assume "digit (n div 10) = CHR ''0''"
      then have "of_char (digit (n div 10)) = (of_char CHR ''0'' :: nat)" by simp
      with True less.prems show False by (simp add: digit_char)
    qed
    ultimately show ?thesis using step by simp
  next
    case False
    with less.IH [of "n div 10"] less.prems step show_base_10 [of "n div 10"] show ?thesis by simp
  qed
qed

lemma octet_show: "octet_ok (show_base 10 (unat (b :: byte)))"
proof -
  have "unat b \<le> 255" using unat_byte [of b] by simp
  moreover have "length (show_base 10 (unat b)) = 1 \<or> hd (show_base 10 (unat b)) \<noteq> CHR ''0''"
    using show_base_10_hd [of "unat b"] by (cases "unat b < 10") (simp_all add: show_base.simps [of 10 "unat b"])
  ultimately show ?thesis using show_base_10 [of "unat b"] by (simp add: octet_ok_def)
qed

lemma ParseIP_ip_string:
  assumes "To4 p = Some q"
  shows "ParseIP (ip_string p) = v4InV6Prefix @ q"
proof -
  obtain a b c d where q: "q = [a, b, c, d]"
    using To4_length [OF assms] by (auto simp: numeral_eq_Suc length_Suc_conv)
  let ?s = "\<lambda>b :: byte. show_base 10 (unat b)"
  have dig: "list_all is_digit (?s x)" "digits_value (?s x) = unat x" for x
    using show_base_10 [of "unat x"] by simp_all
  have dot: "CHR ''.'' \<notin> set (?s x)" for x
    using digits_plain [OF dig(1)] by simp
  have str: "ip_string p = ?s a @ CHR ''.'' # ?s b @ CHR ''.'' # ?s c @ CHR ''.'' # ?s d"
    using assms q by (auto simp: ip_string_def To4_def)
  have "parseIPv4 (ip_string p) = Some q"
    unfolding str parseIPv4_def
    by (simp add: split_at_field split_at_plain dot octet_show dig q)
  moreover have "dropWhile (\<lambda>c. c \<notin> {CHR ''.'', CHR '':'', CHR ''%''}) (ip_string p) =
      CHR ''.'' # ?s b @ CHR ''.'' # ?s c @ CHR ''.'' # ?s d"
    unfolding str using dig(1) [of a]
    by (subst dropWhile_append2) (auto simp: list_all_iff is_digit_def)
  moreover have "CHR ''%'' \<notin> set (ip_string p)"
    unfolding str using digits_plain [OF dig(1)] by simp
  ultimately show ?thesis by (simp add: ParseIP_def)
qed

end
