(* ===== verification/TcpRelay.thy ===== *)
theory TcpRelay
  imports Assembled HostPort "HOL-Library.Sublist"
begin

text \<open>
  TCP connections through the tunnel: the dialer of the server (\<^verbatim>\<open>workers/common.go\<close>), \<open>RelayStream\<close>
  (\<^verbatim>\<open>workers/tcp/tcpServer\<close>), \<open>DialDirect\<close> of the clients, the \<open>CONNECT\<close> command of the SOCKS front end
  (\<^verbatim>\<open>ass/socksinterface\<close>), and the four copying loops that make up a connection once it is dialled.
\<close>

section \<open>The dialer of the server\<close>

text \<open>
  What the network answers: whether a UDP port can be bound (0 for any), and whether an address of a
  network can be dialled. A connection is described by how it was made.
\<close>

record net_world =
  nw_listen :: "u16 \<Rightarrow> bool"
  nw_dial :: "string \<Rightarrow> string \<Rightarrow> bool"

datatype net_conn = Listening u16 | Dialled string string

datatype net_error = NetError

definition systemDialer_Dial :: "net_world \<Rightarrow> string \<Rightarrow> bytes \<Rightarrow> u16 \<Rightarrow> go_ctx \<Rightarrow> (net_error, net_conn) outcome" where
  "systemDialer_Dial nw network address port ctx =
     bind_outcome (ctx_opt (map_option Some \<circ> as_LocalUDPBindPort) None ExtraOptionsLocalUDPBindPort ctx) (\<lambda>bind.
       case bind of
         Some local \<Rightarrow>
           if nw_listen nw local then Ok (Listening local)
           else if nw_listen nw 0 then Ok (Listening 0)
           else Err NetError
       | None \<Rightarrow>
           (let a = bytes_str address;
                host = (if CHR '':'' \<in> set a then ''['' @ a @ '']'' else a);
                addr = host @ '':'' @ itoa (uint port)
            in if nw_dial nw network addr then Ok (Dialled network addr) else Err NetError))"

section \<open>RelayStream\<close>

text \<open>
  How \<open>RelayStream\<close> begins: the stream is nil; it was closed since the header could not be parsed or the
  destination not dialled; a panic was recovered, which leaves the stream open; or the copying
  loops start, with what is left of the stream.
\<close>

datatype relay_start = StreamNil | StreamClosed | StreamRecovered | StreamRelayed net_conn reader

definition RelayStream :: "struc_lib \<Rightarrow> net_world \<Rightarrow> go_ctx \<Rightarrow> reader option \<Rightarrow> relay_start" where
  "RelayStream S nw ctx conn =
     (case conn of
        None \<Rightarrow> StreamNil
      | Some r \<Rightarrow>
          (case ParseHeader S r of
             None \<Rightarrow> StreamClosed
           | Some (s, rest) \<Rightarrow>
               (case systemDialer_Dial nw ''tcp'' (sc_DestDomain s) (sc_DestPort s) ctx of
                  Ok netconn \<Rightarrow> StreamRelayed netconn rest
                | Err _ \<Rightarrow> StreamClosed
                | _ \<Rightarrow> StreamRecovered)))"

section \<open>DialDirect\<close>

text \<open>
  The stream a client opens for a connection: the alternative channel if there is one, else a stream of
  the packet connection or of the relay. \<open>Ok False\<close> is a nil stream. What the libraries answer is in
  \<open>dial_world\<close>: random bytes and clock of the token, whether the websocket is dialled, the stream smux
  opens, the packet connection as it develops while the client waits for a relay, whether the first
  write goes through, and length and error of the second.
\<close>

record dial_world =
  dw_rand :: bytes
  dw_now :: u64
  dw_ws :: "bytes \<Rightarrow> bool"
  dw_opened :: "nat option"
  dw_puni :: "nat \<Rightarrow> PacketUni"
  dw_write1 :: bool
  dw_write2 :: "bytes \<Rightarrow> nat \<times> bool"

datatype dial_error = SealError armor_error | StreamWriteError | InexactLength

definition open_stream :: "struc_lib \<Rightarrow> aead_lib \<Rightarrow> dial_world \<Rightarrow> UdptlsSctpClient \<Rightarrow> (dial_error, bool) outcome" where
  "open_stream S A w s =
     (case ac_httpac s of
        Some pc \<Rightarrow>
          (case DialWsAlternativeChannelConnection S A (dw_rand w) (dw_now w) (dw_ws w) (ac_ctx s) pc of
             Ok url \<Rightarrow> Ok (url \<noteq> None)
           | Err e \<Rightarrow> Err (SealError e)
           | Panic \<Rightarrow> Panic
           | Blocked \<Rightarrow> Blocked)
      | None \<Rightarrow>
          if ac_uni s then
            (case ac_puni s of
               None \<Rightarrow> Panic
             | Some _ \<Rightarrow> (case puni_ClientOpenStream (dw_opened w) (dw_puni w) of Ok st \<Rightarrow> Ok (st \<noteq> None) | _ \<Rightarrow> Panic))
          else
            (case ac_udprelay s of
               None \<Rightarrow> Panic
             | Some r \<Rightarrow> bind_outcome (relay_ClientOpenStream (dw_opened w) r) (\<lambda>st. Ok (st \<noteq> None))))"

text \<open>
  \<open>DialDirect\<close>: what it has written to the stream. The error of the first write is dropped; a nil stream
  panics at the first write.
\<close>

definition DialDirect ::
  "struc_lib \<Rightarrow> aead_lib \<Rightarrow> dial_world \<Rightarrow> UdptlsSctpClient \<Rightarrow> bytes \<Rightarrow> u16 \<Rightarrow> (dial_error, bytes list) outcome" where
  "DialDirect S A w s address port =
     bind_outcome (open_stream S A w s) (\<lambda>stream.
       if \<not> stream then Panic
       else
         let ws = dial_stream_writes S address port;
             (n, failed) = dw_write2 w (ws ! 1)
         in if failed then Err StreamWriteError
            else if n \<noteq> length (ws ! 1) then Err InexactLength
            else Ok ((if dw_write1 w then [ws ! 0] else []) @ [ws ! 1]))"

section \<open>The CONNECT command\<close>

text \<open>
  The branch of \<open>TCPHandle\<close> for \<open>CmdConnect\<close>, over the dialer of the interface \<open>TCPSocketDialer\<close> and the
  address of the request. Success is replied before anything is dialled; then the client's connection is
  closed, or spliced with the connection the dialer made.
\<close>

datatype 'c connect_end = ClientClosed | SplicedWith 'c

definition TCPHandle_Connect :: "(bytes \<Rightarrow> u16 \<Rightarrow> ('e, 'c) outcome) \<Rightarrow> string \<Rightarrow> (unit, 'c connect_end) outcome" where
  "TCPHandle_Connect dial address =
     (case SplitHostPort address of
        None \<Rightarrow> Ok ClientClosed
      | Some (hp, pp) \<Rightarrow>
          (case dial (str_bytes hp) (of_int (Atoi pp)) of
             Ok c \<Rightarrow> Ok (SplicedWith c)
           | Err _ \<Rightarrow> Ok ClientClosed
           | Panic \<Rightarrow> Panic
           | Blocked \<Rightarrow> Blocked))"

text \<open>
  What the front end relies on in its dialer: the server parses what it has written to the stream as the
  domain and port it was asked for, and finds the data behind it untouched.
\<close>

locale socket_dialer =
  fixes S :: struc_lib and dial :: "bytes \<Rightarrow> u16 \<Rightarrow> ('e, bytes list) outcome"
  assumes dial_header: "struc_laws S \<Longrightarrow> length host \<le> 65530 \<Longrightarrow> dial host port = Ok ws \<Longrightarrow>
    ParseHeader S \<lparr>rd_chunks = ws @ data, rd_end = e\<rparr> =
      Some (\<lparr>sc_DestDomain = host, sc_DestPort = port\<rparr>, \<lparr>rd_chunks = data, rd_end = e\<rparr>)"
begin

lemma Connect_dials:
  assumes "no_brackets host" and "dial (str_bytes host) port = Ok ws"
  shows "TCPHandle_Connect dial (JoinHostPort host (itoa (uint port))) = Ok (SplicedWith ws)"
proof -
  have "uint port < 2 ^ 16" using uint_bounded [of port] by simp
  then have "Atoi (itoa (uint port)) = uint port" by (intro Atoi_itoa) simp_all
  then show ?thesis
    using assms by (simp add: TCPHandle_Connect_def SplitHostPort_itoa)
qed

lemma RelayStream_dials:
  assumes "struc_laws S" and "length host \<le> 65530" and "cx_values ctx ExtraOptionsLocalUDPBindPort = None"
    and "dial (str_bytes host) port = Ok ws"
  shows "RelayStream S nw ctx (Some \<lparr>rd_chunks = ws @ data, rd_end = e\<rparr>) =
    (if nw_dial nw ''tcp'' (JoinHostPort host (itoa (uint port)))
     then StreamRelayed (Dialled ''tcp'' (JoinHostPort host (itoa (uint port)))) \<lparr>rd_chunks = data, rd_end = e\<rparr>
     else StreamClosed)"
proof -
  have "length (str_bytes host) \<le> 65530" using assms(2) by (simp add: str_bytes_def)
  from dial_header [OF assms(1) this assms(4)] show ?thesis
    using assms(3) by (simp add: RelayStream_def systemDialer_Dial_def ctx_opt_def Let_def JoinHostPort_def)
qed

end

interpretation dd: socket_dialer S "DialDirect S A (w\<lparr>dw_write1 := True\<rparr>) s" for S A w s
proof
  fix host port ws data e
  assume "struc_laws S" and "length host \<le> 65530" and "DialDirect S A (w\<lparr>dw_write1 := True\<rparr>) s host port = Ok ws"
  moreover from this(3) have "ws = dial_stream_writes S host port"
    by (auto simp: DialDirect_def dial_stream_writes_def Let_def split: prod.splits if_splits)
  ultimately show "ParseHeader S \<lparr>rd_chunks = ws @ data, rd_end = e\<rparr> =
      Some (\<lparr>sc_DestDomain = host, sc_DestPort = port\<rparr>, \<lparr>rd_chunks = data, rd_end = e\<rparr>)"
    by (simp add: ParseHeader_dial)
qed

text \<open>
  C11. A SOCKS client gets the connection it asked for. When the client can open a stream and write to it,
  a \<open>CONNECT\<close> for a host and a port makes the server dial exactly the address of the request, for host
  names, IPv4 addresses and IPv6 addresses alike. Once that is dialled, what follows the header in the
  stream is what is left to be copied to the destination; when it cannot be dialled the stream is closed.
\<close>

theorem tcp_connect_end_to_end:
  assumes "struc_laws S" and "no_brackets host" and "length host \<le> 65530"
    and "open_stream S A w s = Ok True" and "dw_write1 w" and "\<And>b. dw_write2 w b = (length b, False)"
    and "cx_values ctx ExtraOptionsLocalUDPBindPort = None" and "address = JoinHostPort host (itoa (uint (port :: u16)))"
  shows "\<exists>ws. TCPHandle_Connect (DialDirect S A w s) address = Ok (SplicedWith ws) \<and>
    RelayStream S nw ctx (Some \<lparr>rd_chunks = ws @ data, rd_end = e\<rparr>) =
      (if nw_dial nw ''tcp'' address
       then StreamRelayed (Dialled ''tcp'' address) \<lparr>rd_chunks = data, rd_end = e\<rparr> else StreamClosed)"
proof -
  have w: "w\<lparr>dw_write1 := True\<rparr> = w" using assms(5) by simp
  have dial: "DialDirect S A w s (str_bytes host) port = Ok (dial_stream_writes S (str_bytes host) port)"
    using assms(4-6) by (simp add: DialDirect_def dial_stream_writes_def Let_def)
  show ?thesis
    using dd.Connect_dials [OF assms(2), of S A w s port] dd.RelayStream_dials [OF assms(1,3,7), of A w s port]
    by (simp add: w dial assms(8))
qed

definition ex_client :: UdptlsSctpClient where
  "ex_client = \<lparr>ac_Address = [], ac_password = [112], ac_ctx = Background, ac_udpdialer = UdpDialer [] [] Background,
     ac_uni = False, ac_httpac = None, ac_puni = None, ac_udprelay = Some ex_relay, ac_pumps = [], ac_connCtx = None\<rparr>"

definition ex_dial_world :: dial_world where
  "ex_dial_world = \<lparr>dw_rand = [], dw_now = 0, dw_ws = (\<lambda>_. False), dw_opened = Some 3,
     dw_puni = (\<lambda>_. NewPacketUni (make_chan 8) (make_chan 8) (make_chan 8) [] Background 0),
     dw_write1 = True, dw_write2 = (\<lambda>b. (length b, False))\<rparr>"

theorem tcp_connect_end_to_end_witness:
  "\<exists>ws. TCPHandle_Connect (DialDirect struc_be ex_aead ex_dial_world ex_client) ''[2001:db8::1]:443'' = Ok (SplicedWith ws) \<and>
    RelayStream struc_be \<lparr>nw_listen = (\<lambda>_. False), nw_dial = (\<lambda>_ _. True)\<rparr> Background
      (Some \<lparr>rd_chunks = ws @ [[1, 2]], rd_end = EOF\<rparr>) =
    StreamRelayed (Dialled ''tcp'' ''[2001:db8::1]:443'') \<lparr>rd_chunks = [[1, 2]], rd_end = EOF\<rparr>"
proof -
  have host: "no_brackets ''2001:db8::1''" "length ''2001:db8::1'' \<le> 65530"
    by (simp_all add: no_brackets_def)
  have opened: "open_stream struc_be ex_aead ex_dial_world ex_client = Ok True"
    by (simp add: open_stream_def ex_client_def ex_dial_world_def relay_ClientOpenStream_def ex_relay_def)
  have world: "dw_write1 ex_dial_world" "\<And>b. dw_write2 ex_dial_world b = (length b, False)"
    "cx_values Background ExtraOptionsLocalUDPBindPort = None"
    by (simp_all add: ex_dial_world_def Background_def)
  have addr: "''[2001:db8::1]:443'' = JoinHostPort ''2001:db8::1'' (itoa (uint (443 :: u16)))"
    by code_simp
  from tcp_connect_end_to_end [OF struc_be_laws host opened world addr,
      of "\<lparr>nw_listen = (\<lambda>_. False), nw_dial = (\<lambda>_ _. True)\<rparr>" "[[1, 2]]" EOF]
  show ?thesis by simp
qed

section \<open>The copying loops\<close>

text \<open>
  A connection between a near end, towards the application, and a far end, towards the destination:
  the bytes on their way in both directions, and which end has closed it. A close is orderly: what was
  written before it is still delivered.
\<close>

record link =
  lk_up :: bytes
  lk_down :: bytes
  lk_nearEnd :: bool
  lk_farEnd :: bool

definition new_link :: link where
  "new_link = \<lparr>lk_up = [], lk_down = [], lk_nearEnd = False, lk_farEnd = False\<rparr>"

definition copy_size :: "nat \<Rightarrow> nat" where
  "copy_size n = min (Suc n) 32768"

text \<open>
  A round of \<open>io.Copy\<close> from the far end of \<open>a\<close> to the near end of \<open>b\<close>, with a read of up to \<open>copy_size n\<close> bytes:
  \<open>None\<close> while there is nothing to read; \<open>False\<close> when the copy ends, at the end of \<open>a\<close> or on an error. Reading
  or writing a connection one has closed is an error; a write to a connection the peer has closed is
  one if \<open>werr\<close>.
\<close>

definition copy_up :: "nat \<Rightarrow> bool \<Rightarrow> link \<Rightarrow> link \<Rightarrow> (bool \<times> link \<times> link) option" where
  "copy_up n werr a b =
     (if lk_farEnd a then Some (False, a, b)
      else if lk_up a \<noteq> [] then
        (let chunk = take (copy_size n) (lk_up a); a' = a\<lparr>lk_up := drop (copy_size n) (lk_up a)\<rparr>
         in if lk_nearEnd b \<or> lk_farEnd b \<and> werr then Some (False, a', b)
            else Some (True, a', b\<lparr>lk_up := lk_up b @ chunk\<rparr>))
      else if lk_nearEnd a then Some (False, a, b)
      else None)"

definition copy_down :: "nat \<Rightarrow> bool \<Rightarrow> link \<Rightarrow> link \<Rightarrow> (bool \<times> link \<times> link) option" where
  "copy_down n werr a b =
     (if lk_nearEnd b then Some (False, a, b)
      else if lk_down b \<noteq> [] then
        (let chunk = take (copy_size n) (lk_down b); b' = b\<lparr>lk_down := drop (copy_size n) (lk_down b)\<rparr>
         in if lk_farEnd a \<or> lk_nearEnd a \<and> werr then Some (False, a, b')
            else Some (True, a\<lparr>lk_down := lk_down a @ chunk\<rparr>, b'))
      else if lk_farEnd b then Some (False, a, b)
      else None)"

text \<open>
  A connection of an application: its link to the SOCKS front end, the stream through the tunnel, the
  link of the server to the destination, and which of the four loops still run.
\<close>

record tcp_session =
  ts_app :: link
  ts_tunnel :: link
  ts_remote :: link
  ts_clientUp :: bool
  ts_clientDown :: bool
  ts_serverUp :: bool
  ts_serverDown :: bool

definition tcp_start :: tcp_session where
  "tcp_start = \<lparr>ts_app = new_link, ts_tunnel = new_link, ts_remote = new_link,
     ts_clientUp = True, ts_clientDown = True, ts_serverUp = True, ts_serverDown = True\<rparr>"

text \<open>
  The moves. The front end runs \<open>go io.Copy(conn, c)\<close> and \<open>io.Copy(c, conn)\<close>, and when the latter has ended it
  closes both connections; the server runs \<open>go io.Copy(netconn, conn)\<close> and \<open>io.Copy(conn, netconn)\<close>, and when
  the latter has ended it closes the stream only.
\<close>

datatype tcp_move =
    AppSend bytes | AppClose | RemoteSend bytes | RemoteClose
  | ClientUp nat bool | ClientDown nat bool | ServerUp nat bool | ServerDown nat bool

fun tcp_exec :: "tcp_move \<Rightarrow> tcp_session \<Rightarrow> tcp_session option" where
  "tcp_exec (AppSend bs) s =
     (if lk_nearEnd (ts_app s) then None
      else Some (s\<lparr>ts_app := (ts_app s)\<lparr>lk_up := lk_up (ts_app s) @ bs\<rparr>\<rparr>))"
| "tcp_exec AppClose s = Some (s\<lparr>ts_app := (ts_app s)\<lparr>lk_nearEnd := True\<rparr>\<rparr>)"
| "tcp_exec (RemoteSend bs) s =
     (if lk_farEnd (ts_remote s) then None
      else Some (s\<lparr>ts_remote := (ts_remote s)\<lparr>lk_down := lk_down (ts_remote s) @ bs\<rparr>\<rparr>))"
| "tcp_exec RemoteClose s = Some (s\<lparr>ts_remote := (ts_remote s)\<lparr>lk_farEnd := True\<rparr>\<rparr>)"
| "tcp_exec (ClientUp n werr) s =
     (if \<not> ts_clientUp s then None
      else map_option (\<lambda>(go, a, b). s\<lparr>ts_app := a, ts_tunnel := b, ts_clientUp := go\<rparr>)
             (copy_up n werr (ts_app s) (ts_tunnel s)))"
| "tcp_exec (ClientDown n werr) s =
     (if \<not> ts_clientDown s then None
      else map_option (\<lambda>(go, a, b).
             if go then s\<lparr>ts_app := a, ts_tunnel := b\<rparr>
             else s\<lparr>ts_app := a\<lparr>lk_farEnd := True\<rparr>, ts_tunnel := b\<lparr>lk_nearEnd := True\<rparr>, ts_clientDown := False\<rparr>)
             (copy_down n werr (ts_app s) (ts_tunnel s)))"
| "tcp_exec (ServerUp n werr) s =
     (if \<not> ts_serverUp s then None
      else map_option (\<lambda>(go, a, b). s\<lparr>ts_tunnel := a, ts_remote := b, ts_serverUp := go\<rparr>)
             (copy_up n werr (ts_tunnel s) (ts_remote s)))"
| "tcp_exec (ServerDown n werr) s =
     (if \<not> ts_serverDown s then None
      else map_option (\<lambda>(go, a, b).
             if go then s\<lparr>ts_tunnel := a, ts_remote := b\<rparr>
             else s\<lparr>ts_tunnel := a\<lparr>lk_farEnd := True\<rparr>, ts_remote := b, ts_serverDown := False\<rparr>)
             (copy_down n werr (ts_tunnel s) (ts_remote s)))"

text \<open>Runs, and what the two parties have sent in one.\<close>

inductive tcp_run :: "tcp_move list \<Rightarrow> tcp_session \<Rightarrow> bool" where
  run_start: "tcp_run [] tcp_start"
| run_move: "tcp_run ms s \<Longrightarrow> tcp_exec m s = Some s' \<Longrightarrow> tcp_run (ms @ [m]) s'"

fun sent_up :: "tcp_move \<Rightarrow> bytes" where
  "sent_up (AppSend bs) = bs" | "sent_up _ = []"

fun sent_down :: "tcp_move \<Rightarrow> bytes" where
  "sent_down (RemoteSend bs) = bs" | "sent_down _ = []"

abbreviation app_sent :: "tcp_move list \<Rightarrow> bytes" where
  "app_sent ms \<equiv> concat (map sent_up ms)"

abbreviation remote_sent :: "tcp_move list \<Rightarrow> bytes" where
  "remote_sent ms \<equiv> concat (map sent_down ms)"

section \<open>What the loops keep\<close>

text \<open>A round copies something, loses what it read because the write fails, or ends at the end of the source.\<close>

lemma copy_up_cases [consumes 1, case_names copied failed ended]:
  assumes "copy_up n werr a b = Some (go, a', b')"
  obtains (copied) chunk rest where "go" "chunk \<noteq> []" "lk_up a = chunk @ rest" "a' = a\<lparr>lk_up := rest\<rparr>"
      "b' = b\<lparr>lk_up := lk_up b @ chunk\<rparr>"
    | (failed) chunk rest where "\<not> go" "chunk \<noteq> []" "lk_up a = chunk @ rest" "a' = a\<lparr>lk_up := rest\<rparr>" "b' = b" "lk_nearEnd b \<or> lk_farEnd b"
    | (ended) "\<not> go" "a' = a" "b' = b" "lk_farEnd a \<or> lk_nearEnd a \<and> lk_up a = []"
proof (cases "lk_farEnd a \<or> lk_up a = []")
  case True
  with assms show thesis by (intro ended) (auto simp: copy_up_def split: if_splits)
next
  case False
  let ?c = "take (copy_size n) (lk_up a)" and ?r = "drop (copy_size n) (lk_up a)"
  have c: "?c \<noteq> []" "lk_up a = ?c @ ?r" using False by (simp_all add: copy_size_def)
  show thesis
  proof (cases "lk_nearEnd b \<or> lk_farEnd b \<and> werr")
    case True
    with False assms c show thesis by (intro failed [of ?c ?r]) (auto simp: copy_up_def Let_def)
  next
    case f: False
    with False assms c show thesis by (intro copied [of ?c ?r]) (auto simp: copy_up_def Let_def)
  qed
qed

lemma copy_down_cases [consumes 1, case_names copied failed ended]:
  assumes "copy_down n werr a b = Some (go, a', b')"
  obtains (copied) chunk rest where "go" "chunk \<noteq> []" "lk_down b = chunk @ rest" "b' = b\<lparr>lk_down := rest\<rparr>"
      "a' = a\<lparr>lk_down := lk_down a @ chunk\<rparr>"
    | (failed) chunk rest where "\<not> go" "chunk \<noteq> []" "lk_down b = chunk @ rest" "b' = b\<lparr>lk_down := rest\<rparr>" "a' = a" "lk_farEnd a \<or> lk_nearEnd a"
    | (ended) "\<not> go" "a' = a" "b' = b" "lk_nearEnd b \<or> lk_farEnd b \<and> lk_down b = []"
proof (cases "lk_nearEnd b \<or> lk_down b = []")
  case True
  with assms show thesis by (intro ended) (auto simp: copy_down_def split: if_splits)
next
  case False
  let ?c = "take (copy_size n) (lk_down b)" and ?r = "drop (copy_size n) (lk_down b)"
  have c: "?c \<noteq> []" "lk_down b = ?c @ ?r" using False by (simp_all add: copy_size_def)
  show thesis
  proof (cases "lk_farEnd a \<or> lk_nearEnd a \<and> werr")
    case True
    with False assms c show thesis by (intro failed [of ?c ?r]) (auto simp: copy_down_def Let_def)
  next
    case f: False
    with False assms c show thesis by (intro copied [of ?c ?r]) (auto simp: copy_down_def Let_def)
  qed
qed

text \<open>The moves of the four loops, taken apart.\<close>

lemma tcp_exec_loopE:
  assumes "tcp_exec m s = Some s'"
  obtains (sends) bs where "m = AppSend bs" "s' = s\<lparr>ts_app := (ts_app s)\<lparr>lk_up := lk_up (ts_app s) @ bs\<rparr>\<rparr>"
    | (closes) "m = AppClose" "s' = s\<lparr>ts_app := (ts_app s)\<lparr>lk_nearEnd := True\<rparr>\<rparr>"
    | (answers) bs where "m = RemoteSend bs" "\<not> lk_farEnd (ts_remote s)"
        "s' = s\<lparr>ts_remote := (ts_remote s)\<lparr>lk_down := lk_down (ts_remote s) @ bs\<rparr>\<rparr>"
    | (ends) "m = RemoteClose" "s' = s\<lparr>ts_remote := (ts_remote s)\<lparr>lk_farEnd := True\<rparr>\<rparr>"
    | (clientUp) n werr go a b where "m = ClientUp n werr" "ts_clientUp s" "copy_up n werr (ts_app s) (ts_tunnel s) = Some (go, a, b)"
        "s' = s\<lparr>ts_app := a, ts_tunnel := b, ts_clientUp := go\<rparr>"
    | (clientDown) n werr go a b where "m = ClientDown n werr" "ts_clientDown s"
        "copy_down n werr (ts_app s) (ts_tunnel s) = Some (go, a, b)"
        "s' = (if go then s\<lparr>ts_app := a, ts_tunnel := b\<rparr>
          else s\<lparr>ts_app := a\<lparr>lk_farEnd := True\<rparr>, ts_tunnel := b\<lparr>lk_nearEnd := True\<rparr>, ts_clientDown := False\<rparr>)"
    | (serverUp) n werr go a b where "m = ServerUp n werr" "ts_serverUp s" "copy_up n werr (ts_tunnel s) (ts_remote s) = Some (go, a, b)"
        "s' = s\<lparr>ts_tunnel := a, ts_remote := b, ts_serverUp := go\<rparr>"
    | (serverDown) n werr go a b where "m = ServerDown n werr" "ts_serverDown s"
        "copy_down n werr (ts_tunnel s) (ts_remote s) = Some (go, a, b)"
        "s' = (if go then s\<lparr>ts_tunnel := a, ts_remote := b\<rparr>
          else s\<lparr>ts_tunnel := a\<lparr>lk_farEnd := True\<rparr>, ts_remote := b, ts_serverDown := False\<rparr>)"
proof (cases m)
  case (ClientUp n werr)
  with assms clientUp show thesis by (auto split: if_splits)
next
  case (ClientDown n werr)
  with assms clientDown show thesis by (auto simp del: if_split split: if_splits(2))
next
  case (ServerUp n werr)
  with assms serverUp show thesis by (auto split: if_splits)
next
  case (ServerDown n werr)
  with assms serverDown show thesis by (auto simp del: if_split split: if_splits(2))
qed (use assms sends closes answers ends in \<open>auto split: if_splits\<close>)

lemma prefix_part: "prefix (xs @ ys @ zs) ws \<Longrightarrow> prefix (xs @ ys) ws"
  using append_prefixD [of "xs @ ys" zs] by simp

text \<open>
  Towards the destination: while both loops run nothing is lost; while the server's runs, what it wrote
  and has before it is a prefix of what the application sent; and what the destination got always is.
  Towards the application likewise.
\<close>

definition up_inv :: "bytes \<Rightarrow> tcp_session \<Rightarrow> bool" where
  "up_inv sent s \<longleftrightarrow>
     (ts_clientUp s \<and> ts_serverUp s \<longrightarrow> sent = lk_up (ts_remote s) @ lk_up (ts_tunnel s) @ lk_up (ts_app s)) \<and>
     (ts_serverUp s \<longrightarrow> prefix (lk_up (ts_remote s) @ lk_up (ts_tunnel s)) sent) \<and>
     prefix (lk_up (ts_remote s)) sent"

definition down_inv :: "bytes \<Rightarrow> tcp_session \<Rightarrow> bool" where
  "down_inv sent s \<longleftrightarrow>
     (ts_serverDown s \<and> ts_clientDown s \<longrightarrow> sent = lk_down (ts_app s) @ lk_down (ts_tunnel s) @ lk_down (ts_remote s)) \<and>
     (ts_clientDown s \<longrightarrow> prefix (lk_down (ts_app s) @ lk_down (ts_tunnel s)) sent) \<and>
     prefix (lk_down (ts_app s)) sent"

text \<open>Who has closed what.\<close>

definition ends_inv :: "tcp_session \<Rightarrow> bool" where
  "ends_inv s \<longleftrightarrow>
     lk_farEnd (ts_app s) = (\<not> ts_clientDown s) \<and> lk_nearEnd (ts_tunnel s) = (\<not> ts_clientDown s) \<and>
     lk_farEnd (ts_tunnel s) = (\<not> ts_serverDown s) \<and> \<not> lk_nearEnd (ts_remote s)"

text \<open>As long as the application has not closed its connection, a loop towards it ends only after everything was copied.\<close>

definition complete_inv :: "bytes \<Rightarrow> tcp_session \<Rightarrow> bool" where
  "complete_inv sent s \<longleftrightarrow>
     \<not> lk_nearEnd (ts_app s) \<and>
     (ts_clientDown s \<longrightarrow> sent = lk_down (ts_app s) @ lk_down (ts_tunnel s) @ lk_down (ts_remote s)) \<and>
     (ts_clientDown s \<and> \<not> ts_serverDown s \<longrightarrow> lk_down (ts_remote s) = [] \<and> lk_farEnd (ts_remote s)) \<and>
     (\<not> ts_clientDown s \<longrightarrow> lk_down (ts_app s) = sent \<and> lk_farEnd (ts_remote s))"

lemma up_inv_step:
  assumes "tcp_exec m s = Some s'" and "up_inv sent s"
  shows "up_inv (sent @ sent_up m) s'"
  using assms
proof (cases rule: tcp_exec_loopE)
  case clientUp
  from clientUp(3) show ?thesis
    by (cases rule: copy_up_cases) (use clientUp assms(2) in \<open>auto simp: up_inv_def\<close>)
next
  case serverUp
  from serverUp(3) show ?thesis
    by (cases rule: copy_up_cases) (use serverUp assms(2) in \<open>auto simp: up_inv_def dest: prefix_part\<close>)
next
  case clientDown
  from clientDown(3) show ?thesis
    by (cases rule: copy_down_cases) (use clientDown assms(2) in \<open>auto simp: up_inv_def\<close>)
next
  case serverDown
  from serverDown(3) show ?thesis
    by (cases rule: copy_down_cases) (use serverDown assms(2) in \<open>auto simp: up_inv_def\<close>)
qed (use assms(2) in \<open>auto simp: up_inv_def\<close>)

lemma down_inv_step:
  assumes "tcp_exec m s = Some s'" and "down_inv sent s"
  shows "down_inv (sent @ sent_down m) s'"
  using assms
proof (cases rule: tcp_exec_loopE)
  case clientUp
  from clientUp(3) show ?thesis
    by (cases rule: copy_up_cases) (use clientUp assms(2) in \<open>auto simp: down_inv_def\<close>)
next
  case serverUp
  from serverUp(3) show ?thesis
    by (cases rule: copy_up_cases) (use serverUp assms(2) in \<open>auto simp: down_inv_def\<close>)
next
  case clientDown
  from clientDown(3) show ?thesis
    by (cases rule: copy_down_cases) (use clientDown assms(2) in \<open>auto simp: down_inv_def dest: prefix_part\<close>)
next
  case serverDown
  from serverDown(3) show ?thesis
    by (cases rule: copy_down_cases) (use serverDown assms(2) in \<open>auto simp: down_inv_def\<close>)
qed (use assms(2) in \<open>auto simp: down_inv_def\<close>)

lemma ends_inv_step:
  assumes "tcp_exec m s = Some s'" and "ends_inv s"
  shows "ends_inv s'"
  using assms
proof (cases rule: tcp_exec_loopE)
  case clientUp
  from clientUp(3) show ?thesis
    by (cases rule: copy_up_cases) (use clientUp assms(2) in \<open>auto simp: ends_inv_def\<close>)
next
  case serverUp
  from serverUp(3) show ?thesis
    by (cases rule: copy_up_cases) (use serverUp assms(2) in \<open>auto simp: ends_inv_def\<close>)
next
  case clientDown
  from clientDown(3) show ?thesis
    by (cases rule: copy_down_cases) (use clientDown assms(2) in \<open>auto simp: ends_inv_def\<close>)
next
  case serverDown
  from serverDown(3) show ?thesis
    by (cases rule: copy_down_cases) (use serverDown assms(2) in \<open>auto simp: ends_inv_def\<close>)
qed (use assms(2) in \<open>auto simp: ends_inv_def\<close>)

lemma complete_inv_step:
  assumes "tcp_exec m s = Some s'" and "m \<noteq> AppClose" and "ends_inv s" and "complete_inv sent s"
  shows "complete_inv (sent @ sent_down m) s'"
  using assms(1)
proof (cases rule: tcp_exec_loopE)
  case clientUp
  from clientUp(3) show ?thesis
    by (cases rule: copy_up_cases) (use clientUp assms(3,4) in \<open>auto simp: complete_inv_def ends_inv_def\<close>)
next
  case serverUp
  from serverUp(3) show ?thesis
    by (cases rule: copy_up_cases) (use serverUp assms(3,4) in \<open>auto simp: complete_inv_def ends_inv_def\<close>)
next
  case clientDown
  from clientDown(3) show ?thesis
    by (cases rule: copy_down_cases) (use clientDown assms(3,4) in \<open>auto simp: complete_inv_def ends_inv_def\<close>)
next
  case serverDown
  from serverDown(3) show ?thesis
    by (cases rule: copy_down_cases) (use serverDown assms(3,4) in \<open>auto simp: complete_inv_def ends_inv_def\<close>)
next
  case answers
  with assms(4) show ?thesis by (cases "ts_clientDown s"; cases "ts_serverDown s") (simp_all add: complete_inv_def)
next
  case sends
  with assms(4) show ?thesis by (cases "ts_clientDown s"; cases "ts_serverDown s") (simp_all add: complete_inv_def)
next
  case ends
  with assms(4) show ?thesis by (cases "ts_clientDown s"; cases "ts_serverDown s") (simp_all add: complete_inv_def)
next
  case closes
  with assms(2) show ?thesis by simp
qed

lemma tcp_start_inv:
  "up_inv [] tcp_start" "down_inv [] tcp_start" "ends_inv tcp_start" "complete_inv [] tcp_start"
  by (simp_all add: up_inv_def down_inv_def ends_inv_def complete_inv_def tcp_start_def new_link_def)

lemma tcp_run_inv:
  assumes "tcp_run ms s"
  shows "up_inv (app_sent ms) s \<and> down_inv (remote_sent ms) s \<and> ends_inv s \<and>
    (AppClose \<notin> set ms \<longrightarrow> complete_inv (remote_sent ms) s)"
  using assms
proof induction
  case run_start
  show ?case by (simp add: tcp_start_inv)
next
  case (run_move ms s m s')
  then show ?case
    using up_inv_step [OF run_move.hyps(2)] down_inv_step [OF run_move.hyps(2)] ends_inv_step [OF run_move.hyps(2)]
      complete_inv_step [OF run_move.hyps(2)]
    by auto
qed

lemma tcp_run_RemoteClose:
  assumes "tcp_run ms s" and "lk_farEnd (ts_remote s)"
  shows "RemoteClose \<in> set ms"
  using assms
proof induction
  case (run_move ms s m s')
  have "lk_farEnd (ts_remote s') \<Longrightarrow> lk_farEnd (ts_remote s) \<or> m = RemoteClose"
    using run_move.hyps(2)
    by (cases rule: tcp_exec_loopE) (auto elim!: copy_up_cases copy_down_cases split: if_splits)
  with run_move show ?case by auto
qed (simp add: tcp_start_def new_link_def)

lemma tcp_run_closed:
  assumes "tcp_run ms s" and "RemoteClose \<in> set ms"
  shows "lk_farEnd (ts_remote s)"
  using assms
proof induction
  case (run_move ms s m s')
  from run_move.hyps(2) show ?case
    by (cases rule: tcp_exec_loopE) (use run_move.IH run_move.prems in \<open>auto elim!: copy_up_cases copy_down_cases split: if_splits\<close>)
qed simp

text \<open>While the destination is silent nothing comes down, and the loops towards the application wait.\<close>

lemma tcp_run_silent:
  assumes "tcp_run ms s" and "remote_sent ms = []" and "RemoteClose \<notin> set ms"
  shows "ts_clientDown s \<and> ts_serverDown s"
  using assms
proof induction
  case (run_move ms s m s')
  note inv = tcp_run_inv [OF run_move.hyps(1)] tcp_run_RemoteClose [OF run_move.hyps(1)]
  have loops: "ts_clientDown s \<and> ts_serverDown s" and silent: "remote_sent ms = []" "\<not> lk_farEnd (ts_remote s)"
    using run_move.IH run_move.prems inv(2) by auto
  moreover have "remote_sent ms = lk_down (ts_app s) @ lk_down (ts_tunnel s) @ lk_down (ts_remote s)"
    using inv(1) loops by (simp add: down_inv_def)
  ultimately have "lk_down (ts_tunnel s) = [] \<and> lk_down (ts_remote s) = [] \<and> \<not> lk_nearEnd (ts_tunnel s) \<and>
      \<not> lk_farEnd (ts_tunnel s) \<and> \<not> lk_nearEnd (ts_remote s)"
    using inv(1) by (simp add: ends_inv_def del: concat_eq_Nil_conv)
  with run_move.hyps(2) show ?case
    by (cases rule: tcp_exec_loopE) (use loops silent in \<open>auto elim!: copy_down_cases split: if_splits\<close>)
qed (simp add: tcp_start_def)

lemma tcp_run_loops:
  assumes "tcp_run ms s" and "AppClose \<notin> set ms" and "RemoteClose \<notin> set ms"
  shows "ts_clientUp s \<and> ts_serverUp s \<and> ts_clientDown s \<and> ts_serverDown s"
  using assms
proof induction
  case (run_move ms s m s')
  note inv = tcp_run_inv [OF run_move.hyps(1)] tcp_run_RemoteClose [OF run_move.hyps(1)]
  have ends: "\<not> lk_farEnd (ts_remote s) \<and> \<not> lk_nearEnd (ts_app s)"
    using inv run_move.prems by (auto simp: complete_inv_def)
  have loops: "ts_clientUp s \<and> ts_serverUp s \<and> ts_clientDown s \<and> ts_serverDown s"
    using run_move.IH run_move.prems by simp
  then have "\<not> lk_farEnd (ts_app s) \<and> \<not> lk_nearEnd (ts_tunnel s) \<and> \<not> lk_farEnd (ts_tunnel s) \<and> \<not> lk_nearEnd (ts_remote s)"
    using inv(1) by (simp add: ends_inv_def)
  with run_move.hyps(2) show ?case
    by (cases rule: tcp_exec_loopE)
       (use loops ends in \<open>auto elim!: copy_up_cases copy_down_cases split: if_splits\<close>)
qed (simp add: tcp_start_def)

text \<open>
  C12. A TCP connection through the tunnel is a pair of byte streams. Whatever the two parties send and however
  the four copying loops interleave, the destination has got a prefix of what the application sent and the
  application a prefix of what the destination sent. As long as neither party has closed, nothing is
  lost: every byte is delivered or on its way, in order. And as long as the application has not closed,
  it sees the end of the connection only when the destination has closed and all it sent has arrived.
\<close>

theorem tcp_relay_is_byte_stream:
  assumes "tcp_run ms s"
  shows "prefix (lk_up (ts_remote s)) (app_sent ms) \<and> prefix (lk_down (ts_app s)) (remote_sent ms) \<and>
    (AppClose \<notin> set ms \<and> RemoteClose \<notin> set ms \<longrightarrow>
       app_sent ms = lk_up (ts_remote s) @ lk_up (ts_tunnel s) @ lk_up (ts_app s) \<and>
       remote_sent ms = lk_down (ts_app s) @ lk_down (ts_tunnel s) @ lk_down (ts_remote s)) \<and>
    (AppClose \<notin> set ms \<and> lk_farEnd (ts_app s) \<longrightarrow>
       RemoteClose \<in> set ms \<and> lk_down (ts_app s) = remote_sent ms)"
proof (intro conjI impI)
  note inv = tcp_run_inv [OF assms]
  show "prefix (lk_up (ts_remote s)) (app_sent ms)" "prefix (lk_down (ts_app s)) (remote_sent ms)"
    using inv by (simp_all add: up_inv_def down_inv_def)
  show "app_sent ms = lk_up (ts_remote s) @ lk_up (ts_tunnel s) @ lk_up (ts_app s)"
    "remote_sent ms = lk_down (ts_app s) @ lk_down (ts_tunnel s) @ lk_down (ts_remote s)"
    if "AppClose \<notin> set ms \<and> RemoteClose \<notin> set ms"
    using inv tcp_run_loops [OF assms] that by (simp_all add: up_inv_def down_inv_def)
  show "RemoteClose \<in> set ms" "lk_down (ts_app s) = remote_sent ms" if "AppClose \<notin> set ms \<and> lk_farEnd (ts_app s)"
    using inv that tcp_run_RemoteClose [OF assms] by (simp_all add: complete_inv_def ends_inv_def)
qed

text \<open>The moves of a concrete run.\<close>

fun tcp_execs :: "tcp_move list \<Rightarrow> tcp_session \<Rightarrow> tcp_session option" where
  "tcp_execs [] s = Some s"
| "tcp_execs (m # ms) s = (case tcp_exec m s of None \<Rightarrow> None | Some s' \<Rightarrow> tcp_execs ms s')"

lemma tcp_execs_run:
  assumes "tcp_run ms s" and "tcp_execs ms' s = Some s'"
  shows "tcp_run (ms @ ms') s'"
  using assms
proof (induction ms' arbitrary: ms s)
  case (Cons m ms')
  from Cons.prems(2) obtain s1 where s1: "tcp_exec m s = Some s1" "tcp_execs ms' s1 = Some s'"
    by (auto split: option.splits)
  show ?case using Cons.IH [OF run_move [OF Cons.prems(1) s1(1)] s1(2)] by simp
qed simp

definition ex_moves :: "tcp_move list" where
  "ex_moves = [AppSend [1, 2, 3], ClientUp 1 False, RemoteSend [8, 9], ServerUp 0 False, RemoteClose, ServerDown 5 False,
     ServerDown 5 False, ClientDown 0 False, ClientDown 0 False, ClientDown 0 False]"

theorem tcp_relay_is_byte_stream_witness:
  "\<exists>s. tcp_run ex_moves s \<and> lk_up (ts_remote s) = [1] \<and> prefix [1] (app_sent ex_moves) \<and>
     lk_farEnd (ts_app s) \<and> lk_down (ts_app s) = [8, 9] \<and> remote_sent ex_moves = [8, 9]"
proof -
  have "\<exists>s. tcp_execs ex_moves tcp_start = Some s \<and> lk_up (ts_remote s) = [1] \<and> lk_farEnd (ts_app s)"
    by (simp add: ex_moves_def tcp_start_def new_link_def copy_up_def copy_down_def copy_size_def Let_def)
  then obtain s where s: "tcp_run ex_moves s" "lk_up (ts_remote s) = [1]" "lk_farEnd (ts_app s)"
    using tcp_execs_run [OF run_start, of ex_moves] by auto
  have sent: "AppClose \<notin> set ex_moves" "app_sent ex_moves = [1, 2, 3]" "remote_sent ex_moves = [8, 9]"
    by (simp_all add: ex_moves_def)
  from tcp_relay_is_byte_stream [OF s(1)] s sent show ?thesis by auto
qed

section \<open>Connections come to their end\<close>

text \<open>A loop that is not ready waits. A block of moves is fair when both loops towards the application get a turn.\<close>

definition tcp_try :: "tcp_move \<Rightarrow> tcp_session \<Rightarrow> tcp_session" where
  "tcp_try m s = (case tcp_exec m s of None \<Rightarrow> s | Some s' \<Rightarrow> s')"

fun loop_move :: "tcp_move \<Rightarrow> bool" where
  "loop_move (ClientUp _ _) = True" | "loop_move (ClientDown _ _) = True"
| "loop_move (ServerUp _ _) = True" | "loop_move (ServerDown _ _) = True" | "loop_move _ = False"

fun is_ServerDown :: "tcp_move \<Rightarrow> bool" where
  "is_ServerDown (ServerDown _ _) = True" | "is_ServerDown _ = False"

fun is_ClientDown :: "tcp_move \<Rightarrow> bool" where
  "is_ClientDown (ClientDown _ _) = True" | "is_ClientDown _ = False"

definition fair_block :: "tcp_move list \<Rightarrow> bool" where
  "fair_block ms \<longleftrightarrow> list_all loop_move ms \<and> list_ex is_ServerDown ms \<and> list_ex is_ClientDown ms"

definition tcp_left :: "tcp_session \<Rightarrow> nat" where
  "tcp_left s =
     (if ts_clientDown s
      then 2 * length (lk_down (ts_remote s)) + length (lk_down (ts_tunnel s)) + (if ts_serverDown s then 2 else 1)
      else 0)"

definition closing :: "bytes \<Rightarrow> tcp_session \<Rightarrow> bool" where
  "closing sent s \<longleftrightarrow> complete_inv sent s \<and> ends_inv s \<and> lk_farEnd (ts_remote s)"

lemma tcp_try_cases:
  obtains "tcp_exec m s = None" "tcp_try m s = s" | s' where "tcp_exec m s = Some s'" "tcp_try m s = s'"
  by (cases "tcp_exec m s") (auto simp: tcp_try_def)

lemma farEnd_kept:
  assumes "tcp_exec m s = Some s'" and "lk_farEnd (ts_remote s)"
  shows "lk_farEnd (ts_remote s')"
  using assms
  by (cases rule: tcp_exec_loopE) (auto elim!: copy_up_cases copy_down_cases split: if_splits)

lemma tcp_try_closing:
  assumes "closing sent s" and "loop_move m"
  shows "closing sent (tcp_try m s)"
proof (cases rule: tcp_try_cases [of m s])
  case (2 s')
  have "m \<noteq> AppClose" "sent_down m = []" using assms(2) by (cases m; simp)+
  then show ?thesis
    using complete_inv_step [OF 2(1), of sent] ends_inv_step [OF 2(1)] farEnd_kept [OF 2(1)] assms(1) 2(2)
    by (simp add: closing_def)
qed (use assms in simp)

text \<open>No turn of a loop adds to what is left, and a turn of the loop that is next takes something away.\<close>

lemma moved_left:
  assumes "xs \<noteq> []"
  shows "2 * (length xs - Suc k) + min (length xs) (Suc k) < 2 * length xs"
proof -
  have "0 < length xs" using assms by simp
  then show ?thesis by (cases "length xs \<le> Suc k") (simp_all add: min_def)
qed

lemma tcp_try_left:
  assumes "closing sent s" and "loop_move m"
  shows "tcp_left (tcp_try m s) \<le> tcp_left s \<and>
    (is_ServerDown m \<or> ts_serverDown (tcp_try m s) = ts_serverDown s) \<and>
    (ts_clientDown s \<and> (if ts_serverDown s then is_ServerDown m else is_ClientDown m) \<longrightarrow> tcp_left (tcp_try m s) < tcp_left s)"
proof (cases m)
  case (ServerDown n werr)
  then show ?thesis
    using assms(1)
    by (cases "ts_clientDown s"; cases "lk_down (ts_remote s) = []")
       (auto simp: moved_left tcp_try_def closing_def complete_inv_def ends_inv_def tcp_left_def copy_down_def copy_size_def Let_def)
next
  case (ClientDown n werr)
  then show ?thesis
    using assms(1)
    by (cases "ts_serverDown s"; cases "lk_down (ts_tunnel s) = []")
       (auto simp: tcp_try_def closing_def complete_inv_def ends_inv_def tcp_left_def copy_down_def copy_size_def Let_def)
next
  case (ClientUp n werr)
  then show ?thesis
    by (auto simp: tcp_try_def tcp_left_def copy_up_def Let_def split: option.splits if_splits)
next
  case (ServerUp n werr)
  then show ?thesis
    by (auto simp: tcp_try_def tcp_left_def copy_up_def Let_def split: option.splits if_splits)
qed (use assms(2) in simp_all)

lemma block_left:
  assumes "closing sent s" and "list_all loop_move ms"
  shows "closing sent (fold tcp_try ms s) \<and> tcp_left (fold tcp_try ms s) \<le> tcp_left s \<and>
    (ts_clientDown s \<and> list_ex (if ts_serverDown s then is_ServerDown else is_ClientDown) ms \<longrightarrow>
       tcp_left (fold tcp_try ms s) < tcp_left s)"
  using assms
proof (induction ms arbitrary: s)
  case (Cons m ms)
  let ?s1 = "tcp_try m s"
  have m: "loop_move m" "list_all loop_move ms" using Cons.prems(2) by simp_all
  note c1 = tcp_try_closing [OF Cons.prems(1) m(1)] and l1 = tcp_try_left [OF Cons.prems(1) m(1)]
  note IH = Cons.IH [OF c1 m(2)]
  have "tcp_left (fold tcp_try ms ?s1) < tcp_left s"
    if d: "ts_clientDown s" "list_ex (if ts_serverDown s then is_ServerDown else is_ClientDown) (m # ms)"
  proof (cases "tcp_left ?s1 < tcp_left s")
    case True
    then show ?thesis using IH by linarith
  next
    case False
    have pos: "0 < tcp_left s" using d(1) by (simp add: tcp_left_def)
    with False l1 have same: "tcp_left ?s1 = tcp_left s" by linarith
    with pos have "ts_clientDown ?s1" by (auto simp: tcp_left_def split: if_splits)
    moreover have not_next: "\<not> (if ts_serverDown s then is_ServerDown m else is_ClientDown m)"
      using False l1 d(1) by blast
    moreover have "ts_serverDown ?s1 = ts_serverDown s"
    proof (cases "is_ServerDown m")
      case True
      with not_next have "\<not> ts_serverDown s" by (simp split: if_splits)
      with True show ?thesis by (cases m) (simp_all add: tcp_try_def)
    qed (use l1 in blast)
    ultimately have "tcp_left (fold tcp_try ms ?s1) < tcp_left ?s1"
      using IH d(2) by (simp split: if_splits)
    with same show ?thesis by simp
  qed
  moreover have "tcp_left (fold tcp_try ms ?s1) \<le> tcp_left s" using IH l1 by linarith
  ultimately show ?case using IH by simp
qed simp

lemma blocks_left:
  assumes "closing sent s" and "list_all fair_block bs" and "tcp_left s \<le> length bs"
  shows "closing sent (fold tcp_try (concat bs) s) \<and> tcp_left (fold tcp_try (concat bs) s) = 0"
  using assms
proof (induction bs arbitrary: s)
  case (Cons b bs)
  let ?s1 = "fold tcp_try b s"
  have b: "fair_block b" "list_all fair_block bs" using Cons.prems(2) by simp_all
  note left = block_left [OF Cons.prems(1), of b]
  have "tcp_left s = 0 \<or> ts_clientDown s" by (simp add: tcp_left_def)
  then have "tcp_left ?s1 \<le> length bs"
    using left b(1) Cons.prems(3) by (auto simp: fair_block_def)
  with Cons.IH [OF _ b(2)] left b(1) show ?case by (simp add: fair_block_def)
qed simp

text \<open>
  C29. A connection comes to its end. Once the destination has closed and the application has not, whatever sizes
  are read and however the loops are scheduled, as long as both loops towards the application get their
  turns: after at most two rounds for each byte the destination sent and two more, the application has
  received all of them and sees the end of the connection.
\<close>

theorem tcp_session_completes:
  assumes "tcp_run ms s" and "RemoteClose \<in> set ms" and "AppClose \<notin> set ms"
    and "list_all fair_block bs" and "2 * length (remote_sent ms) + 2 \<le> length bs"
  shows "lk_down (ts_app (fold tcp_try (concat bs) s)) = remote_sent ms \<and> lk_farEnd (ts_app (fold tcp_try (concat bs) s))"
proof -
  note inv = tcp_run_inv [OF assms(1)]
  have c: "closing (remote_sent ms) s"
    using inv assms(3) tcp_run_closed [OF assms(1,2)] by (simp add: closing_def)
  have "tcp_left s \<le> 2 * length (remote_sent ms) + 2"
    using c by (auto simp: closing_def complete_inv_def tcp_left_def)
  then have "tcp_left s \<le> length bs" using assms(5) by linarith
  from blocks_left [OF c assms(4) this] show ?thesis
    by (auto simp: closing_def complete_inv_def ends_inv_def tcp_left_def split: if_splits)
qed

theorem tcp_session_completes_witness:
  "\<exists>s. tcp_run [RemoteSend [8], RemoteClose] s \<and>
     lk_down (ts_app (fold tcp_try (concat (replicate 4 [ServerUp 0 True, ClientDown 0 True, ServerDown 7 True])) s)) = [8]"
proof -
  have "\<exists>s. tcp_execs [RemoteSend [8], RemoteClose] tcp_start = Some s"
    by (simp add: tcp_start_def new_link_def)
  then obtain s where s: "tcp_run [RemoteSend [8], RemoteClose] s"
    using tcp_execs_run [OF run_start, of "[RemoteSend [8], RemoteClose]"] by auto
  have "list_all fair_block (replicate 4 [ServerUp 0 True, ClientDown 0 True, ServerDown 7 True])"
    by (simp add: fair_block_def list_all_iff)
  from tcp_session_completes [OF s _ _ this] s show ?thesis by auto
qed

text \<open>
  The other direction has no end. The server never closes its connection to the destination, whatever happens,
  also after the application has closed its own; and as long as the destination neither sends nor
  closes, the loops towards the application go on waiting on both sides of the tunnel, with the stream
  open. A destination that waits for the end of a request waits for ever.
\<close>

theorem tcp_close_not_propagated:
  assumes "tcp_run ms s"
  shows "\<not> lk_nearEnd (ts_remote s) \<and>
    (remote_sent ms = [] \<and> RemoteClose \<notin> set ms \<longrightarrow>
       ts_clientDown s \<and> ts_serverDown s \<and> \<not> lk_nearEnd (ts_tunnel s) \<and> \<not> lk_farEnd (ts_tunnel s))"
  using tcp_run_inv [OF assms] tcp_run_silent [OF assms] by (auto simp: ends_inv_def)

theorem tcp_close_not_propagated_witness:
  "\<exists>s. tcp_run [AppSend [1], AppClose, ClientUp 9 False, ClientUp 9 False, ServerUp 9 False] s \<and>
     lk_nearEnd (ts_app s) \<and> lk_up (ts_remote s) = [1] \<and> \<not> lk_nearEnd (ts_remote s) \<and> ts_clientDown s \<and> ts_serverDown s"
proof -
  let ?ms = "[AppSend [1], AppClose, ClientUp 9 False, ClientUp 9 False, ServerUp 9 False]"
  have "\<exists>s. tcp_execs ?ms tcp_start = Some s \<and> lk_nearEnd (ts_app s) \<and> lk_up (ts_remote s) = [1]"
    by (simp add: tcp_start_def new_link_def copy_up_def copy_size_def Let_def)
  then obtain s where s: "tcp_run ?ms s" "lk_nearEnd (ts_app s)" "lk_up (ts_remote s) = [1]"
    using tcp_execs_run [OF run_start, of ?ms] by auto
  from tcp_close_not_propagated [OF s(1)] s show ?thesis by auto
qed

end
