(* ===== verification/Socks.thy ===== *)
theory Socks
  imports TcpRelay
begin

text \<open>
  The SOCKS front end (\<^verbatim>\<open>ass/socksinterface/socks.go\<close>): the dispatch of a request, the \<open>UDP ASSOCIATE\<close>
  command, the handler of a datagram from a client and the loop that sends answers back, over the UDP
  mux of \<open>StreamMux\<close>. \<open>CONNECT\<close> is in \<open>TcpRelay\<close>.
\<close>

section \<open>The code\<close>

text \<open>
  The SOCKS library is outside the repository: \<open>ParseAddress\<close> splits the text of an address into type, address and
  port of the protocol (\<open>None\<close> for an error), \<open>NewDatagram\<close> with \<open>Bytes\<close> makes a datagram of them and a payload.
\<close>

record socks_lib =
  sl_ParseAddress :: "string \<Rightarrow> (byte \<times> bytes \<times> bytes) option"
  sl_NewDatagram :: "byte \<Rightarrow> bytes \<Rightarrow> bytes \<Rightarrow> bytes \<Rightarrow> bytes"

record UDPExchange =
  ue_ClientAddr :: udp_addr
  ue_RemoteConn :: nat
  ue_MsgCount :: u64

text \<open>
  A handler with the goroutines it has started (a running loop knows its socket and its destination), the
  datagrams its server has sent, and whether that server runs.
\<close>

record rx_loop =
  rl_mirror :: nat
  rl_dest :: udp_addr

record SocksHandler =
  sh_singleClientInstance :: bool
  sh_udpassoc :: "int \<rightharpoonup> UDPExchange"
  sh_loops :: "rx_loop option list"
  sh_sent :: "(bytes \<times> udp_addr) list"
  sh_up :: bool

definition NewSocksHandler :: "bool \<Rightarrow> SocksHandler" where
  "NewSocksHandler single =
     \<lparr>sh_singleClientInstance = single, sh_udpassoc = Map.empty, sh_loops = [], sh_sent = [], sh_up = True\<rparr>"

datatype socks_cmd = CmdConnect | CmdBind | CmdUDP

datatype socks_error = ErrBadRequest | ErrUnsupportCmd

text \<open>Which branch of \<open>TCPHandle\<close> a command takes; without a UDP mux the \<open>UDP\<close> command is not supported.\<close>

datatype socks_branch = BranchUDP | BranchConnect

definition TCPHandle_branch :: "socks_cmd \<Rightarrow> bool \<Rightarrow> socks_error + socks_branch" where
  "TCPHandle_branch cmd has_udpa =
     (if cmd = CmdUDP \<and> has_udpa then Inr BranchUDP
      else if cmd = CmdConnect then Inr BranchConnect
      else Inl ErrUnsupportCmd)"

text \<open>
  What the system answers to a \<open>UDP ASSOCIATE\<close>: the address of the request resolved, whether the new server
  could be made, the address its socket got, and what is known of the request: the port of the TCP connection
  and the address of the server.
\<close>

record assoc_env =
  as_resolved :: "udp_addr option"
  as_server :: bool
  as_uladdr :: udp_addr
  as_tcpPort :: int
  as_serverIP :: ip

text \<open>
  The first part of the \<open>UDP\<close> branch, up to the reply. The port of the request is set to 0, so that a
  server of its own with a new handler serves the association, entered under port 0; the socket of the
  mux gets the port of the TCP connection. The result is the reply or an error, and with it the
  socket, the handler and the mux where they were made.
\<close>

definition TCPHandle_UDP_begin ::
  "socks_lib \<Rightarrow> assoc_env \<Rightarrow> UDPConn2Tun \<Rightarrow> (socks_error + byte \<times> bytes \<times> bytes) \<times> (nat \<times> SocksHandler \<times> UDPConn2Tun) option" where
  "TCPHandle_UDP_begin L env u =
     (case as_resolved env of
        None \<Rightarrow> (Inl ErrBadRequest, None)
      | Some addr \<Rightarrow>
          if \<not> as_server env then (Inl ErrBadRequest, None)
          else
            let caddr = addr\<lparr>ua_Port := 0\<rparr>;
                hld = NewSocksHandler True;
                dialaddr = caddr\<lparr>ua_Port := as_tcpPort env\<rparr>;
                (udpconn, u') = DialUDP dialaddr u;
                uex = \<lparr>ue_ClientAddr = caddr, ue_RemoteConn = udpconn, ue_MsgCount = 0\<rparr>;
                hld' = hld\<lparr>sh_udpassoc := Store (sh_udpassoc hld) (ua_Port caddr) uex\<rparr>;
                uladdr = (as_uladdr env)\<lparr>ua_IP := as_serverIP env\<rparr>
            in ((case sl_ParseAddress L (udp_string uladdr) of None \<Rightarrow> Inl ErrBadRequest | Some r \<Rightarrow> Inr r),
                Some (udpconn, hld', u')))"

text \<open>The second part, when the TCP connection of the client has ended.\<close>

definition TCPHandle_UDP_end :: "nat \<Rightarrow> SocksHandler \<Rightarrow> UDPConn2Tun \<Rightarrow> (unit, SocksHandler \<times> UDPConn2Tun) outcome" where
  "TCPHandle_UDP_end udpconn h u =
     bind_outcome (tun_Close udpconn u) (\<lambda>u'.
       Ok (h\<lparr>sh_udpassoc := Delete (sh_udpassoc h) 0, sh_up := False\<rparr>, u'))"

text \<open>
  \<open>UDPHandle\<close>: a datagram from \<open>addr\<close> for the address with the text \<open>dest\<close>. The first one starts the loop for
  answers, with its own sender as their destination.
\<close>

definition UDPHandle :: "udp_addr \<Rightarrow> string \<Rightarrow> bytes \<Rightarrow> SocksHandler \<times> UDPConn2Tun \<Rightarrow> SocksHandler \<times> UDPConn2Tun" where
  "UDPHandle addr dest data hu =
     (case hu of (h, u) \<Rightarrow>
      (let loadPort = (if sh_singleClientInstance h then 0 else ua_Port addr)
       in case Load (sh_udpassoc h) loadPort of
            None \<Rightarrow> (h, u)
          | Some ue \<Rightarrow>
              (let newval = ue_MsgCount ue + 1;
                   h1 = (if newval = 1
                         then h\<lparr>sh_loops := sh_loops h @ [Some \<lparr>rl_mirror = ue_RemoteConn ue, rl_dest = addr\<rparr>]\<rparr> else h);
                   ue1 = ue\<lparr>ue_MsgCount := newval, ue_ClientAddr := addr\<rparr>;
                   h2 = h1\<lparr>sh_udpassoc := Store (sh_udpassoc h1) loadPort ue1\<rparr>
               in case SplitHostPort dest of
                    None \<Rightarrow> (h2, u)
                  | Some (hp, pp) \<Rightarrow> (h2, WriteTo (ue_RemoteConn ue) data (mk_addr (ParseIP hp) (Atoi pp)) u))))"

text \<open>
  A round of \<open>udpRxLoop\<close>: it ends when the socket has ended or been silent for 1200 seconds, when the
  address of the answer cannot be parsed, or when the datagram cannot be written (\<open>werr\<close>).
\<close>

definition udpRxLoop_step ::
  "socks_lib \<Rightarrow> bool \<Rightarrow> nat \<Rightarrow> SocksHandler \<times> UDPConn2Tun \<Rightarrow> (unit, SocksHandler \<times> UDPConn2Tun) outcome" where
  "udpRxLoop_step L werr k hu =
     (case hu of (h, u) \<Rightarrow>
      (case sh_loops h ! k of
         None \<Rightarrow> Blocked
       | Some l \<Rightarrow>
           (case ReadFrom (rl_mirror l) 65536 u of
              (None, u') \<Rightarrow> Ok (h\<lparr>sh_loops := (sh_loops h)[k := None]\<rparr>, u')
            | (Some (b, n, addr), u') \<Rightarrow>
                if 65536 < n then Panic
                else
                  case sl_ParseAddress L (udp_string addr) of
                    None \<Rightarrow> Ok (h\<lparr>sh_loops := (sh_loops h)[k := None]\<rparr>, u')
                  | Some (a, raddr, rport) \<Rightarrow>
                      if werr then Ok (h\<lparr>sh_loops := (sh_loops h)[k := None]\<rparr>, u')
                      else Ok (h\<lparr>sh_sent := sh_sent h @ [(sl_NewDatagram L a raddr rport b, rl_dest l)]\<rparr>, u'))))"

section \<open>An association\<close>

text \<open>
  The association of socket \<open>i\<close>, whose tunnel packets come from \<open>src\<close>, after \<open>n\<close> datagrams: the handler knows it
  under port 0, the mux routes the port of \<open>src\<close> to it, and no answer waits.
\<close>

definition assoc_ok :: "nat \<Rightarrow> udp_addr \<Rightarrow> nat \<Rightarrow> SocksHandler \<Rightarrow> UDPConn2Tun \<Rightarrow> bool" where
  "assoc_ok i src n h u \<longleftrightarrow>
     sh_singleClientInstance h \<and>
     (\<exists>ue. sh_udpassoc h 0 = Some ue \<and> ue_RemoteConn ue = i \<and> ue_MsgCount ue = of_nat n) \<and>
     (\<exists>c. tun_conns u i = Some c \<and> \<not> tn_closed c \<and> tn_readchan c = make_chan 8 \<and>
        (tn_remoteAddr c)\<lparr>ua_IP := []\<rparr> = src\<lparr>ua_IP := []\<rparr>) \<and>
     tun_tracker u (KeyPort (ua_Port src)) = Some i"

definition addr_text :: "udp_addr \<Rightarrow> string" where
  "addr_text d = JoinHostPort (ip_string (ua_IP d)) (itoa (ua_Port d))"

definition v4_dest :: "udp_addr \<Rightarrow> bool" where
  "v4_dest d \<longleftrightarrow> To4 (ua_IP d) \<noteq> None \<and> 0 \<le> ua_Port d \<and> ua_Port d < 65536"

definition tunnel_packet :: "udp_addr \<Rightarrow> udp_addr \<times> udp_addr \<times> bytes \<Rightarrow> UDPPacket" where
  "tunnel_packet src d = (case d of (_, dest, data) \<Rightarrow>
     \<lparr>up_Source = src\<lparr>ua_IP := v4InV6Prefix @ replicate 4 0\<rparr>,
      up_Dest = mk_addr (v4InV6Prefix @ the (To4 (ua_IP dest))) (ua_Port dest), up_Payload = data\<rparr>)"

lemma begin_assoc:
  assumes "TCPHandle_UDP_begin L env u = (res, Some (i, h, u0))" and "as_resolved env = Some addr"
  shows "assoc_ok i (addr\<lparr>ua_Port := as_tcpPort env\<rparr>) 0 h u0 \<and> tun_LocalRxFromTun u0 = tun_LocalRxFromTun u \<and>
    sh_loops h = [] \<and> sh_sent h = []"
  using assms
  by (auto simp: TCPHandle_UDP_begin_def DialUDP_def NewSocksHandler_def assoc_ok_def Let_def Store_def split: if_splits option.splits)

lemma ip_string_v4_plain:
  assumes "To4 p = Some q"
  shows "no_brackets (ip_string p)"
proof -
  have "c \<notin> set (show_base 10 n)" if "c = CHR ''['' \<or> c = CHR '']''" for c n
    using digits_plain [of "show_base 10 n" c] show_base_10 [of n] that by blast
  moreover have "p \<noteq> []" using assms by (auto simp: To4_def)
  moreover obtain a b c d where "q = [a, b, c, d]"
    using To4_length [OF assms] by (auto simp: numeral_eq_Suc length_Suc_conv)
  ultimately show ?thesis using assms by (simp add: ip_string_def no_brackets_def)
qed

lemma v4_dest_parsed:
  assumes "v4_dest d"
  shows "\<exists>hp pp. SplitHostPort (addr_text d) = Some (hp, pp) \<and>
    mk_addr (ParseIP hp) (Atoi pp) = mk_addr (v4InV6Prefix @ the (To4 (ua_IP d))) (ua_Port d)"
proof -
  obtain q where q: "To4 (ua_IP d) = Some q" using assms by (auto simp: v4_dest_def)
  have port: "0 \<le> ua_Port d" "ua_Port d < 2 ^ 63" using assms by (auto simp: v4_dest_def)
  have "SplitHostPort (addr_text d) = Some (ip_string (ua_IP d), itoa (ua_Port d))"
    unfolding addr_text_def by (rule SplitHostPort_itoa [OF ip_string_v4_plain [OF q] port(1)])
  then show ?thesis
    using Atoi_itoa [OF port] ParseIP_ip_string [OF q] q by simp
qed

lemma UDPHandle_forwards:
  assumes "assoc_ok i src n h u" and "v4_dest d"
  shows "\<exists>h' u'. UDPHandle c (addr_text d) data (h, u) = (h', u') \<and> assoc_ok i src (Suc n) h' u' \<and>
    tun_LocalRxFromTun u' = tun_LocalRxFromTun u @ [tunnel_packet src (c, d, data)] \<and> sh_sent h' = sh_sent h \<and>
    sh_loops h' = (if (of_nat (Suc n) :: u64) = 1 then sh_loops h @ [Some \<lparr>rl_mirror = i, rl_dest = c\<rparr>] else sh_loops h)"
proof -
  obtain hp pp where dest: "SplitHostPort (addr_text d) = Some (hp, pp)"
    "mk_addr (ParseIP hp) (Atoi pp) = mk_addr (v4InV6Prefix @ the (To4 (ua_IP d))) (ua_Port d)"
    using v4_dest_parsed [OF assms(2)] by blast
  obtain ue where ue: "sh_udpassoc h 0 = Some ue" "ue_RemoteConn ue = i" "ue_MsgCount ue = of_nat n" "sh_singleClientInstance h"
    using assms(1) by (auto simp: assoc_ok_def)
  obtain tc where tc: "tun_conns u i = Some tc" "\<not> tn_closed tc" "tn_readchan tc = make_chan 8"
    "(tn_remoteAddr tc)\<lparr>ua_IP := []\<rparr> = src\<lparr>ua_IP := []\<rparr>" and tracked: "tun_tracker u (KeyPort (ua_Port src)) = Some i"
    using assms(1) by (auto simp: assoc_ok_def)
  have ip: "(tn_remoteAddr tc)\<lparr>ua_IP := z\<rparr> = src\<lparr>ua_IP := z\<rparr>" for z
    using arg_cong [OF tc(4), of "\<lambda>a. a\<lparr>ua_IP := z\<rparr>"] by simp
  obtain q where q: "To4 (ua_IP d) = Some q" using assms(2) by (auto simp: v4_dest_def)
  then have "To4 (v4InV6Prefix @ q) = Some q" using To4_length [OF q] by (simp add: To4_def v4InV6Prefix_def)
  with q show ?thesis
    using ue tc tracked ip dest
    by (simp add: UDPHandle_def WriteTo_def assoc_ok_def tunnel_packet_def Load_def Store_def Let_def)
qed

text \<open>The datagrams of clients, and the answers that come back, each read before the next.\<close>

definition client_datagram :: "udp_addr \<times> udp_addr \<times> bytes \<Rightarrow> SocksHandler \<times> UDPConn2Tun \<Rightarrow> SocksHandler \<times> UDPConn2Tun" where
  "client_datagram d hu = (case d of (c, dest, data) \<Rightarrow> UDPHandle c (addr_text dest) data hu)"

fun answers :: "socks_lib \<Rightarrow> UDPPacket list \<Rightarrow> SocksHandler \<times> UDPConn2Tun \<Rightarrow> (unit, SocksHandler \<times> UDPConn2Tun) outcome" where
  "answers L [] hu = Ok hu"
| "answers L (a # as) hu =
     bind_outcome (RxLoop_step a (snd hu)) (\<lambda>u.
     bind_outcome (udpRxLoop_step L False 0 (fst hu, u)) (answers L as))"

definition answer_datagram :: "socks_lib \<Rightarrow> UDPPacket \<Rightarrow> bytes" where
  "answer_datagram L a =
     (case sl_ParseAddress L (udp_string (up_Source a)) of
        None \<Rightarrow> [] | Some (t, raddr, rport) \<Rightarrow> sl_NewDatagram L t raddr rport (up_Payload a))"

definition answer_ok :: "socks_lib \<Rightarrow> int \<Rightarrow> UDPPacket \<Rightarrow> bool" where
  "answer_ok L port a \<longleftrightarrow> ua_Port (up_Dest a) = port \<and> length (up_Payload a) \<le> 65536 \<and>
     sl_ParseAddress L (udp_string (up_Source a)) \<noteq> None"

lemma of_nat_u64_eq_1:
  assumes "0 < n" and "Suc n < 2 ^ 64"
  shows "(of_nat (Suc n) :: u64) \<noteq> 1"
proof
  assume "(of_nat (Suc n) :: u64) = 1"
  then have "unat (of_nat (Suc n) :: u64) = unat (1 :: u64)" by simp
  then show False using assms by (simp add: unat_of_nat del: of_nat_Suc)
qed

lemma later_datagrams:
  assumes "assoc_ok i src n h u" and "0 < n" and "n + length ds < 2 ^ 64" and "\<forall>(c, d, b)\<in>set ds. v4_dest d"
  shows "\<exists>h' u'. fold client_datagram ds (h, u) = (h', u') \<and> assoc_ok i src (n + length ds) h' u' \<and>
    tun_LocalRxFromTun u' = tun_LocalRxFromTun u @ map (tunnel_packet src) ds \<and> sh_sent h' = sh_sent h \<and> sh_loops h' = sh_loops h"
  using assms
proof (induction ds arbitrary: n h u)
  case (Cons x ds)
  obtain c d b where x: "x = (c, d, b)" by (cases x)
  with Cons.prems(4) have "v4_dest d" by auto
  from UDPHandle_forwards [OF Cons.prems(1) this, of c b] of_nat_u64_eq_1 [OF Cons.prems(2)] Cons.prems(3)
  obtain h1 u1 where 1: "client_datagram x (h, u) = (h1, u1)" "assoc_ok i src (Suc n) h1 u1"
    "tun_LocalRxFromTun u1 = tun_LocalRxFromTun u @ [tunnel_packet src x]" "sh_sent h1 = sh_sent h" "sh_loops h1 = sh_loops h"
    by (auto simp: client_datagram_def x)
  from Cons.IH [OF 1(2)] Cons.prems(3,4) 1 show ?case by auto
qed simp

lemma answer_delivered:
  assumes "assoc_ok i src n h u" and "sh_loops h = [Some \<lparr>rl_mirror = i, rl_dest = c\<rparr>]" and "answer_ok L (ua_Port src) a"
  shows "\<exists>h' u'. answers L [a] (h, u) = Ok (h', u') \<and> assoc_ok i src n h' u' \<and> sh_loops h' = sh_loops h \<and>
    sh_sent h' = sh_sent h @ [(answer_datagram L a, c)]"
proof -
  obtain tc where tc: "tun_conns u i = Some tc" "\<not> tn_closed tc" "tn_readchan tc = make_chan 8"
    and tracked: "tun_tracker u (KeyPort (ua_Port src)) = Some i"
    using assms(1) by (auto simp: assoc_ok_def)
  obtain t raddr rport where parsed: "sl_ParseAddress L (udp_string (up_Source a)) = Some (t, raddr, rport)"
    using assms(3) by (auto simp: answer_ok_def)
  let ?u = "u\<lparr>tun_conns := (tun_conns u)(i \<mapsto> tc\<lparr>tn_readchan := chan_send (make_chan 8) a\<rparr>)\<rparr>"
  let ?u' = "u\<lparr>tun_conns := (tun_conns u)(i \<mapsto> tc\<lparr>tn_readchan := make_chan 8\<rparr>)\<rparr>"
  have rx: "RxLoop_step a u = Ok ?u"
    using assms(3) tc tracked by (simp add: RxLoop_step_def answer_ok_def Load_def chan_try_send_def)
  have "ReadFrom i 65536 ?u = (Some (up_Payload a, length (up_Payload a), up_Source a), ?u')"
    using assms(3) by (simp add: ReadFrom_def chan_recv_def answer_ok_def chan_send_def make_chan_def)
  then have "udpRxLoop_step L False 0 (h, ?u) = Ok (h\<lparr>sh_sent := sh_sent h @ [(answer_datagram L a, c)]\<rparr>, ?u')"
    using assms(2,3) parsed by (simp add: udpRxLoop_step_def answer_ok_def answer_datagram_def)
  moreover have "assoc_ok i src n (h\<lparr>sh_sent := x\<rparr>) ?u'" for x
    using assms(1) tc by (auto simp: assoc_ok_def)
  ultimately show ?thesis using rx by (simp del: bind_outcome_Ok_iff)
qed

lemma answers_delivered:
  assumes "assoc_ok i src n h u" and "sh_loops h = [Some \<lparr>rl_mirror = i, rl_dest = c\<rparr>]"
    and "\<forall>a\<in>set as. answer_ok L (ua_Port src) a"
  shows "\<exists>h' u'. answers L as (h, u) = Ok (h', u') \<and> assoc_ok i src n h' u' \<and>
    sh_sent h' = sh_sent h @ map (\<lambda>a. (answer_datagram L a, c)) as"
  using assms
proof (induction as arbitrary: h u)
  case (Cons a as)
  from answer_delivered [OF Cons.prems(1,2), of L a] Cons.prems(3)
  obtain h1 u1 where 1: "answers L [a] (h, u) = Ok (h1, u1)" "assoc_ok i src n h1 u1" "sh_loops h1 = sh_loops h"
    "sh_sent h1 = sh_sent h @ [(answer_datagram L a, c)]"
    by auto
  have "answers L (a # as) (h, u) = answers L as (h1, u1)"
    using 1(1) by (cases "RxLoop_step a u") (auto simp: bind_outcome_Ok_iff)
  moreover from Cons.IH [OF 1(2)] 1 Cons.prems obtain h' u' where "answers L as (h1, u1) = Ok (h', u')"
    "assoc_ok i src n h' u'" "sh_sent h' = sh_sent h @ [(answer_datagram L a, c)] @ map (\<lambda>a. (answer_datagram L a, c)) as"
    by auto
  ultimately show ?case by (simp del: answers.simps)
qed simp


definition ex_socks :: socks_lib where
  "ex_socks = \<lparr>sl_ParseAddress = (\<lambda>s. Some (1, str_bytes s, [])), sl_NewDatagram = (\<lambda>t a p b. t # a @ p @ b)\<rparr>"

definition ex_assoc :: assoc_env where
  "ex_assoc = \<lparr>as_resolved = Some (mk_addr (replicate 16 0) 0), as_server = True, as_uladdr = mk_addr [127, 0, 0, 1] 5000,
     as_tcpPort = 4000, as_serverIP = [127, 0, 0, 1]\<rparr>"

lemma ex_assoc_begins:
  "\<exists>r h u0. TCPHandle_UDP_begin ex_socks ex_assoc NewUDPConn2Tun = (Inr r, Some (0, h, u0))"
  by (simp add: TCPHandle_UDP_begin_def ex_socks_def ex_assoc_def DialUDP_def NewUDPConn2Tun_def Let_def)


section \<open>Where the front end fails\<close>

lemma UDPHandle_assoc:
  assumes "assoc_ok i src n h u" and "UDPHandle c dest data (h, u) = (h', u')"
  shows "assoc_ok i src (Suc n) h' u'"
proof -
  obtain ue where ue: "sh_udpassoc h 0 = Some ue" "ue_RemoteConn ue = i" "ue_MsgCount ue = of_nat n" "sh_singleClientInstance h"
    using assms(1) by (auto simp: assoc_ok_def)
  obtain tc where tc: "tun_conns u i = Some tc" "\<not> tn_closed tc" "tn_readchan tc = make_chan 8"
    "(tn_remoteAddr tc)\<lparr>ua_IP := []\<rparr> = src\<lparr>ua_IP := []\<rparr>" and tracked: "tun_tracker u (KeyPort (ua_Port src)) = Some i"
    using assms(1) by (auto simp: assoc_ok_def)
  show ?thesis
    using assms(2) ue tc tracked
    by (auto simp: UDPHandle_def WriteTo_def assoc_ok_def Load_def Store_def Let_def split: option.splits if_splits)
qed



text \<open>
  Two clients on different hosts whose TCP connections have the same port share an entry of the mux: the
  answers for the first go to the second.
\<close>

lemma same_port_takes_answers:
  assumes "DialUDP a1 u = (i, u1)" and "DialUDP a2 u1 = (j, u2)" and "ua_Port a1 = ua_Port a2" and "ua_Port (up_Dest p) = ua_Port a1"
  shows "\<exists>u3. RxLoop_step p u2 = Ok u3 \<and> i \<noteq> j \<and> fst (ReadFrom i 65536 u3) = None \<and>
    fst (ReadFrom j 65536 u3) = Some (take 65536 (up_Payload p), length (up_Payload p), up_Source p)"
  using assms
  by (auto simp: DialUDP_def RxLoop_step_def ReadFrom_def Load_def Store_def Let_def chan_try_send_def chan_recv_def)

text \<open>A datagram for a domain name enters the tunnel for the nil address.\<close>

lemma domain_datagram_to_nil:
  assumes "assoc_ok i src n h u" and "SplitHostPort dest = Some (hp, pp)" and "ParseIP hp = []"
  shows "\<exists>p. tun_LocalRxFromTun (snd (UDPHandle c dest data (h, u))) = tun_LocalRxFromTun u @ [p] \<and> ua_IP (up_Dest p) = []"
  using assms
  by (auto simp: assoc_ok_def UDPHandle_def WriteTo_def Load_def Let_def)

end
