(* ===== verification/TunLink.thy ===== *)
theory TunLink
  imports StreamMux
begin

text \<open>
  The TUN device of the full client: \<^verbatim>\<open>clientInbound/tun/parser.go\<close>, which takes the UDP packets out of what
  the device delivers and puts answers back, and the stub of a network stack that reads it
  (\<^verbatim>\<open>clientInbound/stackstub\<close>). The device is a datagram connection; decoding and serialising of IP and
  UDP headers is a package outside the repository.
\<close>

section \<open>The packet library\<close>

text \<open>
  \<open>gp_ipv4\<close> and \<open>gp_udp\<close> are the two layers of a decoded packet, where it has them: source and
  destination address; source and destination port with the payload. \<open>gp_serialize\<close> makes a packet, \<open>None\<close>
  for an error. The laws: addresses that are not IPv4 cannot be serialised; a packet whose payload fits
  a datagram can, and decodes to what it was made from.
\<close>

record packet_lib =
  gp_ipv4 :: "bytes \<Rightarrow> (ip \<times> ip) option"
  gp_udp :: "bytes \<Rightarrow> (u16 \<times> u16 \<times> bytes) option"
  gp_serialize :: "ip \<Rightarrow> ip \<Rightarrow> u16 \<Rightarrow> u16 \<Rightarrow> bytes \<Rightarrow> bytes option"

definition packet_laws :: "packet_lib \<Rightarrow> bool" where
  "packet_laws G \<longleftrightarrow>
     (\<forall>src dst sp dp p. To4 src = None \<or> To4 dst = None \<longrightarrow> gp_serialize G src dst sp dp p = None) \<and>
     (\<forall>src dst s d sp dp p. To4 src = Some s \<longrightarrow> To4 dst = Some d \<longrightarrow> length p \<le> 65507 \<longrightarrow>
        (\<exists>b. gp_serialize G src dst sp dp p = Some b \<and> length b = 28 + length p \<and>
             gp_ipv4 G b = Some (s, d) \<and> gp_udp G b = Some (sp, dp, p)))"

section \<open>The link\<close>

record TunToUDPLink =
  tl_tun :: dgram_conn
  tl_LocalRxFromTun :: "UDPPacket list"

definition NewTunToUDPLink :: "dgram_conn \<Rightarrow> TunToUDPLink" where
  "NewTunToUDPLink tun = \<lparr>tl_tun = tun, tl_LocalRxFromTun = []\<rparr>"

definition decode_udp :: "packet_lib \<Rightarrow> bytes \<Rightarrow> UDPPacket option" where
  "decode_udp G b =
     (case (gp_ipv4 G b, gp_udp G b) of
        (Some (s, d), Some (sp, dp, p)) \<Rightarrow>
          Some \<lparr>up_Source = mk_addr s (uint sp), up_Dest = mk_addr d (uint dp), up_Payload = p\<rparr>
      | _ \<Rightarrow> None)"

text \<open>\<open>Read\<close> passes UDP packets to the client and returns the first packet that is none.\<close>

function TunToUDPLink_Read :: "packet_lib \<Rightarrow> nat \<Rightarrow> TunToUDPLink \<Rightarrow> (io_error + bytes) \<times> TunToUDPLink" where
  "TunToUDPLink_Read G blen l =
     (case conn_Read blen (tl_tun l) of
        (Inl e, tun) \<Rightarrow> (Inl e, l\<lparr>tl_tun := tun\<rparr>)
      | (Inr b, tun) \<Rightarrow>
          (case decode_udp G b of
             Some p \<Rightarrow> TunToUDPLink_Read G blen (l\<lparr>tl_tun := tun, tl_LocalRxFromTun := tl_LocalRxFromTun l @ [p]\<rparr>)
           | None \<Rightarrow> (Inr b, l\<lparr>tl_tun := tun\<rparr>)))"
  by auto
termination
  by (relation "measure (\<lambda>(G, blen, l). length (dc_in (tl_tun l)))") (auto simp: conn_Read_def split: list.splits)

declare TunToUDPLink_Read.simps [simp del]

definition TunToUDPLink_Write :: "bytes \<Rightarrow> TunToUDPLink \<Rightarrow> io_error option \<times> TunToUDPLink" where
  "TunToUDPLink_Write p l = (case conn_Write p (tl_tun l) of (e, tun) \<Rightarrow> (e, l\<lparr>tl_tun := tun\<rparr>))"

text \<open>A turn of \<open>InjectionLink\<close> with a packet from the client; errors are logged.\<close>

definition InjectionLink_step :: "packet_lib \<Rightarrow> UDPPacket \<Rightarrow> TunToUDPLink \<Rightarrow> TunToUDPLink" where
  "InjectionLink_step G p l =
     (case gp_serialize G (ua_IP (up_Source p)) (ua_IP (up_Dest p)) (of_int (ua_Port (up_Source p)))
             (of_int (ua_Port (up_Dest p))) (up_Payload p) of
        None \<Rightarrow> l
      | Some b \<Rightarrow> l\<lparr>tl_tun := snd (conn_Write b (tl_tun l))\<rparr>)"

text \<open>
  The stub: \<open>io.Copy\<close> to \<open>ioutil.Discard\<close>, which reads 8192 bytes at a time, until the device fails. The
  packets returned by \<open>Read\<close> are counted and dropped.
\<close>

lemma TunToUDPLink_Read_shrinks:
  "TunToUDPLink_Read G blen l = (Inr b, l') \<Longrightarrow> length (dc_in (tl_tun l')) < length (dc_in (tl_tun l))"
proof (induction G blen l rule: TunToUDPLink_Read.induct)
  case (1 G blen l)
  show ?case
  proof (cases "dc_in (tl_tun l)")
    case Nil
    then show ?thesis using "1.prems" by (simp add: TunToUDPLink_Read.simps conn_Read_def)
  next
    case (Cons d ds)
    show ?thesis
    proof (cases "decode_udp G (take blen d)")
      case None
      then show ?thesis using "1.prems" Cons by (auto simp: TunToUDPLink_Read.simps [of G blen l] conn_Read_def)
    next
      case (Some p)
      let ?tun = "(tl_tun l)\<lparr>dc_in := ds\<rparr>"
      have read: "(Inr (take blen d), ?tun) = conn_Read blen (tl_tun l)" using Cons by (simp add: conn_Read_def)
      have "TunToUDPLink_Read G blen (l\<lparr>tl_tun := ?tun, tl_LocalRxFromTun := tl_LocalRxFromTun l @ [p]\<rparr>) = (Inr b, l')"
        using "1.prems" Cons Some by (simp add: TunToUDPLink_Read.simps [of G blen l] conn_Read_def)
      from "1.IH" [OF read refl Some this] show ?thesis using Cons by simp
    qed
  qed
qed

function HostWR :: "packet_lib \<Rightarrow> TunToUDPLink \<Rightarrow> nat \<Rightarrow> nat \<times> TunToUDPLink" where
  "HostWR G l n =
     (case TunToUDPLink_Read G 8192 l of
        (Inl e, l') \<Rightarrow> (n, l')
      | (Inr b, l') \<Rightarrow> HostWR G l' (Suc n))"
  by auto
termination
  by (relation "measure (\<lambda>(G, l, n). length (dc_in (tl_tun l)))") (auto dest: TunToUDPLink_Read_shrinks [OF sym])

declare HostWR.simps [simp del]

section \<open>What goes through\<close>

lemma HostWR_step:
  assumes "dc_in (tl_tun l) = d # ds" and "length d \<le> 8192"
  shows "HostWR G l n =
    (case decode_udp G d of
       None \<Rightarrow> HostWR G (l\<lparr>tl_tun := (tl_tun l)\<lparr>dc_in := ds\<rparr>\<rparr>) (Suc n)
     | Some p \<Rightarrow> HostWR G (l\<lparr>tl_tun := (tl_tun l)\<lparr>dc_in := ds\<rparr>, tl_LocalRxFromTun := tl_LocalRxFromTun l @ [p]\<rparr>) n)"
proof (cases "decode_udp G d")
  case None
  then show ?thesis
    using assms by (simp add: HostWR.simps [of G l] TunToUDPLink_Read.simps [of G 8192 l] conn_Read_def)
next
  case (Some p)
  let ?l = "l\<lparr>tl_tun := (tl_tun l)\<lparr>dc_in := ds\<rparr>, tl_LocalRxFromTun := tl_LocalRxFromTun l @ [p]\<rparr>"
  have "TunToUDPLink_Read G 8192 l = TunToUDPLink_Read G 8192 ?l"
    using assms Some by (simp add: TunToUDPLink_Read.simps [of G 8192 l] conn_Read_def)
  then show ?thesis using Some by (simp add: HostWR.simps [of G l] HostWR.simps [of G ?l])
qed

lemma HostWR_end:
  assumes "dc_in (tl_tun l) = []"
  shows "HostWR G l n = (n, l)"
  using assms by (simp add: HostWR.simps [of G l] TunToUDPLink_Read.simps [of G 8192 l] conn_Read_def)

lemma HostWR_all:
  assumes "\<forall>d\<in>set (dc_in (tl_tun l)). length d \<le> 8192"
  shows "HostWR G l n =
    (n + length (filter (\<lambda>d. decode_udp G d = None) (dc_in (tl_tun l))),
     l\<lparr>tl_tun := (tl_tun l)\<lparr>dc_in := []\<rparr>,
       tl_LocalRxFromTun := tl_LocalRxFromTun l @ List.map_filter (decode_udp G) (dc_in (tl_tun l))\<rparr>)"
  using assms
proof (induction "dc_in (tl_tun l)" arbitrary: l n)
  case Nil
  then have "(tl_tun l)\<lparr>dc_in := []\<rparr> = tl_tun l" by (metis dgram_conn.surjective dgram_conn.update_convs(1))
  then show ?case using HostWR_end [of l] Nil by (simp add: List.map_filter_def)
next
  case (Cons d ds)
  note d = Cons.hyps(2) [symmetric]
  have len: "length d \<le> 8192" using Cons.prems d by simp
  show ?case
    using HostWR_step [OF d len, of G n] Cons.hyps(1) Cons.prems d
    by (cases "decode_udp G d") (simp_all add: List.map_filter_def)
qed

text \<open>
  C30. The TUN device: the client receives exactly the UDP packets over IPv4 the device delivers, in order and
  with their addresses; everything else, all TCP traffic included, is dropped. And what the client answers
  over IPv4 is written to the device as a packet that decodes to the same addresses, ports and payload,
  while an answer from an IPv6 address is dropped.
\<close>

theorem tun_link_relays_udp:
  assumes "packet_laws G" and "\<forall>d\<in>set (dc_in tun). length d \<le> 8192"
  shows "tl_LocalRxFromTun (snd (HostWR G (NewTunToUDPLink tun) 0)) = List.map_filter (decode_udp G) (dc_in tun) \<and>
    (To4 (ua_IP (up_Source p)) = Some s \<and> To4 (ua_IP (up_Dest p)) = Some d \<and> length (up_Payload p) \<le> 65507 \<and>
     ua_Port (up_Source p) = uint (sp :: u16) \<and> ua_Port (up_Dest p) = uint (dp :: u16) \<and> dc_wrerr tun = None \<longrightarrow>
       (\<exists>b. dc_out (tl_tun (InjectionLink_step G p (NewTunToUDPLink tun))) = dc_out tun @ [b] \<and>
          decode_udp G b = Some \<lparr>up_Source = mk_addr s (uint sp), up_Dest = mk_addr d (uint dp), up_Payload = up_Payload p\<rparr>)) \<and>
    (To4 (ua_IP (up_Source p)) = None \<longrightarrow> InjectionLink_step G p (NewTunToUDPLink tun) = NewTunToUDPLink tun)"
proof (intro conjI impI)
  show "tl_LocalRxFromTun (snd (HostWR G (NewTunToUDPLink tun) 0)) = List.map_filter (decode_udp G) (dc_in tun)"
    using HostWR_all [of "NewTunToUDPLink tun" G 0] assms(2) by (simp add: NewTunToUDPLink_def)
next
  assume p: "To4 (ua_IP (up_Source p)) = Some s \<and> To4 (ua_IP (up_Dest p)) = Some d \<and> length (up_Payload p) \<le> 65507 \<and>
     ua_Port (up_Source p) = uint sp \<and> ua_Port (up_Dest p) = uint dp \<and> dc_wrerr tun = None"
  then obtain b where b: "gp_serialize G (ua_IP (up_Source p)) (ua_IP (up_Dest p)) sp dp (up_Payload p) = Some b"
    "gp_ipv4 G b = Some (s, d)" "gp_udp G b = Some (sp, dp, up_Payload p)"
    using assms(1) unfolding packet_laws_def by blast
  then show "\<exists>b. dc_out (tl_tun (InjectionLink_step G p (NewTunToUDPLink tun))) = dc_out tun @ [b] \<and>
      decode_udp G b = Some \<lparr>up_Source = mk_addr s (uint sp), up_Dest = mk_addr d (uint dp), up_Payload = up_Payload p\<rparr>"
    using p by (simp add: InjectionLink_step_def NewTunToUDPLink_def conn_Write_def decode_udp_def)
next
  assume "To4 (ua_IP (up_Source p)) = None"
  then show "InjectionLink_step G p (NewTunToUDPLink tun) = NewTunToUDPLink tun"
    using assms(1) by (simp add: packet_laws_def InjectionLink_step_def)
qed

text \<open>A packet library that satisfies the laws: a header of 28 bytes with addresses and ports.\<close>

definition ex_packets :: packet_lib where
  "ex_packets =
     \<lparr>gp_ipv4 = (\<lambda>b. if length b < 28 then None else Some (take 4 (drop 12 b), take 4 (drop 16 b))),
      gp_udp = (\<lambda>b. if length b < 28 then None
        else Some (of_nat (be_decode (take 2 (drop 20 b))), of_nat (be_decode (take 2 (drop 22 b))), drop 28 b)),
      gp_serialize = (\<lambda>src dst sp dp p. case (To4 src, To4 dst) of
        (Some s, Some d) \<Rightarrow> Some (replicate 12 0 @ s @ d @ be_encode 2 (unat sp) @ be_encode 2 (unat dp) @ replicate 4 0 @ p)
      | _ \<Rightarrow> None)\<rparr>"

lemma ex_packets_laws: "packet_laws ex_packets"
proof -
  have u: "be_decode (be_encode 2 (unat x)) = unat x" for x :: u16
  proof -
    have "unat x < 2 ^ LENGTH(16)" by (rule unsigned_less)
    then show ?thesis by (intro be_decode_encode) simp
  qed
  show ?thesis
    unfolding packet_laws_def
    by (auto simp: ex_packets_def To4_length u split: option.splits)
qed

theorem tun_link_relays_udp_witness:
  "\<exists>b. dc_out (tl_tun (InjectionLink_step ex_packets
       \<lparr>up_Source = mk_addr [8, 8, 8, 8] 53, up_Dest = mk_addr [10, 0, 0, 1] 4000, up_Payload = [1, 2]\<rparr> (NewTunToUDPLink ex_dgram))) = [b] \<and>
     tl_LocalRxFromTun (snd (HostWR ex_packets (NewTunToUDPLink (ex_dgram\<lparr>dc_in := [b, [0]]\<rparr>)) 0)) =
       [\<lparr>up_Source = mk_addr [8, 8, 8, 8] 53, up_Dest = mk_addr [10, 0, 0, 1] 4000, up_Payload = [1, 2]\<rparr>]"
proof -
  let ?p = "\<lparr>up_Source = mk_addr [8, 8, 8, 8] 53, up_Dest = mk_addr [10, 0, 0, 1] 4000, up_Payload = [1, 2]\<rparr>"
  have v4: "To4 (ua_IP (up_Source ?p)) = Some [8, 8, 8, 8]" "To4 (ua_IP (up_Dest ?p)) = Some [10, 0, 0, 1]"
    by (simp_all add: To4_def)
  have ports: "ua_Port (up_Source ?p) = uint (53 :: u16)" "ua_Port (up_Dest ?p) = uint (4000 :: u16)" by simp_all
  have tun: "\<forall>d\<in>set (dc_in ex_dgram). length d \<le> 8192" "dc_wrerr ex_dgram = None" "dc_out ex_dgram = []"
    by (simp_all add: ex_dgram_def)
  obtain b where b: "dc_out (tl_tun (InjectionLink_step ex_packets ?p (NewTunToUDPLink ex_dgram))) = [b]"
    "decode_udp ex_packets b = Some ?p"
    using tun_link_relays_udp [OF ex_packets_laws tun(1), of ?p "[8, 8, 8, 8]" "[10, 0, 0, 1]" 53 4000] v4 ports tun(2,3) by auto
  have "length b = 30"
    using b(1) by (auto simp: InjectionLink_step_def ex_packets_def NewTunToUDPLink_def conn_Write_def ex_dgram_def To4_def)
  then have "\<forall>d\<in>set (dc_in (ex_dgram\<lparr>dc_in := [b, [0]]\<rparr>)). length d \<le> 8192" by simp
  moreover have "decode_udp ex_packets [0] = None" by (simp add: decode_udp_def ex_packets_def)
  ultimately show ?thesis
    using tun_link_relays_udp [OF ex_packets_laws, of "ex_dgram\<lparr>dc_in := [b, [0]]\<rparr>" ?p] b
    by (auto simp: List.map_filter_def)
qed

end
