(* ===== verification/LossProbe.thy ===== *)
theory LossProbe
  imports StreamMux
begin

text \<open>
  The loss probe (\<^verbatim>\<open>transport/udp/errorCorrection/lossPattern\<close>): both sides send numbered packets of 112
  bytes and print the numbers and times of those that arrive. Client and server have the same code.
\<close>

record LossPatternSignal =
  ls_Seq :: u64
  ls_Time :: u64

definition LossPatternSignal_layout :: layout where
  "LossPatternSignal_layout = [F_int 8, F_int 8]"

definition LossPatternSignal_vals :: "LossPatternSignal \<Rightarrow> fval list" where
  "LossPatternSignal_vals l = [sval (ls_Seq l), sval (ls_Time l)]"

definition LossPatternSignal_of :: "fval list \<Rightarrow> LossPatternSignal" where
  "LossPatternSignal_of vs = \<lparr>ls_Seq = get_word (vs ! 0), ls_Time = get_word (vs ! 1)\<rparr>"

record LossPattern =
  lp_SendInterval :: int
  lp_Size :: int
  lp_SendSum :: int
  lp_conn :: dgram_conn

definition NewLossPattern :: "dgram_conn \<Rightarrow> LossPattern" where
  "NewLossPattern conn = \<lparr>lp_SendInterval = 10, lp_Size = 112, lp_SendSum = 90000, lp_conn = conn\<rparr>"

text \<open>
  A packet of \<open>Send\<close>, filled with random bytes up to the size (\<open>io.CopyN\<close> of a negative number copies
  nothing), and the loop over the sequence numbers from \<open>i\<close>; an error of a write is ignored.
\<close>

definition probe_packet :: "struc_lib \<Rightarrow> int \<Rightarrow> (nat \<Rightarrow> byte) \<Rightarrow> u64 \<Rightarrow> u64 \<Rightarrow> bytes" where
  "probe_packet S sz rnd sq now =
     (let buf = packed S LossPatternSignal_layout (LossPatternSignal_vals \<lparr>ls_Seq = sq, ls_Time = now\<rparr>)
      in buf @ map rnd [0 ..< nat (sz - int (length buf))])"

function Send_loop :: "struc_lib \<Rightarrow> (int \<Rightarrow> nat \<Rightarrow> byte) \<Rightarrow> (int \<Rightarrow> u64) \<Rightarrow> int \<Rightarrow> LossPattern \<Rightarrow> LossPattern" where
  "Send_loop S rnd now i lp =
     (if i \<le> lp_SendSum lp
      then Send_loop S rnd now (i + 1)
             (lp\<lparr>lp_conn := snd (conn_Write (probe_packet S (lp_Size lp) (rnd i) (of_int i) (now i)) (lp_conn lp))\<rparr>)
      else lp)"
  by auto
termination
  by (relation "measure (\<lambda>(S, rnd, now, i, lp). nat (lp_SendSum lp + 1 - i))") auto

declare Send_loop.simps [simp del]

definition Send :: "struc_lib \<Rightarrow> (int \<Rightarrow> nat \<Rightarrow> byte) \<Rightarrow> (int \<Rightarrow> u64) \<Rightarrow> LossPattern \<Rightarrow> LossPattern" where
  "Send S rnd now lp = Send_loop S rnd now 0 lp"

text \<open>\<open>Receive\<close>: what it has printed when the connection fails, which panics; an error of \<open>Unpack\<close> is ignored.\<close>

definition print_signal :: "struc_lib \<Rightarrow> bytes \<Rightarrow> LossPatternSignal" where
  "print_signal S d = LossPatternSignal_of (fst (snd (struc_Unpack S LossPatternSignal_layout d)))"

function Receive :: "struc_lib \<Rightarrow> dgram_conn \<Rightarrow> LossPatternSignal list \<Rightarrow> (unit, unit) outcome \<times> LossPatternSignal list" where
  "Receive S c out =
     (case conn_Read 65536 c of
        (Inl e, c') \<Rightarrow> (Panic, out)
      | (Inr d, c') \<Rightarrow> Receive S c' (out @ [print_signal S d]))"
  by auto
termination
  by (relation "measure (\<lambda>(S, c, out). length (dc_in c))") (auto simp: conn_Read_def split: list.splits)

declare Receive.simps [simp del]

section \<open>What the probe measures\<close>

lemma Send_loop_out:
  assumes "dc_wrerr (lp_conn lp) = None" and "i \<le> lp_SendSum lp + 1"
  shows "dc_out (lp_conn (Send_loop S rnd now i lp)) = dc_out (lp_conn lp) @
    map (\<lambda>j. probe_packet S (lp_Size lp) (rnd j) (of_int j) (now j)) [i .. lp_SendSum lp]"
  using assms
proof (induction S rnd now i lp rule: Send_loop.induct)
  case (1 S rnd now i lp)
  show ?case
  proof (cases "i \<le> lp_SendSum lp")
    case True
    then show ?thesis
      using 1 by (simp add: Send_loop.simps [of S rnd now i lp] conn_Write_def upto_rec1)
  next
    case False
    then show ?thesis by (simp add: Send_loop.simps [of S rnd now i lp])
  qed
qed

lemma Receive_all:
  assumes "\<forall>d\<in>set (dc_in c). length d \<le> 65536"
  shows "Receive S c out = (Panic, out @ map (print_signal S) (dc_in c))"
  using assms
proof (induction "dc_in c" arbitrary: c out)
  case Nil
  then show ?case by (simp add: Receive.simps [of S c] conn_Read_def)
next
  case (Cons d ds)
  have "Receive S c out = Receive S (c\<lparr>dc_in := ds\<rparr>) (out @ [print_signal S d])"
    using Cons.hyps(2) [symmetric] Cons.prems by (simp add: Receive.simps [of S c] conn_Read_def)
  then show ?case
    using Cons.hyps(1) [of "c\<lparr>dc_in := ds\<rparr>"] Cons.hyps(2) [symmetric] Cons.prems by simp
qed

lemma probe_packet_facts:
  assumes "struc_laws S"
  shows "print_signal S (probe_packet S sz rnd sq now) = \<lparr>ls_Seq = sq, ls_Time = now\<rparr>"
    "16 \<le> sz \<Longrightarrow> length (probe_packet S sz rnd sq now) = nat sz"
  using assms
  by (simp_all add: probe_packet_def print_signal_def LossPatternSignal_layout_def LossPatternSignal_vals_def
      LossPatternSignal_of_def Let_def)

text \<open>
  The probe sends 90001 packets of 112 bytes, numbered from 0. Whatever of them arrives, in
  whatever order, the other side prints the number and the time of each; when its connection ends
  it panics.
\<close>

theorem loss_probe_prints_what_arrives:
  assumes "struc_laws S" and "dc_wrerr conn = None" and "dc_out conn = []"
    and "c = conn'\<lparr>dc_in := map (\<lambda>i. dc_out (lp_conn (Send S rnd now (NewLossPattern conn))) ! i) arrived\<rparr>"
    and "\<forall>i\<in>set arrived. i \<le> 90000"
  shows "length (dc_out (lp_conn (Send S rnd now (NewLossPattern conn)))) = 90001 \<and>
    (\<forall>p\<in>set (dc_out (lp_conn (Send S rnd now (NewLossPattern conn)))). length p = 112) \<and>
    Receive S c [] = (Panic, map (\<lambda>i. \<lparr>ls_Seq = of_nat i, ls_Time = now (int i)\<rparr>) arrived)"
proof -
  let ?out = "dc_out (lp_conn (Send S rnd now (NewLossPattern conn)))"
  have out: "?out = map (\<lambda>j. probe_packet S 112 (rnd j) (of_int j) (now j)) [0 .. 90000]"
    using Send_loop_out [of "NewLossPattern conn" 0 S rnd now] assms(2,3) by (simp add: Send_def NewLossPattern_def)
  have len: "\<forall>p\<in>set ?out. length p = 112"
    unfolding out using probe_packet_facts(2) [OF assms(1), of 112] by auto
  have nth: "?out ! i = probe_packet S 112 (rnd (int i)) (of_int (int i)) (now (int i))" if "i \<le> 90000" for i
    unfolding out using that by (simp add: nth_upto)
  have "Receive S c [] = (Panic, map (print_signal S) (dc_in c))"
  proof (rule Receive_all [where out = "[]", simplified])
    show "\<forall>d\<in>set (dc_in c). length d \<le> 65536"
      using assms(4,5) nth probe_packet_facts(2) [OF assms(1), of 112] by auto
  qed
  moreover have "map (print_signal S) (dc_in c) = map (\<lambda>i. \<lparr>ls_Seq = of_nat i, ls_Time = now (int i)\<rparr>) arrived"
    using assms(4,5) nth probe_packet_facts(1) [OF assms(1)] by simp
  moreover have "length ?out = 90001" unfolding out by simp
  ultimately show ?thesis using len by simp
qed

end
